(* ===== verification/Prelude.thy ===== *)
theory Prelude
  imports Main
begin

text \<open>
  What every component shares: the error monad over a sum type (\<open>Inl\<close> is a raised exception,
  \<open>Inr\<close> a returned value), the sequential list traversals of Python (a list comprehension, \<open>all\<close>,
  \<open>any\<close>, each stopping at the first exception), decimal rendering of numbers (\<open>str\<close> of an
  \<open>int\<close>), and small lemmas about lists. The congruence rules let recursive functions call
  themselves under these combinators.
\<close>

named_theorems err_elims \<open>elimination rules for returned results and raised errors\<close>

section \<open>Raising and returning\<close>

fun err_bind :: "'e + 'a \<Rightarrow> ('a \<Rightarrow> 'e + 'b) \<Rightarrow> 'e + 'b" where
  "err_bind (Inl e) f = Inl e"
| "err_bind (Inr x) f = f x"

lemma err_bind_cong [fundef_cong]:
  "m = m' \<Longrightarrow> (\<And>x. m' = Inr x \<Longrightarrow> f x = g x) \<Longrightarrow> err_bind m f = err_bind m' g"
  by (cases m') auto

lemma err_bind_Inr_iff [simp]: "err_bind m f = Inr y \<longleftrightarrow> (\<exists>x. m = Inr x \<and> f x = Inr y)"
  by (cases m) auto

lemma err_bind_Inl_iff [simp]:
  "err_bind m f = Inl e \<longleftrightarrow> m = Inl e \<or> (\<exists>x. m = Inr x \<and> f x = Inl e)"
  by (cases m) auto

text \<open>\<open>try: ... except ...: raise another\<close>, written as a case distinction, and a conditional raise.\<close>

lemma case_sum_Inr_iff [simp]:
  "(case m of Inl e \<Rightarrow> Inl (f e) | Inr x \<Rightarrow> g x) = Inr y \<longleftrightarrow> (\<exists>x. m = Inr x \<and> g x = Inr y)"
  by (cases m) auto

lemma if_Inl_Inr_iff [simp]:
  "(if b then Inl e else m) = Inr y \<longleftrightarrow> \<not> b \<and> m = Inr y"
  "(if b then m else Inl e) = Inr y \<longleftrightarrow> b \<and> m = Inr y"
  by auto

text \<open>\<open>if not cond: raise e\<close>\<close>

definition err_guard :: "bool \<Rightarrow> 'e \<Rightarrow> 'e + unit" where
  "err_guard b e = (if b then Inr () else Inl e)"

lemma err_guard_Inr [simp]: "err_guard b e = Inr u \<longleftrightarrow> b"
  by (simp add: err_guard_def)

lemma err_guard_Inl [simp]: "err_guard b e = Inl e' \<longleftrightarrow> \<not> b \<and> e' = e"
  by (auto simp: err_guard_def)

definition err_of_option :: "'e \<Rightarrow> 'a option \<Rightarrow> 'e + 'a" where
  "err_of_option e x = (case x of None \<Rightarrow> Inl e | Some y \<Rightarrow> Inr y)"

lemma err_of_option_Inr [simp]: "err_of_option e x = Inr y \<longleftrightarrow> x = Some y"
  by (auto simp: err_of_option_def split: option.splits)

lemma err_of_option_Inl [simp]: "err_of_option e x = Inl e' \<longleftrightarrow> x = None \<and> e' = e"
  by (auto simp: err_of_option_def split: option.splits)

section \<open>Sequential traversals\<close>

text \<open>A list comprehension whose element expression may raise.\<close>

fun err_map :: "('a \<Rightarrow> 'e + 'b) \<Rightarrow> 'a list \<Rightarrow> 'e + 'b list" where
  "err_map f [] = Inr []"
| "err_map f (x # xs) = err_bind (f x) (\<lambda>y. err_bind (err_map f xs) (\<lambda>ys. Inr (y # ys)))"

text \<open>\<open>all(...)\<close> and \<open>any(...)\<close> over a generator: later elements are not evaluated once decided.\<close>

fun err_all :: "('a \<Rightarrow> 'e + bool) \<Rightarrow> 'a list \<Rightarrow> 'e + bool" where
  "err_all f [] = Inr True"
| "err_all f (x # xs) = err_bind (f x) (\<lambda>b. if b then err_all f xs else Inr False)"

fun err_any :: "('a \<Rightarrow> 'e + bool) \<Rightarrow> 'a list \<Rightarrow> 'e + bool" where
  "err_any f [] = Inr False"
| "err_any f (x # xs) = err_bind (f x) (\<lambda>b. if b then Inr True else err_any f xs)"

text \<open>A comprehension that also threads a piece of state (a \<open>nonlocal\<close> counter).\<close>

fun err_map_st :: "('a \<Rightarrow> 's \<Rightarrow> 'e + 'b \<times> 's) \<Rightarrow> 'a list \<Rightarrow> 's \<Rightarrow> 'e + 'b list \<times> 's" where
  "err_map_st f [] s = Inr ([], s)"
| "err_map_st f (x # xs) s =
     err_bind (f x s) (\<lambda>(y, s'). err_bind (err_map_st f xs s') (\<lambda>(ys, s''). Inr (y # ys, s'')))"

text \<open>A loop that updates an accumulator and may raise.\<close>

fun err_fold :: "('s \<Rightarrow> 'a \<Rightarrow> 'e + 's) \<Rightarrow> 's \<Rightarrow> 'a list \<Rightarrow> 'e + 's" where
  "err_fold f s [] = Inr s"
| "err_fold f s (x # xs) = err_bind (f s x) (\<lambda>s'. err_fold f s' xs)"

lemma err_map_cong [fundef_cong]:
  "xs = ys \<Longrightarrow> (\<And>x. x \<in> set ys \<Longrightarrow> f x = g x) \<Longrightarrow> err_map f xs = err_map g ys"
  by (induction xs arbitrary: ys) auto

lemma err_all_cong [fundef_cong]:
  "xs = ys \<Longrightarrow> (\<And>x. x \<in> set ys \<Longrightarrow> f x = g x) \<Longrightarrow> err_all f xs = err_all g ys"
proof (induction xs arbitrary: ys)
  case (Cons x xs)
  then have "err_all f xs = err_all g xs" and "f x = g x" by auto
  with Cons.prems(1) show ?case by (auto intro!: err_bind_cong)
qed simp

lemma err_any_cong [fundef_cong]:
  "xs = ys \<Longrightarrow> (\<And>x. x \<in> set ys \<Longrightarrow> f x = g x) \<Longrightarrow> err_any f xs = err_any g ys"
proof (induction xs arbitrary: ys)
  case (Cons x xs)
  then have "err_any f xs = err_any g xs" and "f x = g x" by auto
  with Cons.prems(1) show ?case by (auto intro!: err_bind_cong)
qed simp

lemma err_map_st_cong [fundef_cong]:
  "xs = ys \<Longrightarrow> s = t \<Longrightarrow> (\<And>x s. x \<in> set ys \<Longrightarrow> f x s = g x s) \<Longrightarrow>
     err_map_st f xs s = err_map_st g ys t"
  by (induction xs arbitrary: ys s t) (auto cong: err_bind_cong)

lemma err_map_Inr_length: "err_map f xs = Inr ys \<Longrightarrow> length ys = length xs"
  by (induction xs arbitrary: ys) auto

lemma err_map_Inr_list_all2:
  "err_map f xs = Inr ys \<longleftrightarrow> list_all2 (\<lambda>x y. f x = Inr y) xs ys"
  by (induction xs arbitrary: ys) (auto simp: list_all2_Cons1)

lemma err_map_Inr_mem: "err_map f xs = Inr ys \<Longrightarrow> x \<in> set xs \<Longrightarrow> \<exists>y \<in> set ys. f x = Inr y"
  by (induction xs arbitrary: ys) auto

lemma err_map_all_Inr:
  "(\<And>x. x \<in> set xs \<Longrightarrow> f x = Inr (g x)) \<Longrightarrow> err_map f xs = Inr (map g xs)"
  by (induction xs) auto

lemma err_map_InlD: "err_map f xs = Inl e \<Longrightarrow> \<exists>x \<in> set xs. f x = Inl e"
  by (induction xs) auto

lemma err_map_cases:
  assumes "\<And>x. x \<in> set xs \<Longrightarrow> (\<exists>y. f x = Inr y \<and> P x y) \<or> (\<exists>e. f x = Inl e \<and> Q e)"
  shows "(\<exists>ys. err_map f xs = Inr ys \<and> list_all2 P xs ys) \<or> (\<exists>e. err_map f xs = Inl e \<and> Q e)"
  using assms
proof (induction xs)
  case (Cons x xs)
  then have "(\<exists>ys. err_map f xs = Inr ys \<and> list_all2 P xs ys) \<or>
      (\<exists>e. err_map f xs = Inl e \<and> Q e)"
    by simp
  moreover from Cons.prems have "(\<exists>y. f x = Inr y \<and> P x y) \<or> (\<exists>e. f x = Inl e \<and> Q e)"
    by simp
  ultimately show ?case by (cases "f x") auto
qed simp

lemma err_all_cases:
  assumes "\<And>x. x \<in> set xs \<Longrightarrow> (\<exists>b. f x = Inr b) \<or> (\<exists>e. f x = Inl e \<and> Q e)"
  shows "(\<exists>b. err_all f xs = Inr b) \<or> (\<exists>e. err_all f xs = Inl e \<and> Q e)"
  using assms
proof (induction xs)
  case (Cons x xs)
  then have "(\<exists>b. err_all f xs = Inr b) \<or> (\<exists>e. err_all f xs = Inl e \<and> Q e)" by simp
  moreover from Cons.prems have "(\<exists>b. f x = Inr b) \<or> (\<exists>e. f x = Inl e \<and> Q e)" by simp
  ultimately show ?case by (cases "f x") auto
qed auto

lemma err_any_cases:
  assumes "\<And>x. x \<in> set xs \<Longrightarrow> (\<exists>b. f x = Inr b) \<or> (\<exists>e. f x = Inl e \<and> Q e)"
  shows "(\<exists>b. err_any f xs = Inr b) \<or> (\<exists>e. err_any f xs = Inl e \<and> Q e)"
  using assms
proof (induction xs)
  case (Cons x xs)
  then have "(\<exists>b. err_any f xs = Inr b) \<or> (\<exists>e. err_any f xs = Inl e \<and> Q e)" by simp
  moreover from Cons.prems have "(\<exists>b. f x = Inr b) \<or> (\<exists>e. f x = Inl e \<and> Q e)" by simp
  ultimately show ?case by (cases "f x") auto
qed auto

lemma err_all_pure: "err_all (\<lambda>x. Inr (p x)) xs = Inr (list_all p xs)"
  by (induction xs) auto

lemma err_any_pure: "err_any (\<lambda>x. Inr (p x)) xs = Inr (list_ex p xs)"
  by (induction xs) auto

section \<open>Decimal rendering\<close>

fun show_nat :: "nat \<Rightarrow> string" where
  "show_nat n =
     (if n < 10 then [char_of (48 + n)] else show_nat (n div 10) @ [char_of (48 + n mod 10)])"

declare show_nat.simps [simp del]

definition show_int :: "int \<Rightarrow> string" where
  "show_int i = (if i < 0 then CHR ''-'' # show_nat (nat (- i)) else show_nat (nat i))"

text \<open>The inverse, used to show that rendering loses nothing.\<close>

definition read_nat :: "string \<Rightarrow> nat" where
  "read_nat = foldl (\<lambda>acc c. acc * 10 + (of_char c - 48)) 0"

lemma read_nat_snoc: "read_nat (s @ [c]) = read_nat s * 10 + (of_char c - 48)"
  by (simp add: read_nat_def)

lemma read_show_nat: "read_nat (show_nat n) = n"
proof (induction n rule: show_nat.induct)
  case (1 n)
  show ?case
  proof (cases "n < 10")
    case True
    then show ?thesis by (subst show_nat.simps) (simp add: read_nat_def)
  next
    case False
    then have "n div 10 * 10 + n mod 10 = n" by simp
    with 1 False show ?thesis
      by (subst show_nat.simps) (simp add: read_nat_snoc del: div_mult_mod_eq)
  qed
qed

lemma show_nat_inj: "show_nat m = show_nat n \<longleftrightarrow> m = n"
  by (metis read_show_nat)

lemma show_nat_digits: "c \<in> set (show_nat n) \<Longrightarrow> 48 \<le> (of_char c :: nat) \<and> (of_char c :: nat) \<le> 57"
proof (induction n rule: show_nat.induct)
  case (1 n)
  show ?case
  proof (cases "n < 10")
    case True
    with 1(2) show ?thesis by (subst (asm) show_nat.simps) simp
  next
    case False
    with 1(2) have "c \<in> set (show_nat (n div 10)) \<or> c = char_of (48 + n mod 10)"
      by (subst (asm) show_nat.simps) auto
    moreover have "n mod 10 < 10" by simp
    ultimately show ?thesis using 1(1) False by auto
  qed
qed

lemma show_nat_nonempty [simp]: "show_nat n \<noteq> []"
  by (subst show_nat.simps) simp

section \<open>Lists\<close>

text \<open>\<open>xs.split(".")\<close> and its kin: the parts between separators, empty ones included.\<close>

fun split_on :: "'a \<Rightarrow> 'a list \<Rightarrow> 'a list list" where
  "split_on c [] = [[]]"
| "split_on c (x # xs) =
     (if x = c then [] # split_on c xs
      else (case split_on c xs of [] \<Rightarrow> [[x]] | p # ps \<Rightarrow> (x # p) # ps))"

text \<open>\<open>needle in haystack\<close> for Python strings.\<close>

definition is_prefix :: "'a list \<Rightarrow> 'a list \<Rightarrow> bool" where
  "is_prefix p s \<longleftrightarrow> take (length p) s = p"

fun is_infix :: "'a list \<Rightarrow> 'a list \<Rightarrow> bool" where
  "is_infix p [] = (p = [])"
| "is_infix p (x # xs) = (is_prefix p (x # xs) \<or> is_infix p xs)"

lemma is_prefix_iff: "is_prefix p s \<longleftrightarrow> (\<exists>b. s = p @ b)"
  by (metis append_eq_conv_conj append_take_drop_id is_prefix_def)

lemma is_infix_iff: "is_infix p s \<longleftrightarrow> (\<exists>a b. s = a @ p @ b)"
proof (induction s)
  case Nil
  then show ?case by auto
next
  case (Cons x xs)
  show ?case
  proof
    assume "is_infix p (x # xs)"
    then consider "is_prefix p (x # xs)" | "is_infix p xs" by auto
    then show "\<exists>a b. x # xs = a @ p @ b"
    proof cases
      case 1
      then show ?thesis by (metis append_Nil is_prefix_iff)
    next
      case 2
      with Cons.IH show ?thesis by (metis append_Cons)
    qed
  next
    assume "\<exists>a b. x # xs = a @ p @ b"
    then obtain a b where ab: "x # xs = a @ p @ b" by blast
    show "is_infix p (x # xs)"
    proof (cases a)
      case Nil
      with ab have "is_prefix p (x # xs)" by (auto simp: is_prefix_iff)
      then show ?thesis by simp
    next
      case (Cons y a')
      with ab Cons.IH have "is_infix p xs" by auto
      then show ?thesis by simp
    qed
  qed
qed

lemma list_all2_in_set2: "list_all2 P xs ys \<Longrightarrow> y \<in> set ys \<Longrightarrow> \<exists>x \<in> set xs. P x y"
  by (induction rule: list_all2_induct) auto

lemma sum_list_bound:
  fixes f :: "'a \<Rightarrow> int"
  assumes "\<And>x. x \<in> set xs \<Longrightarrow> f x \<le> k"
  shows "sum_list (map f xs) \<le> int (length xs) * k"
  using assms
proof (induction xs)
  case (Cons a xs)
  then have "sum_list (map f xs) \<le> int (length xs) * k" and "f a \<le> k" by auto
  then show ?case by (simp add: algebra_simps)
qed simp

lemma sum_list_nonneg_filter:
  fixes f :: "'a \<Rightarrow> int"
  assumes "\<And>x. x \<in> set xs \<Longrightarrow> 0 \<le> f x"
  shows "0 \<le> sum_list (map f (filter P xs))"
    and "sum_list (map f (filter P xs)) \<le> sum_list (map f xs)"
  using assms by (induction xs) (auto intro: add_nonneg_nonneg add_increasing)

end
