(* ===== verification/Decimals.thy ===== *)
theory Decimals
  imports Prelude Complex_Main
begin

text \<open>
  Python's \<open>decimal.Decimal\<close>, as \<open>app/rules.py\<close> uses it: finite numbers \<open>coeff * 10 ^ expo\<close>,
  exact comparison, and addition, subtraction, negation and multiplication in the default context
  (28 significant digits, round half to even, exponents up to 999999, \<open>Overflow\<close> trapped).
  \<open>dec_val\<close> is the rational number a \<open>Decimal\<close> stands for. The lemmas show that comparison is
  comparison of these rationals, that arithmetic is exact while 28 digits are enough, and that it
  cannot overflow below \<open>10 ^ 999999\<close>. Infinities and NaNs do not occur: a published literal is
  checked to be finite, and the event model and the database hold finite amounts only.
\<close>

datatype decimal = Dec (coeff: int) (expo: int)

datatype dec_signal = Overflow

definition dec_val :: "decimal \<Rightarrow> rat" where
  "dec_val d = of_int (coeff d) * 10 powi expo d"

definition dec_prec :: nat where "dec_prec = 28"
definition dec_emax :: int where "dec_emax = 999999"
definition dec_etop :: int where "dec_etop = dec_emax - int dec_prec + 1"
definition dec_etiny :: int where "dec_etiny = - 999999 - int dec_prec + 1"

lemmas dec_context = dec_prec_def dec_emax_def dec_etop_def dec_etiny_def

section \<open>Comparison\<close>

text \<open>The coefficient of \<open>d\<close> once its exponent is lowered to \<open>e\<close>.\<close>

definition dec_align :: "decimal \<Rightarrow> int \<Rightarrow> int" where
  "dec_align d e = coeff d * 10 ^ nat (expo d - e)"

definition dec_common :: "decimal \<Rightarrow> decimal \<Rightarrow> int" where
  "dec_common a b = min (expo a) (expo b)"

definition dec_eq :: "decimal \<Rightarrow> decimal \<Rightarrow> bool" where
  "dec_eq a b \<longleftrightarrow> dec_align a (dec_common a b) = dec_align b (dec_common a b)"

definition dec_less :: "decimal \<Rightarrow> decimal \<Rightarrow> bool" where
  "dec_less a b \<longleftrightarrow> dec_align a (dec_common a b) < dec_align b (dec_common a b)"

definition dec_le :: "decimal \<Rightarrow> decimal \<Rightarrow> bool" where
  "dec_le a b \<longleftrightarrow> dec_align a (dec_common a b) \<le> dec_align b (dec_common a b)"

lemma powi10_shift: "(10 :: rat) powi (int n + e) = 10 ^ n * 10 powi e"
  by (simp add: power_int_add)

lemma dec_align_val: "e \<le> expo d \<Longrightarrow> dec_val d = of_int (dec_align d e) * 10 powi e"
proof -
  assume "e \<le> expo d"
  then have "expo d = int (nat (expo d - e)) + e" by simp
  then have "(10 :: rat) powi expo d = 10 ^ nat (expo d - e) * 10 powi e"
    by (metis powi10_shift)
  then show ?thesis by (simp add: dec_val_def dec_align_def)
qed

lemma dec_common_le [simp]: "dec_common a b \<le> expo a" "dec_common a b \<le> expo b"
  by (simp_all add: dec_common_def)

lemma powi10_pos [simp]: "(0 :: rat) < 10 powi e"
  by (simp add: zero_less_power_int)

lemma dec_eq_iff: "dec_eq a b \<longleftrightarrow> dec_val a = dec_val b"
  by (simp add: dec_eq_def dec_align_val [of "dec_common a b" a] dec_align_val [of "dec_common a b" b])

lemma dec_less_iff: "dec_less a b \<longleftrightarrow> dec_val a < dec_val b"
  by (simp add: dec_less_def dec_align_val [of "dec_common a b" a] dec_align_val [of "dec_common a b" b])

lemma dec_le_iff: "dec_le a b \<longleftrightarrow> dec_val a \<le> dec_val b"
  by (simp add: dec_le_def dec_align_val [of "dec_common a b" a] dec_align_val [of "dec_common a b" b])

lemmas dec_cmp_iff = dec_eq_iff dec_less_iff dec_le_iff

lemma dec_val_0 [simp]: "dec_val (Dec 0 e) = 0"
  by (simp add: dec_val_def)

lemma dec_val_Dec: "dec_val (Dec c e) = of_int c * 10 powi e"
  by (simp add: dec_val_def)

lemma dec_val_int [simp]: "dec_val (Dec n 0) = of_int n"
  by (simp add: dec_val_def)

lemma dec_val_eq_0 [simp]: "dec_val d = 0 \<longleftrightarrow> coeff d = 0"
  by (simp add: dec_val_def power_int_not_zero)

section \<open>Rounding to the context\<close>

function ndigits :: "int \<Rightarrow> nat" where
  "ndigits n = (if n < 10 then 1 else Suc (ndigits (n div 10)))"
  by pat_completeness auto
termination
  by (relation "measure nat") auto

declare ndigits.simps [simp del]

lemma ndigits_pos [simp]: "0 < ndigits n"
  by (subst ndigits.simps) simp

lemma ndigits_le_iff: "0 < k \<Longrightarrow> ndigits n \<le> k \<longleftrightarrow> n < 10 ^ k"
proof (induction n arbitrary: k rule: ndigits.induct)
  case (1 n)
  have ten: "(10 :: int) \<le> 10 ^ k" using 1(2) by (cases k) auto
  show ?case
  proof (cases "n < 10")
    case True
    with ten 1(2) show ?thesis by (subst ndigits.simps) simp
  next
    case False
    show ?thesis
    proof (cases "k = 1")
      case True
      with False show ?thesis by (subst ndigits.simps) (simp add: leD)
    next
      case k: False
      with 1(2) obtain j where j: "k = Suc j" "0 < j" by (cases k) auto
      have "n div 10 < y \<longleftrightarrow> n < 10 * y" for y by presburger
      then have "n div 10 < 10 ^ j \<longleftrightarrow> n < 10 ^ k" using j(1) by simp
      with False j 1(1) [OF False j(2)] show ?thesis by (subst ndigits.simps) simp
    qed
  qed
qed

lemma ndigits_lower: "0 < n \<Longrightarrow> 10 ^ (ndigits n - 1) \<le> n"
proof (cases "ndigits n = 1")
  case False
  have "0 < ndigits n" by simp
  with False have "0 < ndigits n - 1" by linarith
  moreover from this have "\<not> ndigits n \<le> ndigits n - 1" by linarith
  ultimately show ?thesis using ndigits_le_iff [of "ndigits n - 1" n] by (simp add: not_less)
qed auto

text \<open>\<open>n / p\<close> rounded to an integer, ties to the even neighbour.\<close>

definition div_half_even :: "int \<Rightarrow> int \<Rightarrow> int" where
  "div_half_even n p =
     (let q = n div p; r = n mod p
      in if 2 * r < p then q else if p < 2 * r then q + 1 else if even q then q else q + 1)"

lemma div_half_even_le:
  assumes le: "n \<le> m * p" and p: "0 < p"
  shows "div_half_even n p \<le> m"
proof (cases "n mod p = 0")
  case True
  have "n div p \<le> m * p div p" using le p by (rule zdiv_mono1)
  with True p show ?thesis by (simp add: div_half_even_def)
next
  case False
  have "n div p < m"
  proof (rule ccontr)
    assume "\<not> n div p < m"
    then have "m * p \<le> n div p * p" using p by simp
    moreover have "0 < n mod p" using False p by (simp add: order_less_le)
    moreover have "n div p * p + n mod p = n" by simp
    ultimately show False using le by linarith
  qed
  then show ?thesis by (auto simp: div_half_even_def Let_def)
qed

lemma div_half_even_nonneg: "0 \<le> n \<Longrightarrow> 0 < p \<Longrightarrow> 0 \<le> div_half_even n p"
  by (auto simp: div_half_even_def Let_def pos_imp_zdiv_nonneg_iff)

text \<open>
  \<open>Decimal._fix\<close>: an exact result is returned as it is when it fits the context, rounded to 28
  digits (fewer for a subnormal number) otherwise, and signals \<open>Overflow\<close> when even the rounded
  result is too large.
\<close>

definition dec_fix :: "decimal \<Rightarrow> dec_signal + decimal" where
  "dec_fix d =
     (let c = \<bar>coeff d\<bar>;
          exp_min = int (ndigits c) + expo d - int dec_prec
      in if c = 0 then Inr (Dec 0 (max dec_etiny (min dec_emax (expo d))))
         else if exp_min > dec_etop then Inl Overflow
         else
           (let e = max exp_min dec_etiny
            in if expo d < e then
                 (let q = div_half_even c (10 ^ nat (e - expo d));
                      q' = (if dec_prec < ndigits q then q div 10 else q);
                      e' = (if dec_prec < ndigits q then e + 1 else e)
                  in if e' > dec_etop then Inl Overflow else Inr (Dec (sgn (coeff d) * q') e'))
               else Inr d))"

definition dec_add :: "decimal \<Rightarrow> decimal \<Rightarrow> dec_signal + decimal" where
  "dec_add a b =
     (let e = dec_common a b in dec_fix (Dec (dec_align a e + dec_align b e) e))"

definition dec_neg :: "decimal \<Rightarrow> dec_signal + decimal" where
  "dec_neg a = dec_fix (Dec (- coeff a) (expo a))"

definition dec_sub :: "decimal \<Rightarrow> decimal \<Rightarrow> dec_signal + decimal" where
  "dec_sub a b = dec_add a (Dec (- coeff b) (expo b))"

definition dec_mul :: "decimal \<Rightarrow> decimal \<Rightarrow> dec_signal + decimal" where
  "dec_mul a b = dec_fix (Dec (coeff a * coeff b) (expo a + expo b))"

section \<open>Exactness\<close>

definition dec_fits :: "decimal \<Rightarrow> bool" where
  "dec_fits d \<longleftrightarrow> \<bar>coeff d\<bar> < 10 ^ dec_prec \<and> dec_etiny \<le> expo d \<and> expo d \<le> dec_etop"

lemma dec_fix_exact: "dec_fits d \<Longrightarrow> \<exists>r. dec_fix d = Inr r \<and> dec_val r = dec_val d"
proof -
  assume fits: "dec_fits d"
  show ?thesis
  proof (cases "coeff d = 0")
    case True
    then show ?thesis by (simp add: dec_fix_def dec_val_def)
  next
    case False
    from fits have "ndigits \<bar>coeff d\<bar> \<le> dec_prec"
      by (simp add: dec_fits_def ndigits_le_iff dec_prec_def)
    with fits False have "dec_fix d = Inr d"
      by (auto simp: dec_fix_def dec_fits_def Let_def)
    then show ?thesis by simp
  qed
qed

lemma dec_add_val:
  "dec_val (Dec (dec_align a (dec_common a b) + dec_align b (dec_common a b)) (dec_common a b)) =
     dec_val a + dec_val b"
  by (simp add: dec_align_val [of "dec_common a b" a] dec_align_val [of "dec_common a b" b]
      dec_val_Dec distrib_right)

lemma dec_neg_val: "dec_val (Dec (- coeff a) (expo a)) = - dec_val a"
  by (simp add: dec_val_def)

lemma dec_mul_val: "dec_val (Dec (coeff a * coeff b) (expo a + expo b)) = dec_val a * dec_val b"
  by (simp add: dec_val_def power_int_add)

section \<open>Magnitude: no overflow below the context's limit\<close>

lemma powi10_le_iff: "(10 :: rat) powi m \<le> 10 powi n \<longleftrightarrow> m \<le> n"
proof
  assume le: "(10 :: rat) powi m \<le> 10 powi n"
  show "m \<le> n"
  proof (rule ccontr)
    assume "\<not> m \<le> n"
    then have "(10 :: rat) powi n < 10 powi m" by (intro power_int_strict_increasing) simp_all
    with le show False by simp
  qed
qed (intro power_int_increasing, simp_all)

lemma powi10_diff:
  assumes "e \<le> k"
  shows "(10 :: rat) powi (k - e) = of_int (10 ^ nat (k - e))"
proof -
  have "(10 :: rat) powi (k - e) = 10 powi int (nat (k - e))" using assms by simp
  also have "\<dots> = 10 ^ nat (k - e)" by (rule power_int_of_nat)
  finally show ?thesis by simp
qed

text \<open>The rounded coefficient of a number below \<open>10 ^ k\<close>, at exponent \<open>e\<close>.\<close>

lemma rounded_le:
  assumes val: "of_int c * 10 powi x \<le> (10 :: rat) powi k" and "x < e" "e \<le> k"
  shows "div_half_even c (10 ^ nat (e - x)) \<le> 10 ^ nat (k - e)"
proof (rule div_half_even_le)
  have "(10 :: rat) powi k = 10 powi (k - x) * 10 powi x"
    by (simp flip: power_int_add)
  with val have "of_int c \<le> (10 :: rat) powi (k - x)" by simp
  then have "of_int c \<le> (of_int (10 ^ nat (k - x)) :: rat)"
    using assms(2,3) by (simp only: powi10_diff)
  then have "c \<le> 10 ^ nat (k - x)" by (simp only: of_int_le_iff)
  also have "nat (k - x) = nat (k - e) + nat (e - x)" using assms(2,3) by simp
  finally show "c \<le> 10 ^ nat (k - e) * 10 ^ nat (e - x)" by (simp add: power_add)
qed simp

lemma scaled_le:
  assumes "q \<le> 10 ^ nat (k - e)" and "e \<le> k"
  shows "of_int q * 10 powi e \<le> (10 :: rat) powi k"
proof -
  have "(of_int q :: rat) \<le> of_int (10 ^ nat (k - e))" using assms(1) by (simp only: of_int_le_iff)
  then have "of_int q * 10 powi e \<le> (10 :: rat) powi (k - e) * 10 powi e"
    using assms(2) by (simp only: powi10_diff) (simp add: mult_right_mono)
  then show ?thesis by (simp flip: power_int_add)
qed

lemma dec_val_signed: "0 \<le> q \<Longrightarrow> \<bar>dec_val (Dec (sgn c * q) e)\<bar> \<le> of_int q * 10 powi e"
  by (simp add: dec_val_def abs_mult sgn_if)

text \<open>A number at most \<open>10 ^ k\<close> has its leading digit at most at position \<open>k\<close>.\<close>

lemma rounded_expo:
  assumes "0 < c" and val: "of_int c * 10 powi x \<le> (10 :: rat) powi k"
  shows "int (ndigits c) - 1 + x \<le> k"
proof -
  have "(10 :: rat) ^ (ndigits c - 1) = of_int (10 ^ (ndigits c - 1))" by simp
  also have "\<dots> \<le> of_int c" using ndigits_lower [OF assms(1)] by (simp only: of_int_le_iff)
  finally have "(10 :: rat) ^ (ndigits c - 1) * 10 powi x \<le> of_int c * 10 powi x"
    by (rule mult_right_mono) (simp add: less_imp_le)
  also note val
  finally have "(10 :: rat) ^ (ndigits c - 1) * 10 powi x \<le> 10 powi k" .
  then have "(10 :: rat) powi (int (ndigits c - 1) + x) \<le> 10 powi k"
    by (simp only: powi10_shift)
  then have "int (ndigits c - 1) + x \<le> k" by (simp only: powi10_le_iff)
  then show ?thesis using ndigits_pos [of c] by linarith
qed

lemma dec_fix_mag:
  assumes mag: "\<bar>dec_val d\<bar> \<le> 10 powi k" and k: "0 \<le> k" "k \<le> dec_emax"
  shows "\<exists>r. dec_fix d = Inr r \<and> \<bar>dec_val r\<bar> \<le> 10 powi k"
proof (cases "coeff d = 0")
  case True
  then show ?thesis by (simp add: dec_fix_def less_imp_le)
next
  case nz: False
  define c where "c = \<bar>coeff d\<bar>"
  define m where "m = int (ndigits c) + expo d - int dec_prec"
  define e where "e = max m dec_etiny"
  define q where "q = div_half_even c (10 ^ nat (e - expo d))"
  have c: "0 < c" "c \<noteq> 0" using nz by (simp_all add: c_def)
  have val: "of_int c * 10 powi expo d \<le> (10 :: rat) powi k"
    using mag by (simp add: dec_val_def abs_mult c_def)
  have m: "m \<le> dec_etop" and e: "e \<le> dec_etop" "e \<le> k"
    using rounded_expo [OF c(1) val] k by (auto simp: m_def e_def dec_context)
  have q0: "0 \<le> q" unfolding q_def using c(1) by (intro div_half_even_nonneg) auto
  note folds = c_def [symmetric] m_def [symmetric] e_def [symmetric] q_def [symmetric]
  show ?thesis
  proof (cases "expo d < e")
    case False
    with m c have "dec_fix d = Inr d" by (simp add: dec_fix_def Let_def folds)
    with mag show ?thesis by simp
  next
    case True
    have q: "q \<le> 10 ^ nat (k - e)" unfolding q_def using val True e(2) by (rule rounded_le)
    show ?thesis
    proof (cases "dec_prec < ndigits q")
      case False
      with m c True e have "dec_fix d = Inr (Dec (sgn (coeff d) * q) e)"
        by (simp add: dec_fix_def Let_def folds)
      moreover have "of_int q * 10 powi e \<le> (10 :: rat) powi k" using q e(2) by (rule scaled_le)
      ultimately show ?thesis using order_trans [OF dec_val_signed [OF q0]] by blast
    next
      case carry: True
      then have "\<not> q < 10 ^ dec_prec"
        using ndigits_le_iff [of dec_prec q] by (simp add: dec_prec_def)
      with q have "(10 :: int) ^ dec_prec \<le> 10 ^ nat (k - e)" by linarith
      then have "dec_prec \<le> nat (k - e)" by (simp add: power_increasing_iff)
      with k(2) have e1: "e + 1 \<le> dec_etop" "e + 1 \<le> k" by (auto simp: dec_context)
      have "nat (k - e) = Suc (nat (k - (e + 1)))" using e1(2) by simp
      with q have "q div 10 \<le> 10 ^ nat (k - (e + 1))" by simp
      then have "of_int (q div 10) * 10 powi (e + 1) \<le> (10 :: rat) powi k"
        using e1(2) by (rule scaled_le)
      moreover from carry m c True e1 have
        "dec_fix d = Inr (Dec (sgn (coeff d) * (q div 10)) (e + 1))"
        by (simp add: dec_fix_def Let_def folds)
      moreover have "0 \<le> q div 10" using q0 by simp
      ultimately show ?thesis using order_trans [OF dec_val_signed] by blast
    qed
  qed
qed

section \<open>The operations, by value\<close>

lemma dec_add_mag:
  assumes "\<bar>dec_val a\<bar> + \<bar>dec_val b\<bar> \<le> 10 powi k" "0 \<le> k" "k \<le> dec_emax"
  shows "\<exists>r. dec_add a b = Inr r \<and> \<bar>dec_val r\<bar> \<le> 10 powi k"
  unfolding dec_add_def Let_def
proof (rule dec_fix_mag)
  show "\<bar>dec_val (Dec (dec_align a (dec_common a b) + dec_align b (dec_common a b)) (dec_common a b))\<bar>
      \<le> 10 powi k"
    unfolding dec_add_val using assms(1) abs_triangle_ineq order_trans by blast
qed (use assms in auto)

lemma dec_neg_mag:
  assumes "\<bar>dec_val a\<bar> \<le> 10 powi k" "0 \<le> k" "k \<le> dec_emax"
  shows "\<exists>r. dec_neg a = Inr r \<and> \<bar>dec_val r\<bar> \<le> 10 powi k"
  unfolding dec_neg_def using assms by (intro dec_fix_mag) (auto simp: dec_neg_val)

lemma dec_sub_mag:
  assumes "\<bar>dec_val a\<bar> + \<bar>dec_val b\<bar> \<le> 10 powi k" "0 \<le> k" "k \<le> dec_emax"
  shows "\<exists>r. dec_sub a b = Inr r \<and> \<bar>dec_val r\<bar> \<le> 10 powi k"
  unfolding dec_sub_def using assms by (intro dec_add_mag) (auto simp: dec_neg_val)

lemma dec_mul_mag:
  assumes "\<bar>dec_val a\<bar> * \<bar>dec_val b\<bar> \<le> 10 powi k" "0 \<le> k" "k \<le> dec_emax"
  shows "\<exists>r. dec_mul a b = Inr r \<and> \<bar>dec_val r\<bar> \<le> 10 powi k"
  unfolding dec_mul_def using assms by (intro dec_fix_mag) (auto simp: dec_mul_val abs_mult)

text \<open>
  Sums of amounts with the same scale are exact as long as the sum has at most 28 digits: the case
  of every money amount (two decimal places).
\<close>

lemma dec_add_cents:
  assumes "\<bar>m + n\<bar> < 10 ^ dec_prec"
  shows "dec_add (Dec m (- 2)) (Dec n (- 2)) = Inr (Dec (m + n) (- 2))"
proof -
  have "ndigits \<bar>m + n\<bar> \<le> dec_prec"
    using assms by (subst ndigits_le_iff) (simp_all add: dec_prec_def)
  then show ?thesis
    by (auto simp: dec_add_def dec_common_def dec_align_def dec_fix_def Let_def dec_context)
qed

end
