(* ===== verification/Py_Values.thy ===== *)
theory Py_Values
  imports Decimals
begin

text \<open>
  The Python values the program handles. \<open>json\<close> is a parsed JSON document: what \<open>json.loads\<close>
  returns (with \<open>parse_float=Decimal\<close> in \<open>app/events.py\<close>, hence \<open>JDec\<close>) and what \<open>model_dump\<close>
  produces. A finite \<open>float\<close> is represented by the decimal that \<open>str\<close> prints for it, which is the
  only thing the program ever reads from a \<open>float\<close>. \<open>pyval\<close> is a run-time value of the rule engine:
  a JSON value whose numbers have all been turned into \<open>Decimal\<close>. Dictionaries are association lists
  in insertion order with distinct keys. Strings are lists of characters (code points up to 255).
\<close>

section \<open>JSON documents\<close>

datatype pyfloat = FNum decimal | FNonFinite

datatype json =
    JNull
  | JBool bool
  | JInt int
  | JFloat pyfloat
  | JDec decimal
  | JStr string
  | JList "json list"
  | JDict "(string \<times> json) list"

section \<open>Run-time values\<close>

datatype pyval =
    VNone
  | VBool bool
  | VNum decimal
  | VStr string
  | VList "pyval list"
  | VDict "(string \<times> pyval) list"

text \<open>\<open>bool(value)\<close>\<close>

fun truthy :: "pyval \<Rightarrow> bool" where
  "truthy VNone = False"
| "truthy (VBool b) = b"
| "truthy (VNum d) = (coeff d \<noteq> 0)"
| "truthy (VStr s) = (s \<noteq> [])"
| "truthy (VList vs) = (vs \<noteq> [])"
| "truthy (VDict kvs) = (kvs \<noteq> [])"

text \<open>
  \<open>left == right\<close> for any two values: \<open>bool\<close> is a subclass of \<open>int\<close>, so it compares with numbers
  by value; lists compare element by element, dictionaries key by key.
\<close>

fun number_of :: "pyval \<Rightarrow> decimal option" where
  "number_of (VBool b) = Some (Dec (if b then 1 else 0) 0)"
| "number_of (VNum d) = Some d"
| "number_of _ = None"

function (sequential) py_eq :: "pyval \<Rightarrow> pyval \<Rightarrow> bool" where
  "py_eq VNone VNone = True"
| "py_eq (VStr s) (VStr t) = (s = t)"
| "py_eq (VList xs) (VList ys) =
     (length xs = length ys \<and> list_all (\<lambda>(x, y). py_eq x y) (zip xs ys))"
| "py_eq (VDict xs) (VDict ys) =
     (length xs = length ys \<and>
      list_all (\<lambda>(k, x). case map_of ys k of None \<Rightarrow> False | Some y \<Rightarrow> py_eq x y) xs)"
| "py_eq v w =
     (case (number_of v, number_of w) of (Some a, Some b) \<Rightarrow> dec_eq a b | _ \<Rightarrow> False)"
  by pat_completeness auto
termination
proof (relation "measure (\<lambda>(v, w). size v)", goal_cases)
  case (2 xs ys z x y)
  then have "x \<in> set xs" by (metis set_zip_leftD)
  then have "size x \<le> size_list size xs" by (simp add: size_list_estimation')
  then show ?case by simp
next
  case (3 xs ys z k x y)
  then have "(k, x) \<in> set xs" by simp
  then have "size_prod (\<lambda>_. 0) size (k, x) \<le> size_list (size_prod (\<lambda>_. 0) size) xs"
    by (simp add: size_list_estimation')
  then show ?case by simp
qed simp

section \<open>Dotted names\<close>

text \<open>\<open>_lookup\<close>: resolve \<open>velocity.prior_count\<close>-style names; \<open>None\<close> is \<open>_MISSING\<close>.\<close>

fun walk :: "pyval \<Rightarrow> string list \<Rightarrow> pyval option" where
  "walk cur [] = Some cur"
| "walk (VDict kvs) (p # ps) = (case map_of kvs p of None \<Rightarrow> None | Some v \<Rightarrow> walk v ps)"
| "walk _ (p # ps) = None"

definition lookup_var :: "pyval \<Rightarrow> string \<Rightarrow> pyval option" where
  "lookup_var ctx name = walk ctx (split_on CHR ''.'' name)"

section \<open>Literals\<close>

datatype literal_error = NonFiniteLiteral

text \<open>
  \<open>_normalise_literal\<close>. A non-finite float would become \<open>Decimal('Infinity')\<close>, which is not a value
  of this model: it is reported as an error here, and \<open>validate_expression\<close> refuses such a literal
  before the condition is compiled.
\<close>

function normalise_literal :: "json \<Rightarrow> literal_error + pyval" where
  "normalise_literal JNull = Inr VNone"
| "normalise_literal (JBool b) = Inr (VBool b)"
| "normalise_literal (JStr s) = Inr (VStr s)"
| "normalise_literal (JDec d) = Inr (VNum d)"
| "normalise_literal (JInt n) = Inr (VNum (Dec n 0))"
| "normalise_literal (JFloat f) =
     (case f of FNum d \<Rightarrow> Inr (VNum d) | FNonFinite \<Rightarrow> Inl NonFiniteLiteral)"
| "normalise_literal (JList xs) =
     err_bind (err_map normalise_literal xs) (\<lambda>vs. Inr (VList vs))"
| "normalise_literal (JDict kvs) =
     err_bind (err_map (\<lambda>(k, x). err_bind (normalise_literal x) (\<lambda>v. Inr (k, v))) kvs)
       (\<lambda>kvs'. Inr (VDict kvs'))"
  by pat_completeness auto
termination
proof (relation "measure size", goal_cases)
  case (2 xs x)
  then have "size x \<le> size_list size xs" by (simp add: size_list_estimation')
  then show ?case by simp
next
  case (3 kvs z k x)
  then have "size_prod (\<lambda>_. 0) size (k, x) \<le> size_list (size_prod (\<lambda>_. 0) size) kvs"
    by (simp add: size_list_estimation')
  then show ?case by simp
qed simp

end
