(* ===== verification/Expressions.thy ===== *)
theory Expressions
  imports Py_Values
begin

text \<open>
  The rule condition language of \<open>app/rules.py\<close>: the variables a rule can read, the operators, the
  static checker \<open>validate_expression\<close> (run when a rule set is published and on every load) and the
  evaluator \<open>_evaluate\<close> (run for every transaction).
\<close>

section \<open>Types and variables\<close>

text \<open>
  \<open>ValueType\<close> and the list types that \<open>_list_of\<close> builds. In the source a type is the text shown in
  error messages; \<open>type_name\<close> is that text, and \<open>type_name_inj\<close> shows that comparing the texts is
  comparing these types. \<open>TList None\<close> is the type of the empty list.
\<close>

datatype vtype = TNumber | TText | TBoolean | TNull | TList "vtype option"

fun type_name :: "vtype \<Rightarrow> string" where
  "type_name TNumber = ''a number''"
| "type_name TText = ''text''"
| "type_name TBoolean = ''true/false''"
| "type_name TNull = ''null''"
| "type_name (TList None) = ''a list of anything''"
| "type_name (TList (Some t)) = ''a list of '' @ type_name t"

lemma type_name_not_anything: "type_name t \<noteq> ''anything''"
  by (cases t rule: type_name.cases) auto

lemma type_name_inj: "type_name s = type_name t \<longleftrightarrow> s = t"
proof (induction s arbitrary: t)
  case (TList e)
  then show ?case
    by (cases e; cases t rule: type_name.cases)
      (auto simp: type_name_not_anything type_name_not_anything [symmetric])
qed (case_tac t rule: type_name.cases; auto)+

record variable =
  var_type :: vtype
  required :: bool

definition VARIABLES :: "(string \<times> variable) list" where
  "VARIABLES =
     [(''amount'', \<lparr>var_type = TNumber, required = True\<rparr>),
      (''currency'', \<lparr>var_type = TText, required = True\<rparr>),
      (''category'', \<lparr>var_type = TText, required = True\<rparr>),
      (''velocity.prior_count'', \<lparr>var_type = TNumber, required = True\<rparr>),
      (''velocity.prior_amount'', \<lparr>var_type = TNumber, required = True\<rparr>),
      (''channel'', \<lparr>var_type = TText, required = False\<rparr>),
      (''country'', \<lparr>var_type = TText, required = False\<rparr>),
      (''enrichment.distance_from_last_tx_km'', \<lparr>var_type = TNumber, required = False\<rparr>),
      (''enrichment.minutes_since_last_tx'', \<lparr>var_type = TNumber, required = False\<rparr>),
      (''enrichment.user_historical_avg_spend'', \<lparr>var_type = TNumber, required = False\<rparr>),
      (''enrichment.is_new_merchant_for_user'', \<lparr>var_type = TBoolean, required = False\<rparr>),
      (''enrichment.is_travel_itinerary_active'', \<lparr>var_type = TBoolean, required = False\<rparr>)]"

section \<open>Operators\<close>

datatype operator =
    OpEq | OpNe | OpGt | OpGe | OpLt | OpLe | OpNot | OpIn | OpAdd | OpSub | OpMul | OpMin | OpMax
  | OpAnd | OpOr | OpIf | OpVar

text \<open>The keys of \<open>_OPERATORS\<close> and \<open>_LAZY_OPERATORS\<close>, with their minimum and maximum arity.\<close>

definition operator_table :: "(string \<times> operator) list" where
  "operator_table =
     [(''=='', OpEq), (''!='', OpNe), (''>'', OpGt), (''>='', OpGe), (''<'', OpLt), (''<='', OpLe),
      (''!'', OpNot), (''in'', OpIn), (''+'', OpAdd), (''-'', OpSub), (''*'', OpMul),
      (''min'', OpMin), (''max'', OpMax),
      (''and'', OpAnd), (''or'', OpOr), (''if'', OpIf), (''var'', OpVar)]"

definition parse_operator :: "string \<Rightarrow> operator option" where
  "parse_operator = map_of operator_table"

fun arity :: "operator \<Rightarrow> nat \<times> nat option" where
  "arity OpEq = (2, Some 2)"
| "arity OpNe = (2, Some 2)"
| "arity OpGt = (2, Some 2)"
| "arity OpGe = (2, Some 2)"
| "arity OpLt = (2, Some 3)"
| "arity OpLe = (2, Some 3)"
| "arity OpNot = (1, Some 1)"
| "arity OpIn = (2, Some 2)"
| "arity OpAdd = (1, None)"
| "arity OpSub = (1, Some 2)"
| "arity OpMul = (1, None)"
| "arity OpMin = (1, None)"
| "arity OpMax = (1, None)"
| "arity OpAnd = (1, None)"
| "arity OpOr = (1, None)"
| "arity OpIf = (3, Some 3)"
| "arity OpVar = (1, Some 2)"

definition arity_ok :: "operator \<Rightarrow> nat \<Rightarrow> bool" where
  "arity_ok op n \<longleftrightarrow> fst (arity op) \<le> n \<and> (case snd (arity op) of None \<Rightarrow> True | Some m \<Rightarrow> n \<le> m)"

text \<open>The exceptions an evaluation can raise. Only \<open>RuleEvaluationError\<close> is raised on purpose.\<close>

datatype eval_reason =
    ExpectsNumbers operator
  | BadMembership
  | VariableMissing string
  | ArithmeticFailed operator
  | InRule string eval_reason

datatype eval_error =
    RuleEvaluationError eval_reason
  | PyKeyError | PyTypeError | PyIndexError | PyValueError | PyAttributeError

fun to_decimal :: "operator \<Rightarrow> pyval \<Rightarrow> eval_error + decimal" where
  "to_decimal op (VNum d) = Inr d"
| "to_decimal op _ = Inl (RuleEvaluationError (ExpectsNumbers op))"

definition numbers :: "operator \<Rightarrow> pyval list \<Rightarrow> eval_error + decimal list" where
  "numbers op args = err_map (to_decimal op) args"

definition compare :: "operator \<Rightarrow> (decimal \<Rightarrow> decimal \<Rightarrow> bool) \<Rightarrow> pyval list \<Rightarrow> eval_error + pyval" where
  "compare op check args =
     err_bind (numbers op args)
       (\<lambda>vs. Inr (VBool (list_all (\<lambda>(left, right). check left right) (zip vs (tl vs)))))"

fun equals :: "pyval \<Rightarrow> pyval \<Rightarrow> bool" where
  "equals (VNum a) (VNum b) = dec_eq a b"
| "equals left right = py_eq left right"

fun membership :: "pyval \<Rightarrow> pyval \<Rightarrow> eval_error + bool" where
  "membership needle (VStr haystack) =
     Inr (case needle of VStr n \<Rightarrow> is_infix n haystack | _ \<Rightarrow> False)"
| "membership needle (VList items) = Inr (list_ex (equals needle) items)"
| "membership needle _ = Inl (RuleEvaluationError BadMembership)"

text \<open>\<open>except (InvalidOperation, ArithmeticError): raise RuleEvaluationError\<close>\<close>

definition arith :: "operator \<Rightarrow> dec_signal + decimal \<Rightarrow> eval_error + decimal" where
  "arith op r = (case r of Inl Overflow \<Rightarrow> Inl (RuleEvaluationError (ArithmeticFailed op)) | Inr d \<Rightarrow> Inr d)"

definition fold_sum :: "decimal list \<Rightarrow> dec_signal + decimal" where
  "fold_sum = err_fold dec_add (Dec 0 0)"

definition fold_product :: "decimal list \<Rightarrow> dec_signal + decimal" where
  "fold_product = err_fold dec_mul (Dec 1 0)"

fun subtract :: "pyval list \<Rightarrow> eval_error + decimal" where
  "subtract args =
     err_bind (numbers OpSub args)
       (\<lambda>vs. case vs of
          [] \<Rightarrow> Inl PyIndexError
        | [x] \<Rightarrow> arith OpSub (dec_neg x)
        | x # y # _ \<Rightarrow> arith OpSub (dec_sub x y))"

text \<open>\<open>min\<close> and \<open>max\<close> keep the first of equal values.\<close>

fun select :: "(decimal \<Rightarrow> decimal \<Rightarrow> bool) \<Rightarrow> decimal list \<Rightarrow> eval_error + decimal" where
  "select better [] = Inl PyValueError"
| "select better (x # xs) = Inr (foldl (\<lambda>best y. if better y best then y else best) x xs)"

text \<open>\<open>_OPERATORS[op][2](*args)\<close>; a lazy operator is not in \<open>_OPERATORS\<close>.\<close>

fun apply_operator :: "operator \<Rightarrow> pyval list \<Rightarrow> eval_error + pyval" where
  "apply_operator OpEq args =
     (case args of [l, r] \<Rightarrow> Inr (VBool (equals l r)) | _ \<Rightarrow> Inl PyTypeError)"
| "apply_operator OpNe args =
     (case args of [l, r] \<Rightarrow> Inr (VBool (\<not> equals l r)) | _ \<Rightarrow> Inl PyTypeError)"
| "apply_operator OpGt args = compare OpGt (\<lambda>l r. dec_less r l) args"
| "apply_operator OpGe args = compare OpGe (\<lambda>l r. dec_le r l) args"
| "apply_operator OpLt args = compare OpLt dec_less args"
| "apply_operator OpLe args = compare OpLe dec_le args"
| "apply_operator OpNot args =
     (case args of [v] \<Rightarrow> Inr (VBool (\<not> truthy v)) | _ \<Rightarrow> Inl PyTypeError)"
| "apply_operator OpIn args =
     (case args of
        [needle, haystack] \<Rightarrow> err_bind (membership needle haystack) (\<lambda>b. Inr (VBool b))
      | _ \<Rightarrow> Inl PyTypeError)"
| "apply_operator OpAdd args =
     err_bind (numbers OpAdd args) (\<lambda>vs. err_bind (arith OpAdd (fold_sum vs)) (\<lambda>d. Inr (VNum d)))"
| "apply_operator OpSub args = err_bind (subtract args) (\<lambda>d. Inr (VNum d))"
| "apply_operator OpMul args =
     err_bind (numbers OpMul args) (\<lambda>vs. err_bind (arith OpMul (fold_product vs)) (\<lambda>d. Inr (VNum d)))"
| "apply_operator OpMin args =
     err_bind (numbers OpMin args) (\<lambda>vs. err_bind (select dec_less vs) (\<lambda>d. Inr (VNum d)))"
| "apply_operator OpMax args =
     err_bind (numbers OpMax args)
       (\<lambda>vs. err_bind (select (\<lambda>y best. dec_less best y) vs) (\<lambda>d. Inr (VNum d)))"
| "apply_operator _ args = Inl PyKeyError"

section \<open>The evaluator\<close>

text \<open>\<open>_operator_args\<close>: a single argument may be written without its list.\<close>

fun operator_args :: "pyval \<Rightarrow> pyval list" where
  "operator_args (VList args) = args"
| "operator_args raw = [raw]"

lemma size_mem_list: "x \<in> set xs \<Longrightarrow> size x < Suc (size_list size xs)"
  by (induction xs) auto

lemma operator_args_size: "x \<in> set (operator_args v) \<Longrightarrow> size x \<le> size v"
  by (cases v rule: operator_args.cases) (auto dest: size_mem_list)

lemma operator_args_sizes: "xs = operator_args v \<Longrightarrow> list_all (\<lambda>x. size x \<le> size v) xs"
  by (auto simp: list_all_iff dest: operator_args_size)

function (sequential) evaluate :: "pyval \<Rightarrow> pyval \<Rightarrow> eval_error + pyval" where
  "evaluate (VList items) ctx =
     err_bind (err_map (\<lambda>x. evaluate x ctx) items) (\<lambda>vs. Inr (VList vs))"
| "evaluate (VDict [(name, raw)]) ctx =
     (let args = operator_args raw
      in case parse_operator name of
           Some OpVar \<Rightarrow>
             (case args of
                VStr n # rest \<Rightarrow>
                  (case lookup_var ctx n of
                     Some v \<Rightarrow> Inr v
                   | None \<Rightarrow>
                       (case rest of
                          [d] \<Rightarrow> evaluate d ctx
                        | _ \<Rightarrow> Inl (RuleEvaluationError (VariableMissing n))))
              | [] \<Rightarrow> Inl PyIndexError
              | _ \<Rightarrow> Inl PyAttributeError)
         | Some OpAnd \<Rightarrow>
             err_bind (err_all (\<lambda>x. err_bind (evaluate x ctx) (\<lambda>v. Inr (truthy v))) args)
               (\<lambda>b. Inr (VBool b))
         | Some OpOr \<Rightarrow>
             err_bind (err_any (\<lambda>x. err_bind (evaluate x ctx) (\<lambda>v. Inr (truthy v))) args)
               (\<lambda>b. Inr (VBool b))
         | Some OpIf \<Rightarrow>
             (case args of
                [condition, when_true, when_false] \<Rightarrow>
                  err_bind (evaluate condition ctx)
                    (\<lambda>c. if truthy c then evaluate when_true ctx else evaluate when_false ctx)
              | _ \<Rightarrow> Inl PyValueError)
         | Some op \<Rightarrow> err_bind (err_map (\<lambda>x. evaluate x ctx) args) (apply_operator op)
         | None \<Rightarrow> Inl PyKeyError)"
| "evaluate (VDict _) ctx = Inl PyValueError"
| "evaluate v ctx = Inr v"
  by pat_completeness auto
termination
proof (relation "measure (\<lambda>(v, ctx). size v)")
qed (auto simp: size_mem_list dest!: operator_args_size operator_args_sizes)

text \<open>The equation of an operation, one per kind of operator.\<close>

lemma evaluate_eager:
  "parse_operator name = Some op \<Longrightarrow> op \<notin> {OpVar, OpAnd, OpOr, OpIf} \<Longrightarrow>
     evaluate (VDict [(name, raw)]) ctx =
       err_bind (err_map (\<lambda>x. evaluate x ctx) (operator_args raw)) (apply_operator op)"
  by (cases op) (simp_all add: Let_def)

lemma evaluate_and:
  "parse_operator name = Some OpAnd \<Longrightarrow>
     evaluate (VDict [(name, raw)]) ctx =
       err_bind (err_all (\<lambda>x. err_bind (evaluate x ctx) (\<lambda>v. Inr (truthy v))) (operator_args raw))
         (\<lambda>b. Inr (VBool b))"
  by (simp add: Let_def)

lemma evaluate_or:
  "parse_operator name = Some OpOr \<Longrightarrow>
     evaluate (VDict [(name, raw)]) ctx =
       err_bind (err_any (\<lambda>x. err_bind (evaluate x ctx) (\<lambda>v. Inr (truthy v))) (operator_args raw))
         (\<lambda>b. Inr (VBool b))"
  by (simp add: Let_def)

lemma evaluate_if:
  "parse_operator name = Some OpIf \<Longrightarrow> operator_args raw = [a, b, c] \<Longrightarrow>
     evaluate (VDict [(name, raw)]) ctx =
       err_bind (evaluate a ctx) (\<lambda>v. if truthy v then evaluate b ctx else evaluate c ctx)"
  by (simp add: Let_def)

lemma evaluate_var:
  "parse_operator name = Some OpVar \<Longrightarrow> operator_args raw = VStr n # rest \<Longrightarrow>
     evaluate (VDict [(name, raw)]) ctx =
       (case lookup_var ctx n of
          Some v \<Rightarrow> Inr v
        | None \<Rightarrow> (case rest of [d] \<Rightarrow> evaluate d ctx
                         | _ \<Rightarrow> Inl (RuleEvaluationError (VariableMissing n))))"
  by (simp add: Let_def)

lemmas evaluate_ops = evaluate_eager evaluate_and evaluate_or evaluate_if evaluate_var

section \<open>The static checker\<close>

text \<open>Where an error is: list indices and operator arguments, from the root of the condition.\<close>

datatype path_step = AtIndex nat | AtArgument operator nat

type_synonym path = "path_step list"

datatype rule_error =
    TooManyNodes | TooDeep | MixedList | NotFinite | NotOneOperator
  | UnsupportedOperator string
  | WrongArity operator nat
  | UnknownVariable
  | NeedsDefault string
  | WrongDefault string vtype
  | WrongArgument operator vtype
  | BadIfCondition vtype
  | BadIfBranches vtype vtype
  | NeverEqual operator vtype vtype
  | NotTextInText vtype
  | NeverMember vtype vtype
  | NotAContainer vtype
  | NotACondition vtype

text \<open>\<open>InvalidRuleSetError\<close>, with its location and reason.\<close>

type_synonym invalid = "path \<times> rule_error"

definition MAX_EXPRESSION_DEPTH :: nat where "MAX_EXPRESSION_DEPTH = 24"
definition MAX_EXPRESSION_NODES :: nat where "MAX_EXPRESSION_NODES = 400"

fun json_args :: "json \<Rightarrow> json list" where
  "json_args (JList args) = args"
| "json_args raw = [raw]"

text \<open>The type of a literal that is neither a list nor an operation (\<open>_literal_type\<close>).\<close>

fun literal_type :: "json \<Rightarrow> vtype" where
  "literal_type JNull = TNull"
| "literal_type (JBool _) = TBoolean"
| "literal_type (JInt _) = TNumber"
| "literal_type (JFloat _) = TNumber"
| "literal_type (JDec _) = TNumber"
| "literal_type _ = TText"

fun literal_finite :: "json \<Rightarrow> bool" where
  "literal_finite (JFloat FNonFinite) = False"
| "literal_finite _ = True"

text \<open>\<open>require(expected, purpose)\<close>: the first argument of another type is reported.\<close>

fun require :: "operator \<Rightarrow> path \<Rightarrow> vtype \<Rightarrow> nat \<Rightarrow> vtype list \<Rightarrow> invalid + unit" where
  "require op loc expected i [] = Inr ()"
| "require op loc expected i (actual # ts) =
     (if actual \<noteq> expected then Inl (loc @ [AtArgument op i], WrongArgument op actual)
      else require op loc expected (Suc i) ts)"

text \<open>The type an operation produces from the types of its arguments, whose number is right.\<close>

fun result_type :: "operator \<Rightarrow> path \<Rightarrow> vtype list \<Rightarrow> invalid + vtype" where
  "result_type op loc types =
     (if op \<in> {OpGt, OpGe, OpLt, OpLe, OpAdd, OpSub, OpMul, OpMin, OpMax} then
        err_bind (require op loc TNumber 0 types)
          (\<lambda>_. Inr (if op \<in> {OpGt, OpGe, OpLt, OpLe} then TBoolean else TNumber))
      else if op \<in> {OpAnd, OpOr, OpNot} then
        err_bind (require op loc TBoolean 0 types) (\<lambda>_. Inr TBoolean)
      else if op = OpIf then
        (let condition = types ! 0; when_true = types ! 1; when_false = types ! 2
         in if condition \<noteq> TBoolean then Inl (loc @ [AtArgument OpIf 0], BadIfCondition condition)
            else if when_true \<noteq> when_false then Inl (loc, BadIfBranches when_true when_false)
            else Inr when_true)
      else if op \<in> {OpEq, OpNe} then
        (let left = types ! 0; right = types ! 1
         in if left \<noteq> right \<and> left \<noteq> TNull \<and> right \<noteq> TNull
            then Inl (loc, NeverEqual op left right) else Inr TBoolean)
      else
        (let needle = types ! 0; haystack = types ! 1
         in case haystack of
              TText \<Rightarrow> if needle \<noteq> TText then Inl (loc, NotTextInText needle) else Inr TBoolean
            | TList element \<Rightarrow>
                (case element of
                   None \<Rightarrow> Inr TBoolean
                 | Some e \<Rightarrow>
                     if e \<noteq> needle then Inl (loc, NeverMember needle haystack) else Inr TBoolean)
            | _ \<Rightarrow> Inl (loc @ [AtArgument OpIn 1], NotAContainer haystack)))"

lemma json_args_size: "x \<in> set (json_args v) \<Longrightarrow> size x \<le> size v"
  by (cases v rule: json_args.cases) (auto dest: size_mem_list)

lemma json_args_nth: "i < length (json_args v) \<Longrightarrow> size (json_args v ! i) < Suc (Suc (Suc (size v)))"
  using json_args_size [OF nth_mem] by (fastforce simp: less_Suc_eq_le)

lemma json_args_sizes: "xs = json_args v \<Longrightarrow> list_all (\<lambda>x. size x \<le> size v) xs"
  by (auto simp: list_all_iff dest: json_args_size)

text \<open>
  \<open>visit\<close> and \<open>check_variable\<close>: check one node, count it, and return its type. The counter is
  threaded as the source's \<open>nonlocal node_count\<close> is, so the limit covers the whole condition.
\<close>

function (sequential) visit :: "json \<Rightarrow> path \<Rightarrow> nat \<Rightarrow> nat \<Rightarrow> invalid + vtype \<times> nat" where
  "visit (JList items) loc depth count =
     (if count + 1 > MAX_EXPRESSION_NODES then Inl ([], TooManyNodes)
      else if depth > MAX_EXPRESSION_DEPTH then Inl (loc, TooDeep)
      else err_bind
             (err_map_st (\<lambda>(i, x) c. visit x (loc @ [AtIndex i]) (depth + 1) c)
               (enumerate 0 items) (count + 1))
             (\<lambda>(types, c).
                case remdups types of
                  [] \<Rightarrow> Inr (TList None, c)
                | [t] \<Rightarrow> Inr (TList (Some t), c)
                | _ \<Rightarrow> Inl (loc, MixedList)))"
| "visit (JDict [(name, raw)]) loc depth count =
     (if count + 1 > MAX_EXPRESSION_NODES then Inl ([], TooManyNodes)
      else if depth > MAX_EXPRESSION_DEPTH then Inl (loc, TooDeep)
      else
        (let args = json_args raw
         in case parse_operator name of
              None \<Rightarrow> Inl (loc, UnsupportedOperator name)
            | Some op \<Rightarrow>
                if \<not> arity_ok op (length args) then Inl (loc, WrongArity op (length args))
                else if op = OpVar then
                  (case args of
                     JStr n # rest \<Rightarrow>
                       (case map_of VARIABLES n of
                          None \<Rightarrow> Inl (loc, UnknownVariable)
                        | Some var \<Rightarrow>
                            (case rest of
                               [] \<Rightarrow> if required var then Inr (var_type var, count + 1)
                                    else Inl (loc, NeedsDefault n)
                             | d # _ \<Rightarrow>
                                 err_bind
                                   (visit d (loc @ [AtArgument OpVar 1]) (depth + 1) (count + 1))
                                   (\<lambda>(t, c).
                                      if t \<noteq> var_type var then Inl (loc, WrongDefault n t)
                                      else Inr (var_type var, c))))
                   | _ \<Rightarrow> Inl (loc, UnknownVariable))
                else
                  err_bind
                    (err_map_st (\<lambda>(i, x) c. visit x (loc @ [AtArgument op i]) (depth + 1) c)
                      (enumerate 0 args) (count + 1))
                    (\<lambda>(types, c). err_bind (result_type op loc types) (\<lambda>t. Inr (t, c)))))"
| "visit (JDict _) loc depth count =
     (if count + 1 > MAX_EXPRESSION_NODES then Inl ([], TooManyNodes)
      else if depth > MAX_EXPRESSION_DEPTH then Inl (loc, TooDeep)
      else Inl (loc, NotOneOperator))"
| "visit literal loc depth count =
     (if count + 1 > MAX_EXPRESSION_NODES then Inl ([], TooManyNodes)
      else if depth > MAX_EXPRESSION_DEPTH then Inl (loc, TooDeep)
      else if \<not> literal_finite literal then Inl (loc, NotFinite)
      else Inr (literal_type literal, count + 1))"
  by pat_completeness auto
termination
proof (relation "measure (\<lambda>(v, _). size v)")
qed (auto simp: size_mem_list in_set_enumerate_eq json_args_nth dest!: json_args_sizes)

definition validate_expression :: "json \<Rightarrow> invalid + unit" where
  "validate_expression expression =
     err_bind (visit expression [] 1 0)
       (\<lambda>(result, _).
          if result \<noteq> TBoolean then Inl ([], NotACondition result) else Inr ())"

end
