(* ===== verification/Expression_Safety.thy ===== *)
theory Expression_Safety
  imports Expressions
begin

text \<open>
  Type soundness of the rule language: a condition that \<open>validate_expression\<close> accepts compiles, and
  its evaluation against any well-typed context yields a boolean; the only error left is a
  \<open>RuleEvaluationError\<close> for a decimal overflow. \<open>bounded\<close> then rules the overflow out for
  conditions and contexts whose numbers are below \<open>10 ^ 2499\<close>.
\<close>

section \<open>Typed values and contexts\<close>

fun has_type :: "pyval \<Rightarrow> vtype \<Rightarrow> bool" where
  "has_type (VNum _) t = (t = TNumber)"
| "has_type (VStr _) t = (t = TText)"
| "has_type (VBool _) t = (t = TBoolean)"
| "has_type VNone t = (t = TNull)"
| "has_type (VList vs) t =
     (case t of
        TList None \<Rightarrow> vs = []
      | TList (Some e) \<Rightarrow> vs \<noteq> [] \<and> list_all (\<lambda>v. has_type v e) vs
      | _ \<Rightarrow> False)"
| "has_type (VDict _) t = False"

lemma has_type_number [simp]: "has_type v TNumber \<longleftrightarrow> (\<exists>d. v = VNum d)"
  by (cases v) auto

lemma has_type_text [simp]: "has_type v TText \<longleftrightarrow> (\<exists>s. v = VStr s)"
  by (cases v) auto

lemma has_type_boolean [simp]: "has_type v TBoolean \<longleftrightarrow> (\<exists>b. v = VBool b)"
  by (cases v) auto

lemma has_type_list [simp]: "has_type v (TList e) \<Longrightarrow> \<exists>vs. v = VList vs"
  by (cases v) auto

text \<open>
  What \<open>EvaluationContext.as_variables\<close> guarantees: every variable that is present has its declared
  type, and the required ones are present.
\<close>

definition ctx_ok :: "pyval \<Rightarrow> bool" where
  "ctx_ok ctx \<longleftrightarrow>
     list_all (\<lambda>(n, var). case lookup_var ctx n of
                  None \<Rightarrow> \<not> required var
                | Some v \<Rightarrow> has_type v (var_type var)) VARIABLES"

lemma ctx_okD:
  assumes "ctx_ok ctx" "map_of VARIABLES n = Some var"
  shows "case lookup_var ctx n of None \<Rightarrow> \<not> required var | Some v \<Rightarrow> has_type v (var_type var)"
  using assms map_of_SomeD [OF assms(2)] by (auto simp: ctx_ok_def list_all_iff)

definition outcome_ok :: "vtype \<Rightarrow> eval_error + pyval \<Rightarrow> bool" where
  "outcome_ok t r \<longleftrightarrow>
     (case r of Inr v \<Rightarrow> has_type v t
      | Inl e \<Rightarrow> \<exists>op. e = RuleEvaluationError (ArithmeticFailed op))"

lemma outcome_ok_Inr [simp]: "outcome_ok t (Inr v) \<longleftrightarrow> has_type v t"
  by (simp add: outcome_ok_def)

lemma outcome_ok_Inl [simp]:
  "outcome_ok t (Inl e) \<longleftrightarrow> (\<exists>op. e = RuleEvaluationError (ArithmeticFailed op))"
  by (simp add: outcome_ok_def)

section \<open>Lists of results\<close>

lemma list_all2_ex_split:
  assumes "list_all2 (\<lambda>x z. \<exists>y. P x y \<and> Q y z) xs zs"
  obtains ys where "list_all2 P xs ys" "list_all2 Q ys zs"
proof -
  from assms have "\<exists>ys. list_all2 P xs ys \<and> list_all2 Q ys zs"
  proof (induction rule: list_all2_induct)
    case (Cons x xs z zs)
    then obtain y ys where "P x y" "Q y z" "list_all2 P xs ys" "list_all2 Q ys zs" by blast
    then show ?case by (intro exI [of _ "y # ys"]) simp
  qed simp
  with that show ?thesis by blast
qed

lemma err_map_st_list_all2:
  "err_map_st f xs s = Inr (ys, s') \<Longrightarrow> list_all2 (\<lambda>x y. \<exists>s s'. f x s = Inr (y, s')) xs ys"
  by (induction xs arbitrary: s ys) (fastforce simp: list_all2_Cons1)+

lemma list_all2_enumerate:
  "list_all2 P (enumerate k xs) ys \<longleftrightarrow>
     length ys = length xs \<and> (\<forall>i < length xs. P (k + i, xs ! i) (ys ! i))"
  by (auto simp: list_all2_conv_all_nth nth_enumerate_eq)

lemma visit_children:
  assumes "err_map_st (\<lambda>(i, x) c. visit x (f i) d c) (enumerate 0 xs) s = Inr (ts, s')"
    and "\<And>i x c t c'. (i, x) \<in> set (enumerate 0 xs) \<Longrightarrow> visit x (f i) d c = Inr (t, c') \<Longrightarrow> P x t"
  shows "list_all2 P xs ts"
proof -
  from err_map_st_list_all2 [OF assms(1)] have len: "length ts = length xs"
    and nth: "\<forall>i < length xs. \<exists>c c'. visit (xs ! i) (f i) d c = Inr (ts ! i, c')"
    by (auto simp: list_all2_enumerate)
  show ?thesis
  proof (rule list_all2_all_nthI)
    fix i assume "i < length xs"
    moreover from this have "(i, xs ! i) \<in> set (enumerate 0 xs)" by (simp add: in_set_enumerate_eq)
    ultimately show "P (xs ! i) (ts ! i)" using nth assms(2) by blast
  qed (simp add: len)
qed

lemma outcomes_list:
  assumes "list_all2 (\<lambda>x t. outcome_ok t (f x)) xs ts"
  shows "(\<exists>vs. err_map f xs = Inr vs \<and> list_all2 has_type vs ts) \<or>
         (\<exists>op. err_map f xs = Inl (RuleEvaluationError (ArithmeticFailed op)))"
  using assms
proof (induction rule: list_all2_induct)
  case (Cons x xs t ts)
  then show ?case by (cases "f x") auto
qed simp

lemma outcomes_bool:
  assumes "\<And>x. x \<in> set xs \<Longrightarrow> outcome_ok TBoolean (f x)"
  shows "outcome_ok TBoolean (err_bind (err_all (\<lambda>x. err_bind (f x) (\<lambda>v. Inr (truthy v))) xs) (\<lambda>b. Inr (VBool b)))"
    and "outcome_ok TBoolean (err_bind (err_any (\<lambda>x. err_bind (f x) (\<lambda>v. Inr (truthy v))) xs) (\<lambda>b. Inr (VBool b)))"
proof -
  define g :: "'a \<Rightarrow> eval_error + bool" where "g x = err_bind (f x) (\<lambda>v. Inr (truthy v))" for x
  have one: "(\<exists>b. g x = Inr b) \<or> (\<exists>e. g x = Inl e \<and> (\<exists>op. e = RuleEvaluationError (ArithmeticFailed op)))"
    if "x \<in> set xs" for x
    using assms [OF that] by (cases "f x") (auto simp: g_def)
  from err_all_cases [where f = g and xs = xs, OF one] show "outcome_ok TBoolean (err_bind (err_all
      (\<lambda>x. err_bind (f x) (\<lambda>v. Inr (truthy v))) xs) (\<lambda>b. Inr (VBool b)))"
    by (auto simp: g_def [abs_def])
  from err_any_cases [where f = g and xs = xs, OF one] show "outcome_ok TBoolean (err_bind (err_any
      (\<lambda>x. err_bind (f x) (\<lambda>v. Inr (truthy v))) xs) (\<lambda>b. Inr (VBool b)))"
    by (auto simp: g_def [abs_def])
qed

section \<open>The eager operators respect their types\<close>

lemma numbers_map [simp]: "numbers op (map VNum ds) = Inr ds"
  by (induction ds) (auto simp: numbers_def)

lemma typed_numbers: "list_all (\<lambda>v. has_type v TNumber) vs \<Longrightarrow> \<exists>ds. vs = map VNum ds"
  by (induction vs) (auto, metis list.simps(9))

lemma require_all: "require op loc t i ts = Inr u \<Longrightarrow> ts = replicate (length ts) t"
  by (induction ts arbitrary: i) (auto split: if_splits)

lemma typed_replicate:
  "list_all2 has_type vs (replicate n t) \<Longrightarrow> list_all (\<lambda>v. has_type v t) vs \<and> length vs = n"
  by (auto simp: list_all2_conv_all_nth list_all_length)

lemma arith_outcome:
  "outcome_ok TNumber (err_bind (arith op r) (\<lambda>d. Inr (VNum d)))"
  by (cases r) (auto simp: arith_def split: dec_signal.splits)

lemma select_nonempty: "xs \<noteq> [] \<Longrightarrow> \<exists>d. select f xs = Inr d"
  by (cases xs) auto

lemma eager_number_operators:
  assumes "op \<in> {OpGt, OpGe, OpLt, OpLe, OpAdd, OpSub, OpMul, OpMin, OpMax}"
    and "list_all (\<lambda>v. has_type v TNumber) vs" and "vs \<noteq> []"
  shows "outcome_ok (if op \<in> {OpGt, OpGe, OpLt, OpLe} then TBoolean else TNumber) (apply_operator op vs)"
proof -
  obtain ds where vs: "vs = map VNum ds" using typed_numbers [OF assms(2)] by blast
  with assms(3) have ne: "ds \<noteq> []" by simp
  have ds: "numbers op' vs = Inr ds" for op' by (simp add: vs)
  have sub: "outcome_ok TNumber (err_bind (subtract vs) (\<lambda>d. Inr (VNum d)))"
    using ne by (cases ds rule: list.exhaust; cases "tl ds") (auto simp: ds(1) arith_outcome)
  have sel: "outcome_ok TNumber (err_bind (select f ds) (\<lambda>d. Inr (VNum d)))" for f
    using select_nonempty [OF ne, of f] by auto
  from assms(1) show ?thesis
    by (auto simp: compare_def ds(1) arith_outcome sub sel simp del: subtract.simps)
qed

lemma length2: "length xs = 2 \<Longrightarrow> \<exists>a b. xs = [a, b]"
  by (cases xs; cases "tl xs") auto

lemma length3: "length xs = 3 \<Longrightarrow> \<exists>a b c. xs = [a, b, c]"
  by (auto simp: numeral_3_eq_3 length_Suc_conv)

lemma result_type_sound:
  assumes rt: "result_type op loc ts = Inr t" and ar: "arity_ok op (length ts)"
    and ty: "list_all2 has_type vs ts" and eager: "op \<notin> {OpAnd, OpOr, OpIf, OpVar}"
  shows "outcome_ok t (apply_operator op vs)"
proof -
  have len: "length vs = length ts" using ty by (rule list_all2_lengthD)
  consider (num) "op \<in> {OpGt, OpGe, OpLt, OpLe, OpAdd, OpSub, OpMul, OpMin, OpMax}"
    | (neg) "op = OpNot" | (eq) "op \<in> {OpEq, OpNe}" | (mem) "op = OpIn"
    using eager by (cases op) auto
  then show ?thesis
  proof cases
    case num
    then obtain u where u: "require op loc TNumber 0 ts = Inr u"
      and t: "t = (if op \<in> {OpGt, OpGe, OpLt, OpLe} then TBoolean else TNumber)"
      using rt by (auto split: if_splits)
    from u have "ts = replicate (length ts) TNumber" by (rule require_all)
    with ty have "list_all (\<lambda>v. has_type v TNumber) vs" by (metis typed_replicate)
    moreover have "vs \<noteq> []" using num ar len by (auto simp: arity_ok_def)
    ultimately show ?thesis unfolding t using num by (intro eager_number_operators) auto
  next
    case neg
    with ar len have "length vs = 1" by (auto simp: arity_ok_def)
    then have "\<exists>v. vs = [v]" by (cases vs) auto
    with neg rt show ?thesis by auto
  next
    case eq
    with ar len have "length vs = 2" by (auto simp: arity_ok_def)
    from length2 [OF this] obtain l r where "vs = [l, r]" by blast
    with eq rt show ?thesis by (auto simp: Let_def split: if_splits)
  next
    case mem
    with ar have "length ts = 2" by (auto simp: arity_ok_def)
    then obtain a b where ts: "ts = [a, b]" using length2 by blast
    with ty obtain l r where vs: "vs = [l, r]" and r: "has_type r b"
      by (auto simp: list_all2_Cons2)
    from mem rt ts have "t = TBoolean" and "b = TText \<or> (\<exists>e. b = TList e)"
      by (auto simp: Let_def split: vtype.splits option.splits if_splits)
    with r vs mem show ?thesis by (auto dest!: has_type_list)
  qed
qed

section \<open>Compiling a checked condition\<close>

declare result_type.simps [simp del] apply_operator.simps [simp del] evaluate.simps(2) [simp del]

lemma normalise_args:
  assumes "err_map normalise_literal (json_args raw) = Inr cs"
  shows "\<exists>r. normalise_literal raw = Inr r \<and> operator_args r = cs"
proof (cases raw)
  case (JFloat f)
  with assms show ?thesis by (cases f) auto
next
  case (JDict kvs)
  with assms obtain r where r: "normalise_literal raw = Inr r" "cs = [r]" by auto
  with JDict have "\<exists>kvs'. r = VDict kvs'" by auto
  with r show ?thesis by auto
qed (use assms in auto)

lemma normalise_dict:
  "normalise_literal raw = Inr r \<Longrightarrow> normalise_literal (JDict [(name, raw)]) = Inr (VDict [(name, r)])"
  by simp

text \<open>What is to be shown of a checked node.\<close>

definition sound :: "json \<Rightarrow> vtype \<Rightarrow> bool" where
  "sound j t \<longleftrightarrow>
     (\<exists>c. normalise_literal j = Inr c \<and> (\<forall>ctx. ctx_ok ctx \<longrightarrow> outcome_ok t (evaluate c ctx)))"

lemma sound_children:
  assumes "list_all2 sound xs ts"
  obtains cs where "err_map normalise_literal xs = Inr cs"
    and "\<And>ctx. ctx_ok ctx \<Longrightarrow> list_all2 (\<lambda>c t. outcome_ok t (evaluate c ctx)) cs ts"
proof -
  from assms have "list_all2 (\<lambda>x t. \<exists>c. normalise_literal x = Inr c \<and>
      (\<forall>ctx. ctx_ok ctx \<longrightarrow> outcome_ok t (evaluate c ctx))) xs ts"
    by (simp add: sound_def [abs_def])
  then obtain cs where "list_all2 (\<lambda>x c. normalise_literal x = Inr c) xs cs"
    and "list_all2 (\<lambda>c t. \<forall>ctx. ctx_ok ctx \<longrightarrow> outcome_ok t (evaluate c ctx)) cs ts"
    by (rule list_all2_ex_split)
  then show ?thesis
    by (intro that [of cs]) (auto simp: err_map_Inr_list_all2 elim: list_all2_mono)
qed

lemma remdups_single: "remdups ts = [t] \<Longrightarrow> ts \<noteq> [] \<and> (\<forall>x \<in> set ts. x = t)"
  by (metis empty_iff insertE list.set(1) list.simps(15) remdups.simps(1) set_remdups list.distinct(1))

lemma sound_list:
  assumes "list_all2 sound xs ts"
    and t: "remdups ts = [] \<and> t = TList None \<or> (\<exists>e. remdups ts = [e] \<and> t = TList (Some e))"
  shows "sound (JList xs) t"
proof -
  from assms(1) obtain cs where cs: "err_map normalise_literal xs = Inr cs"
    and out: "\<And>ctx. ctx_ok ctx \<Longrightarrow> list_all2 (\<lambda>c t. outcome_ok t (evaluate c ctx)) cs ts"
    by (rule sound_children) blast
  have "outcome_ok t (evaluate (VList cs) ctx)" if "ctx_ok ctx" for ctx
  proof -
    have ty: "has_type (VList vs) t" if "list_all2 has_type vs ts" for vs
    proof (cases "ts = []")
      case True
      with t that show ?thesis by auto
    next
      case False
      with t obtain e where e: "remdups ts = [e]" "t = TList (Some e)" by auto
      from remdups_single [OF e(1)] that have "\<forall>v \<in> set vs. has_type v e"
        by (metis in_set_conv_nth list_all2_conv_all_nth)
      moreover from that False have "vs \<noteq> []" by auto
      ultimately show ?thesis by (simp add: e(2) list_all_iff)
    qed
    from outcomes_list [OF out [OF that]] show ?thesis using ty by auto
  qed
  with cs show ?thesis by (simp add: sound_def)
qed

lemma sound_operation:
  assumes p: "parse_operator name = Some op" and ar: "arity_ok op (length ts)" and nv: "op \<noteq> OpVar"
    and rt: "result_type op loc ts = Inr t" and ch: "list_all2 sound (json_args raw) ts"
  shows "sound (JDict [(name, raw)]) t"
proof -
  from ch obtain cs where cs: "err_map normalise_literal (json_args raw) = Inr cs"
    and out: "\<And>ctx. ctx_ok ctx \<Longrightarrow> list_all2 (\<lambda>c t. outcome_ok t (evaluate c ctx)) cs ts"
    by (rule sound_children) blast
  from normalise_args [OF cs] obtain r where r: "normalise_literal raw = Inr r" "operator_args r = cs"
    by blast
  have "outcome_ok t (evaluate (VDict [(name, r)]) ctx)" if ctx: "ctx_ok ctx" for ctx
  proof -
    note o = out [OF ctx]
    have len: "length cs = length ts" using o by (rule list_all2_lengthD)
    consider (eager) "op \<notin> {OpVar, OpAnd, OpOr, OpIf}" | (logic) "op \<in> {OpAnd, OpOr}" | (cond) "op = OpIf"
      using nv by auto
    then show ?thesis
    proof cases
      case eager
      then have "evaluate (VDict [(name, r)]) ctx =
          err_bind (err_map (\<lambda>x. evaluate x ctx) cs) (apply_operator op)"
        using evaluate_eager [OF p, of r ctx] r(2) by simp
      moreover have "outcome_ok t (apply_operator op vs)" if "list_all2 has_type vs ts" for vs
        using rt ar that by (rule result_type_sound) (use eager in blast)
      ultimately show ?thesis
        using outcomes_list [OF o] by (elim disjE exE conjE) simp_all
    next
      case logic
      have t: "t = TBoolean" and req: "require op loc TBoolean 0 ts = Inr ()"
        using logic rt by (auto simp: result_type.simps)
      from require_all [OF req] o
      have "\<And>c. c \<in> set cs \<Longrightarrow> outcome_ok TBoolean (evaluate c ctx)"
        by (metis (mono_tags, lifting) in_set_conv_nth list_all2_conv_all_nth nth_replicate)
      from outcomes_bool [OF this] show ?thesis
        using logic p by (elim insertE) (simp_all only: evaluate_and evaluate_or r(2) t empty_iff)
    next
      case cond
      with ar len have "length cs = 3" by (auto simp: arity_ok_def)
      from length3 [OF this] obtain a b d where abd: "cs = [a, b, d]" by blast
      with o obtain ta tb td where ts: "ts = [ta, tb, td]" and o3: "outcome_ok ta (evaluate a ctx)"
          "outcome_ok tb (evaluate b ctx)" "outcome_ok td (evaluate d ctx)"
        by (auto simp: list_all2_Cons1)
      have "ta = TBoolean" "tb = t" "td = t"
        using rt cond ts by (auto simp: result_type.simps Let_def split: if_splits)
      with o3 have oab: "outcome_ok TBoolean (evaluate a ctx)"
        "outcome_ok t (evaluate b ctx)" "outcome_ok t (evaluate d ctx)"
        by simp_all
      from cond p have p': "parse_operator name = Some OpIf" by simp
      show ?thesis
        using oab by (cases "evaluate a ctx")
          (auto simp: evaluate_if [OF p' r(2) [unfolded abd]])
    qed
  qed
  with r show ?thesis by (auto simp: sound_def normalise_dict simp del: normalise_literal.simps)
qed

lemma sound_variable:
  assumes p: "parse_operator name = Some OpVar" and args: "json_args raw = JStr n # rest"
    and v: "map_of VARIABLES n = Some var"
    and rest: "rest = [] \<and> required var \<or> (\<exists>d. rest = [d] \<and> sound d (var_type var))"
  shows "sound (JDict [(name, raw)]) (var_type var)"
proof -
  have "\<exists>cs. err_map normalise_literal rest = Inr cs \<and>
      (cs = [] \<and> required var \<or>
       (\<exists>c. cs = [c] \<and> (\<forall>ctx. ctx_ok ctx \<longrightarrow> outcome_ok (var_type var) (evaluate c ctx))))"
    using rest by (auto simp: sound_def)
  then obtain cs where cs: "err_map normalise_literal (json_args raw) = Inr (VStr n # cs)"
    and cases: "cs = [] \<and> required var \<or>
       (\<exists>c. cs = [c] \<and> (\<forall>ctx. ctx_ok ctx \<longrightarrow> outcome_ok (var_type var) (evaluate c ctx)))"
    using args by auto
  from normalise_args [OF cs] obtain r where
    r: "normalise_literal raw = Inr r" "operator_args r = VStr n # cs" by blast
  have "outcome_ok (var_type var) (evaluate (VDict [(name, r)]) ctx)" if ctx: "ctx_ok ctx" for ctx
    using ctx_okD [OF ctx v] cases ctx
    by (auto simp: evaluate_var [OF p r(2)] split: option.splits)
  with r show ?thesis by (auto simp: sound_def normalise_dict simp del: normalise_literal.simps)
qed

text \<open>The ways \<open>visit\<close> can accept a list, a variable or another operation.\<close>

lemma visit_list_cases:
  assumes "visit (JList items) loc depth count = Inr (t, count')"
  obtains ts where "\<not> MAX_EXPRESSION_NODES < count + 1" "\<not> MAX_EXPRESSION_DEPTH < depth"
    and "err_map_st (\<lambda>(i, x) c. visit x (loc @ [AtIndex i]) (depth + 1) c)
           (enumerate 0 items) (count + 1) = Inr (ts, count')"
    and "remdups ts = [] \<and> t = TList None \<or> (\<exists>e. remdups ts = [e] \<and> t = TList (Some e))"
proof -
  from assms have lim: "\<not> MAX_EXPRESSION_NODES < count + 1" "\<not> MAX_EXPRESSION_DEPTH < depth"
    by (auto split: if_splits)
  with assms obtain ts c where st: "err_map_st (\<lambda>(i, x) c. visit x (loc @ [AtIndex i]) (depth + 1) c)
      (enumerate 0 items) (count + 1) = Inr (ts, c)"
    and res: "(case remdups ts of [] \<Rightarrow> Inr (TList None, c) | [t] \<Rightarrow> Inr (TList (Some t), c)
      | _ \<Rightarrow> Inl (loc, MixedList)) = (Inr (t, count') :: invalid + vtype \<times> nat)"
    by auto
  from res have "c = count'" and "remdups ts = [] \<and> t = TList None \<or> (\<exists>e. remdups ts = [e] \<and> t = TList (Some e))"
    by (cases "remdups ts"; cases "tl (remdups ts)"; force)+
  with that lim st show ?thesis by blast
qed

lemma visit_op_cases:
  assumes "visit (JDict [(name, raw)]) loc depth count = Inr (t, count')"
  obtains op where "\<not> MAX_EXPRESSION_NODES < count + 1" "\<not> MAX_EXPRESSION_DEPTH < depth"
    and "parse_operator name = Some op" "\<not> \<not> arity_ok op (length (json_args raw))"
    and "op \<noteq> OpVar \<longrightarrow> (\<exists>ts. err_map_st (\<lambda>(i, x) c. visit x (loc @ [AtArgument op i]) (depth + 1) c)
           (enumerate 0 (json_args raw)) (count + 1) = Inr (ts, count') \<and> result_type op loc ts = Inr t)"
proof -
  from assms have lim: "\<not> MAX_EXPRESSION_NODES < count + 1" "\<not> MAX_EXPRESSION_DEPTH < depth"
    by (auto split: if_splits)
  from assms obtain op where p: "parse_operator name = Some op"
    and ar: "arity_ok op (length (json_args raw))"
    by (auto simp: Let_def split: if_splits option.splits)
  from assms p ar lim have "op \<noteq> OpVar \<longrightarrow> (\<exists>ts. err_map_st
      (\<lambda>(i, x) c. visit x (loc @ [AtArgument op i]) (depth + 1) c)
        (enumerate 0 (json_args raw)) (count + 1) = Inr (ts, count') \<and> result_type op loc ts = Inr t)"
    by (auto simp: Let_def)
  with that lim p ar show ?thesis by blast
qed

lemma visit_var_cases:
  assumes acc: "visit (JDict [(name, raw)]) loc depth count = Inr (t, count')"
    and p: "parse_operator name = Some OpVar"
  obtains n var where "map_of VARIABLES n = Some var" "t = var_type var"
      "json_args raw = [JStr n]" "required var" "count' = count + 1"
  | n var d where "map_of VARIABLES n = Some var" "t = var_type var" "json_args raw = [JStr n, d]"
      "visit d (loc @ [AtArgument OpVar 1]) (depth + 1) (count + 1) = Inr (var_type var, count')"
proof -
  from acc have lim: "\<not> MAX_EXPRESSION_NODES < count + 1" "\<not> MAX_EXPRESSION_DEPTH < depth"
    by (auto split: if_splits)
  from acc p lim have ar: "arity_ok OpVar (length (json_args raw))"
    by (auto simp: Let_def split: if_splits)
  with acc p lim obtain n rest var where args: "json_args raw = JStr n # rest"
    and v: "map_of VARIABLES n = Some var"
    by (auto simp: Let_def split: list.splits json.splits option.splits if_splits)
  show ?thesis
  proof (cases rest)
    case Nil
    with acc p lim ar args v that(1) show ?thesis by (auto split: if_splits)
  next
    case (Cons d ds)
    with ar args have ds: "ds = []" by (simp add: arity_ok_def)
    have "visit (JDict [(name, raw)]) loc depth count =
        err_bind (visit d (loc @ [AtArgument OpVar 1]) (depth + 1) (count + 1))
          (\<lambda>(t, c). if t \<noteq> var_type var then Inl (loc, WrongDefault n t) else Inr (var_type var, c))"
      using lim ar by (simp only: visit.simps Let_def p args v Cons if_False if_True
          option.case list.case json.case simp_thms)
    with acc have "t = var_type var"
      "visit d (loc @ [AtArgument OpVar 1]) (depth + 1) (count + 1) = Inr (var_type var, count')"
      by (auto simp only: err_bind_Inr_iff split: prod.splits if_splits)
    with that(2) args v Cons ds show ?thesis by blast
  qed
qed

text \<open>Type soundness, by induction over the checker's own recursion.\<close>

lemma visit_sound: "visit j loc depth count = Inr (t, count') \<Longrightarrow> sound j t"
proof (induction j loc depth count arbitrary: t count' rule: visit.induct)
  case (1 items loc depth count)
  from 1(2) obtain ts where lim: "\<not> MAX_EXPRESSION_NODES < count + 1" "\<not> MAX_EXPRESSION_DEPTH < depth"
    and st: "err_map_st (\<lambda>(i, x) c. visit x (loc @ [AtIndex i]) (depth + 1) c)
      (enumerate 0 items) (count + 1) = Inr (ts, count')"
    and res: "remdups ts = [] \<and> t = TList None \<or> (\<exists>e. remdups ts = [e] \<and> t = TList (Some e))"
    by (rule visit_list_cases)
  have "list_all2 sound items ts"
    using st by (rule visit_children) (use 1(1) lim in blast)
  then show ?case using res by (rule sound_list)
next
  case (2 name raw loc depth count)
  from 2(3) obtain op where lim: "\<not> MAX_EXPRESSION_NODES < count + 1" "\<not> MAX_EXPRESSION_DEPTH < depth"
    and p: "parse_operator name = Some op" and ar: "\<not> \<not> arity_ok op (length (json_args raw))"
    and operation: "op \<noteq> OpVar \<longrightarrow> (\<exists>ts. err_map_st
      (\<lambda>(i, x) c. visit x (loc @ [AtArgument op i]) (depth + 1) c)
        (enumerate 0 (json_args raw)) (count + 1) = Inr (ts, count') \<and> result_type op loc ts = Inr t)"
    by (rule visit_op_cases)
  show ?case
  proof (cases "op = OpVar")
    case False
    with operation obtain ts where
      st: "err_map_st (\<lambda>(i, x) c. visit x (loc @ [AtArgument op i]) (depth + 1) c)
        (enumerate 0 (json_args raw)) (count + 1) = Inr (ts, count')"
      and rt: "result_type op loc ts = Inr t" by blast
    have ch: "list_all2 sound (json_args raw) ts"
      using st by (rule visit_children) (use 2(2) [OF lim refl p] ar False in blast)
    then have "length ts = length (json_args raw)" by (metis list_all2_lengthD)
    with ar have "arity_ok op (length ts)" by simp
    from sound_operation [OF p this False rt ch] show ?thesis .
  next
    case True
    with p ar have p': "parse_operator name = Some OpVar"
      and ar': "\<not> \<not> arity_ok OpVar (length (json_args raw))" by simp_all
    from 2(3) p' show ?thesis
    proof (cases rule: visit_var_cases)
      case (1 n var)
      with sound_variable [OF p' 1(3,1)] show ?thesis by auto
    next
      case (2 n var d)
      have "sound d (var_type var)"
        using 2(4) by (rule "2.IH"(1) [OF lim refl p' ar' refl 2(3) refl 2(1) refl])
      with 2 sound_variable [OF p' 2(3,1)] show ?thesis by auto
    qed
  qed
qed (auto simp: sound_def split: if_splits pyfloat.splits elim: literal_finite.elims)

end
