(* ===== verification/Expression_Bounds.thy ===== *)
theory Expression_Bounds
  imports Expression_Safety
begin

text \<open>
  Totality of checked conditions. Every number in a condition and in the context is assumed to be at
  most \<open>10 ^ M\<close> in absolute value; then the value of a checked condition of \<open>n\<close> nodes has numbers of at
  most \<open>10 ^ (M * n)\<close>, and as \<open>n\<close> is at most 400 no operation can overflow while \<open>M\<close> is at most 2499.
  Every finite \<open>float\<close> is below \<open>10 ^ 309\<close>, so only an integer literal of more than 2499 digits
  escapes the bound.
\<close>

section \<open>Bounded values\<close>

function vbounded :: "nat \<Rightarrow> pyval \<Rightarrow> bool" where
  "vbounded k VNone = True"
| "vbounded k (VBool b) = True"
| "vbounded k (VStr s) = True"
| "vbounded k (VNum d) = (\<bar>dec_val d\<bar> \<le> 10 ^ k)"
| "vbounded k (VList vs) = list_all (vbounded k) vs"
| "vbounded k (VDict kvs) = list_all (\<lambda>(_, v). vbounded k v) kvs"
  by pat_completeness auto
termination
proof (relation "measure (\<lambda>(k, v). size v)", goal_cases)
  case (3 k kvs z x y)
  then have "size_prod (\<lambda>_. 0) size (x, y) \<le> size_list (size_prod (\<lambda>_. 0) size) kvs"
    by (simp add: size_list_estimation')
  then show ?case by simp
qed (auto simp: size_mem_list)

function jbounded :: "nat \<Rightarrow> json \<Rightarrow> bool" where
  "jbounded k JNull = True"
| "jbounded k (JBool b) = True"
| "jbounded k (JStr s) = True"
| "jbounded k (JInt n) = (\<bar>n\<bar> \<le> 10 ^ k)"
| "jbounded k (JFloat f) = (case f of FNum d \<Rightarrow> \<bar>dec_val d\<bar> \<le> 10 ^ k | FNonFinite \<Rightarrow> True)"
| "jbounded k (JDec d) = (\<bar>dec_val d\<bar> \<le> 10 ^ k)"
| "jbounded k (JList xs) = list_all (jbounded k) xs"
| "jbounded k (JDict kvs) = list_all (\<lambda>(_, x). jbounded k x) kvs"
  by pat_completeness auto
termination
proof (relation "measure (\<lambda>(k, v). size v)", goal_cases)
  case (3 k kvs z x y)
  then have "size_prod (\<lambda>_. 0) size (x, y) \<le> size_list (size_prod (\<lambda>_. 0) size) kvs"
    by (simp add: size_list_estimation')
  then show ?case by simp
qed (auto simp: size_mem_list)

lemma pow10_mono: "m \<le> n \<Longrightarrow> (10 :: rat) ^ m \<le> 10 ^ n"
  by (simp add: power_increasing)

lemma vbounded_mono: "vbounded m v \<Longrightarrow> m \<le> n \<Longrightarrow> vbounded n v"
proof (induction m v rule: vbounded.induct)
  case (4 k d)
  then show ?case by (auto intro: order_trans [OF _ pow10_mono])
qed (auto simp: list_all_iff)

text \<open>Every variable of the context is at most \<open>10 ^ M\<close>.\<close>

definition ctx_bounded :: "nat \<Rightarrow> pyval \<Rightarrow> bool" where
  "ctx_bounded M ctx \<longleftrightarrow>
     list_all (\<lambda>(n, _). case lookup_var ctx n of None \<Rightarrow> True | Some v \<Rightarrow> vbounded M v) VARIABLES"

lemma ctx_boundedD:
  "ctx_bounded M ctx \<Longrightarrow> map_of VARIABLES n = Some var \<Longrightarrow> lookup_var ctx n = Some v \<Longrightarrow> vbounded M v"
  by (fastforce simp: ctx_bounded_def list_all_iff dest: map_of_SomeD)

section \<open>Folding bounded numbers\<close>

lemma mag_nat:
  assumes "n \<le> 999999"
  shows "\<bar>dec_val a\<bar> + \<bar>dec_val b\<bar> \<le> 10 ^ n \<Longrightarrow> \<exists>r. dec_add a b = Inr r \<and> \<bar>dec_val r\<bar> \<le> 10 ^ n"
    and "\<bar>dec_val a\<bar> + \<bar>dec_val b\<bar> \<le> 10 ^ n \<Longrightarrow> \<exists>r. dec_sub a b = Inr r \<and> \<bar>dec_val r\<bar> \<le> 10 ^ n"
    and "\<bar>dec_val a\<bar> * \<bar>dec_val b\<bar> \<le> 10 ^ n \<Longrightarrow> \<exists>r. dec_mul a b = Inr r \<and> \<bar>dec_val r\<bar> \<le> 10 ^ n"
    and "\<bar>dec_val a\<bar> \<le> 10 ^ n \<Longrightarrow> \<exists>r. dec_neg a = Inr r \<and> \<bar>dec_val r\<bar> \<le> 10 ^ n"
  using assms dec_add_mag [of a b "int n"] dec_sub_mag [of a b "int n"] dec_mul_mag [of a b "int n"]
    dec_neg_mag [of a "int n"]
  by (simp_all add: dec_emax_def)

lemma pow10_add: "1 \<le> a \<Longrightarrow> 1 \<le> b \<Longrightarrow> (10 :: rat) ^ a + 10 ^ b \<le> 10 ^ (a + b)"
proof -
  assume "1 \<le> a" "1 \<le> b"
  then have "(10 :: rat) ^ a \<ge> 10" "(10 :: rat) ^ b \<ge> 10"
    using pow10_mono [of 1 a] pow10_mono [of 1 b] by auto
  then have "0 \<le> ((10 :: rat) ^ a - 2) * (10 ^ b - 2)" by (intro mult_nonneg_nonneg) auto
  with \<open>(10 :: rat) ^ a \<ge> 10\<close> \<open>(10 :: rat) ^ b \<ge> 10\<close> show ?thesis
    by (simp add: power_add algebra_simps)
qed

text \<open>\<open>ds\<close> are the values of arguments with \<open>ns\<close> nodes each.\<close>

definition mags :: "nat \<Rightarrow> decimal list \<Rightarrow> nat list \<Rightarrow> bool" where
  "mags M ds ns \<longleftrightarrow> list_all2 (\<lambda>d n. 1 \<le> n \<and> \<bar>dec_val d\<bar> \<le> 10 ^ (M * n)) ds ns"

lemma fold_sum_mag:
  assumes "mags M ds ns" "1 \<le> M" "1 \<le> a" "\<bar>dec_val acc\<bar> \<le> 10 ^ (M * a)"
    and "M * (a + sum_list ns) \<le> 999999"
  shows "\<exists>r. err_fold dec_add acc ds = Inr r \<and> \<bar>dec_val r\<bar> \<le> 10 ^ (M * (a + sum_list ns))"
  using assms(1,3-5) unfolding mags_def
proof (induction arbitrary: acc a rule: list_all2_induct)
  case (Cons d ds n ns)
  have "\<bar>dec_val acc\<bar> + \<bar>dec_val d\<bar> \<le> 10 ^ (M * a) + 10 ^ (M * n)"
    using Cons.hyps(1) Cons.prems(2) by auto
  also have "\<dots> \<le> 10 ^ (M * a + M * n)"
    using assms(2) Cons.hyps(1) Cons.prems(1) by (intro pow10_add) (auto simp: Suc_le_eq)
  finally have "\<bar>dec_val acc\<bar> + \<bar>dec_val d\<bar> \<le> 10 ^ (M * (a + n))" by (simp add: algebra_simps)
  moreover have "M * (a + n) \<le> 999999" using Cons.prems(3) by (simp add: algebra_simps)
  ultimately obtain r where r: "dec_add acc d = Inr r" "\<bar>dec_val r\<bar> \<le> 10 ^ (M * (a + n))"
    using mag_nat(1) by blast
  from Cons.IH [of "a + n" r] r Cons.prems show ?case by (simp add: add.assoc)
qed simp

lemma fold_product_mag:
  assumes "mags M ds ns" "\<bar>dec_val acc\<bar> \<le> 10 ^ (M * a)" "M * (a + sum_list ns) \<le> 999999"
  shows "\<exists>r. err_fold dec_mul acc ds = Inr r \<and> \<bar>dec_val r\<bar> \<le> 10 ^ (M * (a + sum_list ns))"
  using assms unfolding mags_def
proof (induction arbitrary: acc a rule: list_all2_induct)
  case (Cons d ds n ns)
  have "\<bar>dec_val acc\<bar> * \<bar>dec_val d\<bar> \<le> 10 ^ (M * a) * 10 ^ (M * n)"
    using Cons.hyps(1) Cons.prems(1) by (intro mult_mono) auto
  then have "\<bar>dec_val acc\<bar> * \<bar>dec_val d\<bar> \<le> 10 ^ (M * (a + n))"
    by (simp add: power_add algebra_simps)
  moreover have "M * (a + n) \<le> 999999" using Cons.prems(2) by (simp add: algebra_simps)
  ultimately obtain r where r: "dec_mul acc d = Inr r" "\<bar>dec_val r\<bar> \<le> 10 ^ (M * (a + n))"
    using mag_nat(3) by blast
  from Cons.IH [of r "a + n"] r Cons.prems show ?case by (simp add: add.assoc)
qed simp

lemma select_mem: "select f ds = Inr d \<Longrightarrow> d \<in> set ds"
proof (cases ds)
  case (Cons x xs)
  have "foldl (\<lambda>best y. if f y best then y else best) x xs \<in> insert x (set xs)" for x
  proof (induction xs arbitrary: x)
    case (Cons y ys)
    from Cons.IH [of "if f y x then y else x"] show ?case by auto
  qed simp
  moreover assume "select f ds = Inr d"
  ultimately show ?thesis using Cons by auto
qed simp

lemma mags_mem:
  assumes "mags M ds ns" "d \<in> set ds"
  shows "\<bar>dec_val d\<bar> \<le> 10 ^ (M * sum_list ns)"
proof -
  from assms obtain n where "n \<in> set ns" "\<bar>dec_val d\<bar> \<le> 10 ^ (M * n)"
    unfolding mags_def by (metis (mono_tags, lifting) in_set_conv_nth list_all2_conv_all_nth)
  moreover from this(1) have "n \<le> sum_list ns" by (simp add: member_le_sum_list)
  then have "(10 :: rat) ^ (M * n) \<le> 10 ^ (M * sum_list ns)" by (intro pow10_mono) simp
  ultimately show ?thesis by linarith
qed

section \<open>One operator\<close>

lemma mags_intro:
  "list_all2 (\<lambda>v n. 1 \<le> n \<and> vbounded (M * n) v) (map VNum ds) ns \<Longrightarrow> mags M ds ns"
  by (simp add: mags_def list_all2_map1)

lemma vbounded_VNum: "\<bar>dec_val d\<bar> \<le> 10 ^ m \<Longrightarrow> m \<le> n \<Longrightarrow> vbounded n (VNum d)"
  using vbounded_mono [of m "VNum d" n] by simp

lemma arithmetic_bounded:
  assumes m: "mags M ds ns" and ne: "ds \<noteq> []" and M: "1 \<le> M" "M * (1 + sum_list ns) \<le> 999999"
    and op: "op \<in> {OpAdd, OpSub, OpMul, OpMin, OpMax}" and two: "op = OpSub \<Longrightarrow> length ds \<le> 2"
  shows "\<exists>d. apply_operator op (map VNum ds) = Inr (VNum d) \<and> \<bar>dec_val d\<bar> \<le> 10 ^ (M * (1 + sum_list ns))"
proof -
  have sel: "\<exists>d. select f ds = Inr d \<and> \<bar>dec_val d\<bar> \<le> 10 ^ (M * (1 + sum_list ns))" for f
  proof -
    obtain d where d: "select f ds = Inr d" using select_nonempty [OF ne] by blast
    from mags_mem [OF m select_mem [OF this]] have "\<bar>dec_val d\<bar> \<le> 10 ^ (M * (1 + sum_list ns))"
      by (rule order_trans [OF _ pow10_mono]) simp
    with d show ?thesis by blast
  qed
  have sum: "\<exists>d. fold_sum ds = Inr d \<and> \<bar>dec_val d\<bar> \<le> 10 ^ (M * (1 + sum_list ns))"
    using fold_sum_mag [OF m, of 1 "Dec 0 0"] M by (simp add: fold_sum_def)
  have prod: "\<exists>d. fold_product ds = Inr d \<and> \<bar>dec_val d\<bar> \<le> 10 ^ (M * (1 + sum_list ns))"
    using fold_product_mag [OF m, of "Dec 1 0" 1] M by (simp add: fold_product_def)
  consider (add) "op = OpAdd" | (sub) "op = OpSub" | (mul) "op = OpMul" | (min) "op = OpMin" | (max) "op = OpMax"
    using op by auto
  then show ?thesis
  proof cases
    case sub
    show ?thesis
    proof (cases "tl ds")
      case Nil
      with ne obtain x where ds: "ds = [x]" by (cases ds) auto
      with mags_mem [OF m, of x] have "\<bar>dec_val x\<bar> \<le> 10 ^ (M * sum_list ns)" by simp
      then have "\<bar>dec_val x\<bar> \<le> 10 ^ (M * (1 + sum_list ns))"
        by (rule order_trans [OF _ pow10_mono]) simp
      from mag_nat(4) [OF M(2) this] obtain r where r: "dec_neg x = Inr r"
        "\<bar>dec_val r\<bar> \<le> 10 ^ (M * (1 + sum_list ns))" by blast
      with numbers_map [of OpSub ds] show ?thesis
        by (intro exI [of _ r]) (simp add: apply_operator.simps arith_def sub ds)
    next
      case (Cons y ys)
      with ne two [OF sub] obtain x where ds: "ds = [x, y]" by (cases ds) auto
      with m obtain a b where ns: "ns = [a, b]" "1 \<le> a" "1 \<le> b"
        and ab: "\<bar>dec_val x\<bar> \<le> 10 ^ (M * a)" "\<bar>dec_val y\<bar> \<le> 10 ^ (M * b)"
        by (auto simp: mags_def list_all2_Cons1)
      have "\<bar>dec_val x\<bar> + \<bar>dec_val y\<bar> \<le> 10 ^ (M * a + M * b)"
        using ab pow10_add [of "M * a" "M * b"] ns M(1) by auto
      also have "\<dots> \<le> 10 ^ (M * (1 + sum_list ns))" by (rule pow10_mono) (simp add: ns algebra_simps)
      finally have "\<bar>dec_val x\<bar> + \<bar>dec_val y\<bar> \<le> 10 ^ (M * (1 + sum_list ns))" .
      from mag_nat(2) [OF M(2) this] obtain r where r: "dec_sub x y = Inr r"
        "\<bar>dec_val r\<bar> \<le> 10 ^ (M * (1 + sum_list ns))" by blast
      with numbers_map [of OpSub ds] show ?thesis
        by (intro exI [of _ r]) (simp add: apply_operator.simps arith_def sub ds)
    qed
  qed (use sum prod sel in \<open>auto simp: apply_operator.simps arith_def\<close>)
qed

text \<open>Every eager operator on well-typed bounded arguments returns a bounded value.\<close>

lemma operator_bounded:
  assumes rt: "result_type op loc ts = Inr t" and ar: "arity_ok op (length ts)"
    and eager: "op \<notin> {OpAnd, OpOr, OpIf, OpVar}" and ty: "list_all2 has_type vs ts"
    and b: "list_all2 (\<lambda>v n. 1 \<le> n \<and> vbounded (M * n) v) vs ns"
    and M: "1 \<le> M" "M * (1 + sum_list ns) \<le> 999999"
  shows "\<exists>v. apply_operator op vs = Inr v \<and> vbounded (M * (1 + sum_list ns)) v"
proof (cases "op \<in> {OpAdd, OpSub, OpMul, OpMin, OpMax}")
  case True
  with rt have req: "require op loc TNumber 0 ts = Inr ()" by (auto simp: result_type.simps)
  from require_all [OF this] ty have "list_all (\<lambda>v. has_type v TNumber) vs" by (metis typed_replicate)
  then obtain ds where ds: "vs = map VNum ds" using typed_numbers by blast
  have len: "length ds = length ts" using ty ds by (auto dest: list_all2_lengthD)
  with ar True have "ds \<noteq> []" "op = OpSub \<Longrightarrow> length ds \<le> 2" by (auto simp: arity_ok_def)
  from arithmetic_bounded [OF mags_intro [OF b [unfolded ds]] this(1) M True this(2)]
  show ?thesis unfolding ds by auto
next
  case False
  with eager have bool: "\<And>e op'. apply_operator op vs \<noteq> Inl (RuleEvaluationError (ArithmeticFailed op'))"
    by (cases op) (auto simp: apply_operator.simps compare_def numbers_def split: list.splits
        elim!: membership.elims to_decimal.elims dest!: err_map_InlD)
  have "outcome_ok t (apply_operator op vs)" by (rule result_type_sound [OF rt ar ty eager])
  with bool obtain v where v: "apply_operator op vs = Inr v" by (cases "apply_operator op vs") auto
  with False eager have "\<exists>b. v = VBool b"
    by (cases op) (auto simp: apply_operator.simps compare_def split: list.splits)
  with v show ?thesis by auto
qed

section \<open>The children of a node\<close>

definition small :: "nat \<Rightarrow> pyval \<Rightarrow> json \<Rightarrow> nat \<Rightarrow> bool" where
  "small M ctx j n \<longleftrightarrow>
     (\<exists>c v. normalise_literal j = Inr c \<and> evaluate c ctx = Inr v \<and> vbounded (M * n) v)"

lemma counted_children:
  fixes s :: nat
  assumes "err_map_st g xs s = Inr (ts, s')"
    and "\<And>x c t c'. x \<in> set xs \<Longrightarrow> g x c = Inr (t, c') \<Longrightarrow> c < c' \<and> Q x (c' - c)"
  shows "\<exists>ns. list_all2 (\<lambda>x n. 1 \<le> n \<and> Q x n) xs ns \<and> s' = s + sum_list ns"
  using assms
proof (induction xs arbitrary: s ts)
  case (Cons x xs)
  then obtain y c ys where gx: "g x s = Inr (y, c)" and rest: "err_map_st g xs c = Inr (ys, s')" by auto
  have "\<exists>ns. list_all2 (\<lambda>x n. 1 \<le> n \<and> Q x n) xs ns \<and> s' = c + sum_list ns"
    using rest by (rule Cons.IH) (rule Cons.prems(2), simp_all)
  then obtain ns where
    "list_all2 (\<lambda>x n. 1 \<le> n \<and> Q x n) xs ns" "s' = c + sum_list ns" by blast
  moreover have "s < c" "Q x (c - s)" using Cons.prems(2) gx by auto
  ultimately show ?case by (intro exI [of _ "(c - s) # ns"]) (simp add: Suc_le_eq)
qed simp

lemma visit_counted_children:
  assumes "err_map_st (\<lambda>(i, x) c. visit x (f i) d c) (enumerate 0 xs) s = Inr (ts, s')"
    and "\<And>i x c t c'. (i, x) \<in> set (enumerate 0 xs) \<Longrightarrow> visit x (f i) d c = Inr (t, c') \<Longrightarrow>
           c < c' \<and> P x (c' - c)"
  shows "\<exists>ns. list_all2 (\<lambda>x n. 1 \<le> n \<and> P x n) xs ns \<and> s' = s + sum_list ns"
proof -
  from counted_children [OF assms(1), of "\<lambda>(i, x). P x"] assms(2) obtain ns where
    "list_all2 (\<lambda>(i, x) n. 1 \<le> n \<and> P x n) (enumerate 0 xs) ns" "s' = s + sum_list ns"
    by (force simp: case_prod_beta' split: prod.splits)
  then show ?thesis by (auto simp: list_all2_conv_all_nth nth_enumerate_eq)
qed

lemma small_children:
  assumes "list_all2 sound xs ts" "list_all2 (\<lambda>x n. 1 \<le> n \<and> small M ctx x n) xs ns" "ctx_ok ctx"
  shows "\<exists>cs vs. err_map normalise_literal xs = Inr cs \<and> err_map (\<lambda>c. evaluate c ctx) cs = Inr vs \<and>
           list_all2 has_type vs ts \<and> list_all2 (\<lambda>v n. 1 \<le> n \<and> vbounded (M * n) v) vs ns"
  using assms
proof (induction xs arbitrary: ts ns)
  case (Cons x xs)
  from Cons.prems obtain t ts' n ns' where eq: "ts = t # ts'" "ns = n # ns'"
    and x: "sound x t" "1 \<le> n" "small M ctx x n"
    and xs: "list_all2 sound xs ts'" "list_all2 (\<lambda>x n. 1 \<le> n \<and> small M ctx x n) xs ns'"
    by (auto simp: list_all2_Cons1)
  from Cons.IH [OF xs Cons.prems(3)] obtain cs vs where "err_map normalise_literal xs = Inr cs"
    "err_map (\<lambda>c. evaluate c ctx) cs = Inr vs" "list_all2 has_type vs ts'"
    "list_all2 (\<lambda>v n. 1 \<le> n \<and> vbounded (M * n) v) vs ns'" by blast
  moreover from x Cons.prems(3) obtain c v where "normalise_literal x = Inr c" "evaluate c ctx = Inr v"
    "vbounded (M * n) v" "has_type v t"
    unfolding small_def sound_def by (metis Inr_inject outcome_ok_Inr)
  ultimately show ?case
    using eq x(2) by (intro exI [of _ "c # cs"] exI [of _ "v # vs"]) simp
qed simp

lemma le_mult_sum: "n \<in> set ns \<Longrightarrow> M * n \<le> M * (1 + sum_list (ns :: nat list))"
  by (rule mult_le_mono2, rule trans_le_add2) (simp add: member_le_sum_list)

lemma vbounded_all:
  assumes "list_all2 (\<lambda>v n. 1 \<le> n \<and> vbounded (M * n) v) vs ns"
  shows "list_all (vbounded (M * (1 + sum_list ns))) vs"
  unfolding list_all_iff
proof
  fix v assume "v \<in> set vs"
  with assms obtain n where "n \<in> set ns" "vbounded (M * n) v"
    by (metis (mono_tags, lifting) in_set_conv_nth list_all2_conv_all_nth)
  then show "vbounded (M * (1 + sum_list ns)) v" using vbounded_mono le_mult_sum by blast
qed

section \<open>The whole condition\<close>

text \<open>
  What is to be shown of a checked node that took \<open>n\<close> counts: it evaluates, to a value within
  \<open>10 ^ (M * n)\<close>, provided that bound stays below the context's largest exponent.
\<close>

definition total :: "nat \<Rightarrow> pyval \<Rightarrow> json \<Rightarrow> nat \<Rightarrow> bool" where
  "total M ctx j n \<longleftrightarrow> (jbounded M j \<and> M * n \<le> 999999 \<longrightarrow> small M ctx j n)"

lemma total_children:
  assumes "list_all2 (\<lambda>x n. 1 \<le> n \<and> total M ctx x n) xs ns" "list_all (jbounded M) xs"
    and "M * (1 + sum_list ns) \<le> 999999"
  shows "list_all2 (\<lambda>x n. 1 \<le> n \<and> small M ctx x n) xs ns"
proof (rule list_all2_all_nthI)
  fix i assume i: "i < length xs"
  with assms(1) have "ns ! i \<in> set ns" by (auto dest: list_all2_lengthD)
  from le_mult_sum [OF this, of M] assms(3) have "M * ns ! i \<le> 999999" by linarith
  moreover have "1 \<le> ns ! i \<and> total M ctx (xs ! i) (ns ! i)" using assms(1) i by (rule list_all2_nthD)
  moreover have "jbounded M (xs ! i)" using assms(2) i by (simp add: list_all_length)
  ultimately show "1 \<le> ns ! i \<and> small M ctx (xs ! i) (ns ! i)" by (simp add: total_def)
qed (use assms(1) in \<open>auto dest: list_all2_lengthD\<close>)

lemma json_args_bounded: "jbounded M raw \<Longrightarrow> list_all (jbounded M) (json_args raw)"
  by (cases raw) auto

lemma logic_returns:
  assumes "\<And>x. x \<in> set xs \<Longrightarrow> \<exists>v. f x = Inr v"
  shows "\<exists>b. err_all (\<lambda>x. err_bind (f x) (\<lambda>v. Inr (truthy v))) xs = Inr b"
    and "\<exists>b. err_any (\<lambda>x. err_bind (f x) (\<lambda>v. Inr (truthy v))) xs = Inr b"
proof -
  from assms have "(\<exists>b. err_all (\<lambda>x. err_bind (f x) (\<lambda>v. Inr (truthy v))) xs = Inr b) \<and>
    (\<exists>b. err_any (\<lambda>x. err_bind (f x) (\<lambda>v. Inr (truthy v))) xs = Inr b)"
  proof (induction xs)
    case (Cons x xs)
    from Cons.prems [of x] obtain v where "f x = Inr v" by auto
    moreover from Cons.IH Cons.prems have "(\<exists>b. err_all (\<lambda>x. err_bind (f x) (\<lambda>v. Inr (truthy v))) xs = Inr b) \<and>
      (\<exists>b. err_any (\<lambda>x. err_bind (f x) (\<lambda>v. Inr (truthy v))) xs = Inr b)" by simp
    ultimately show ?case by (cases "truthy v") auto
  qed auto
  then show "\<exists>b. err_all (\<lambda>x. err_bind (f x) (\<lambda>v. Inr (truthy v))) xs = Inr b"
    and "\<exists>b. err_any (\<lambda>x. err_bind (f x) (\<lambda>v. Inr (truthy v))) xs = Inr b" by blast+
qed

lemma small_operation:
  assumes p: "parse_operator name = Some op" and ar: "arity_ok op (length ts)" and nv: "op \<noteq> OpVar"
    and rt: "result_type op loc ts = Inr t" and ch: "list_all2 sound (json_args raw) ts"
    and sm: "list_all2 (\<lambda>x n. 1 \<le> n \<and> small M ctx x n) (json_args raw) ns"
    and ctx: "ctx_ok ctx" and M: "1 \<le> M" "M * (1 + sum_list ns) \<le> 999999"
  shows "small M ctx (JDict [(name, raw)]) (1 + sum_list ns)"
proof -
  from small_children [OF ch sm ctx] obtain cs vs where
    cs: "err_map normalise_literal (json_args raw) = Inr cs"
    and vs: "err_map (\<lambda>c. evaluate c ctx) cs = Inr vs" and ty: "list_all2 has_type vs ts"
    and b: "list_all2 (\<lambda>v n. 1 \<le> n \<and> vbounded (M * n) v) vs ns" by blast
  from normalise_args [OF cs] obtain r where r: "normalise_literal raw = Inr r" "operator_args r = cs"
    by blast
  have ev: "\<And>c. c \<in> set cs \<Longrightarrow> \<exists>v \<in> set vs. evaluate c ctx = Inr v"
    using vs by (rule err_map_Inr_mem)
  have "\<exists>v. evaluate (VDict [(name, r)]) ctx = Inr v \<and> vbounded (M * (1 + sum_list ns)) v"
  proof -
    consider (eager) "op \<notin> {OpAnd, OpOr, OpIf, OpVar}" | (land) "op = OpAnd" | (lor) "op = OpOr"
      | (cond) "op = OpIf" using nv by auto
    then show ?thesis
    proof cases
      case eager
      then have "evaluate (VDict [(name, r)]) ctx = apply_operator op vs"
        using evaluate_eager [OF p, of r ctx] r(2) vs by auto
      with operator_bounded [OF rt ar eager ty b M] show ?thesis by simp
    next
      case land
      have "\<exists>b. err_all (\<lambda>x. err_bind (evaluate x ctx) (\<lambda>v. Inr (truthy v))) cs = Inr b"
        by (rule logic_returns) (metis ev)
      with evaluate_and [of name r ctx] p land r(2) show ?thesis by auto
    next
      case lor
      have "\<exists>b. err_any (\<lambda>x. err_bind (evaluate x ctx) (\<lambda>v. Inr (truthy v))) cs = Inr b"
        by (rule logic_returns) (metis ev)
      with evaluate_or [of name r ctx] p lor r(2) show ?thesis by auto
    next
      case cond
      have "length cs = 3"
        using ar cond ch cs err_map_Inr_length [OF cs] list_all2_lengthD [OF ch]
        by (auto simp: arity_ok_def)
      from length3 [OF this] obtain a x y where abd: "cs = [a, x, y]" by blast
      from cond p have p': "parse_operator name = Some OpIf" by simp
      from ev [of a] ev [of x] ev [of y] abd obtain va vx vy where
        e: "evaluate a ctx = Inr va" "evaluate x ctx = Inr vx" "evaluate y ctx = Inr vy"
        and "vx \<in> set vs" "vy \<in> set vs" by auto
      with vbounded_all [OF b] have "vbounded (M * (1 + sum_list ns)) vx" "vbounded (M * (1 + sum_list ns)) vy"
        by (simp_all add: list_all_iff)
      with e show ?thesis by (simp only: evaluate_if [OF p' r(2) [unfolded abd]]) auto
    qed
  qed
  with r show ?thesis
    by (auto simp: small_def normalise_dict simp del: normalise_literal.simps)
qed

lemma small_list:
  assumes ch: "list_all2 sound xs ts" and sm: "list_all2 (\<lambda>x n. 1 \<le> n \<and> small M ctx x n) xs ns"
    and ctx: "ctx_ok ctx"
  shows "small M ctx (JList xs) (1 + sum_list ns)"
proof -
  from small_children [OF ch sm ctx] obtain cs vs where
    "err_map normalise_literal xs = Inr cs" "err_map (\<lambda>c. evaluate c ctx) cs = Inr vs"
    and b: "list_all2 (\<lambda>v n. 1 \<le> n \<and> vbounded (M * n) v) vs ns" by blast
  with vbounded_all [OF b] show ?thesis by (auto simp: small_def)
qed

lemma small_leaf:
  assumes "literal_finite j" "jbounded M j" "\<And>xs. j \<noteq> JList xs" "\<And>kvs. j \<noteq> JDict kvs" "1 \<le> n"
  shows "small M ctx j n"
proof -
  have "\<exists>c. normalise_literal j = Inr c \<and> evaluate c ctx = Inr c \<and> vbounded M c"
    using assms(1-4) by (cases j) (auto split: pyfloat.splits simp flip: of_int_abs of_int_power
        simp del: of_int_numeral)
  moreover have "M \<le> M * n" using assms(5) by simp
  ultimately show ?thesis unfolding small_def using vbounded_mono by blast
qed

lemma total_operation:
  assumes p: "parse_operator name = Some op" and ar: "arity_ok op (length (json_args raw))"
    and nv: "op \<noteq> OpVar" and rt: "result_type op loc ts = Inr t"
    and ch: "list_all2 sound (json_args raw) ts"
    and ns: "list_all2 (\<lambda>x n. 1 \<le> n \<and> total M ctx x n) (json_args raw) ns"
    and ctx: "ctx_ok ctx" and M: "1 \<le> M"
  shows "total M ctx (JDict [(name, raw)]) (1 + sum_list ns)"
  unfolding total_def
proof (intro impI, elim conjE)
  assume "jbounded M (JDict [(name, raw)])" and le: "M * (1 + sum_list ns) \<le> 999999"
  then have "list_all (jbounded M) (json_args raw)" by (intro json_args_bounded) simp
  moreover have "arity_ok op (length ts)" using ar list_all2_lengthD [OF ch] by simp
  ultimately show "small M ctx (JDict [(name, raw)]) (1 + sum_list ns)"
    using small_operation [OF p _ nv rt ch total_children [OF ns _ le] ctx M le] by blast
qed

lemma total_variable:
  assumes p: "parse_operator name = Some OpVar" and args: "json_args raw = JStr n # rest"
    and v: "map_of VARIABLES n = Some var"
    and rest: "rest = [] \<and> required var \<and> k = 1 \<or> (\<exists>d m. rest = [d] \<and> total M ctx d m \<and> k = 1 + m)"
    and ctx: "ctx_ok ctx" "ctx_bounded M ctx"
  shows "total M ctx (JDict [(name, raw)]) k"
  unfolding total_def
proof (intro impI)
  assume k: "jbounded M (JDict [(name, raw)]) \<and> M * k \<le> 999999"
  then have jb: "list_all (jbounded M) (json_args raw)" by (intro json_args_bounded) simp
  obtain cs where cs: "err_map normalise_literal (json_args raw) = Inr (VStr n # cs)"
    and small: "cs = [] \<and> required var \<or>
       (\<exists>c w. cs = [c] \<and> evaluate c ctx = Inr w \<and> vbounded (M * k) w)"
  proof (cases "rest = []")
    case True
    with rest args that [of "[]"] show ?thesis by auto
  next
    case False
    with rest obtain d m where d: "rest = [d]" "total M ctx d m" "k = 1 + m" by auto
    with jb args k have "small M ctx d m" by (simp add: total_def)
    then obtain c w where "normalise_literal d = Inr c" "evaluate c ctx = Inr w" "vbounded (M * m) w"
      by (auto simp: small_def)
    moreover from this(3) have "vbounded (M * k) w" by (rule vbounded_mono) (simp add: d(3))
    ultimately show ?thesis using that [of "[c]"] args d(1) by auto
  qed
  from normalise_args [OF cs] obtain r where
    r: "normalise_literal raw = Inr r" "operator_args r = VStr n # cs" by blast
  have "1 \<le> k" using rest by auto
  then have "M \<le> M * k" by simp
  then have "vbounded (M * k) w" if "lookup_var ctx n = Some w" for w
    using vbounded_mono [OF ctx_boundedD [OF ctx(2) v that]] by blast
  with ctx_okD [OF ctx(1) v] small have
    "\<exists>w. evaluate (VDict [(name, r)]) ctx = Inr w \<and> vbounded (M * k) w"
    by (auto simp: evaluate_var [OF p r(2)] split: option.splits)
  with r show "small M ctx (JDict [(name, raw)]) k"
    by (auto simp: small_def normalise_dict simp del: normalise_literal.simps)
qed

lemma visit_total:
  assumes ctx: "ctx_ok ctx" "ctx_bounded M ctx" and M: "1 \<le> M"
  shows "visit j loc depth count = Inr (t, count') \<Longrightarrow> count < count' \<and> total M ctx j (count' - count)"
proof (induction j loc depth count arbitrary: t count' rule: visit.induct)
  case (1 items loc depth count)
  from 1(2) obtain ts where lim: "\<not> MAX_EXPRESSION_NODES < count + 1" "\<not> MAX_EXPRESSION_DEPTH < depth"
    and st: "err_map_st (\<lambda>(i, x) c. visit x (loc @ [AtIndex i]) (depth + 1) c)
      (enumerate 0 items) (count + 1) = Inr (ts, count')"
    by (rule visit_list_cases)
  have snd: "list_all2 sound items ts"
    using st by (rule visit_children) (rule visit_sound)
  have "\<exists>ns. list_all2 (\<lambda>x n. 1 \<le> n \<and> total M ctx x n) items ns \<and> count' = count + 1 + sum_list ns"
    using st by (rule visit_counted_children) (use 1(1) lim in blast)
  then obtain ns where ns: "list_all2 (\<lambda>x n. 1 \<le> n \<and> total M ctx x n) items ns"
    and c': "count' = count + 1 + sum_list ns" by blast
  have "total M ctx (JList items) (1 + sum_list ns)"
    unfolding total_def using small_list [OF snd total_children [OF ns] ctx(1)] by simp
  with c' show ?case by simp
next
  case (2 name raw loc depth count)
  from 2(3) obtain op where lim: "\<not> MAX_EXPRESSION_NODES < count + 1" "\<not> MAX_EXPRESSION_DEPTH < depth"
    and p: "parse_operator name = Some op" and ar: "\<not> \<not> arity_ok op (length (json_args raw))"
    and operation: "op \<noteq> OpVar \<longrightarrow> (\<exists>ts. err_map_st
      (\<lambda>(i, x) c. visit x (loc @ [AtArgument op i]) (depth + 1) c)
        (enumerate 0 (json_args raw)) (count + 1) = Inr (ts, count') \<and> result_type op loc ts = Inr t)"
    by (rule visit_op_cases)
  show ?case
  proof (cases "op = OpVar")
    case False
    with operation obtain ts where
      st: "err_map_st (\<lambda>(i, x) c. visit x (loc @ [AtArgument op i]) (depth + 1) c)
        (enumerate 0 (json_args raw)) (count + 1) = Inr (ts, count')"
      and rt: "result_type op loc ts = Inr t" by blast
    have ch: "list_all2 sound (json_args raw) ts"
      using st by (rule visit_children) (rule visit_sound)
    have "\<exists>ns. list_all2 (\<lambda>x n. 1 \<le> n \<and> total M ctx x n) (json_args raw) ns \<and> count' = count + 1 + sum_list ns"
      using st by (rule visit_counted_children) (use 2(2) [OF lim refl p] ar False in blast)
    with total_operation [OF p _ False rt ch _ ctx(1) M] ar show ?thesis by auto
  next
    case True
    with p ar have p': "parse_operator name = Some OpVar"
      and ar': "\<not> \<not> arity_ok OpVar (length (json_args raw))" by simp_all
    from 2(3) p' show ?thesis
    proof (cases rule: visit_var_cases)
      case (1 n var)
      with total_variable [OF p' 1(3,1) _ ctx] show ?thesis by auto
    next
      case (2 n var d)
      have d: "count + 1 < count' \<and> total M ctx d (count' - (count + 1))"
        using 2(4) by (rule "2.IH"(1) [OF lim refl p' ar' refl 2(3) refl 2(1) refl])
      have "[d] = [] \<and> required var \<and> count' - count = 1 \<or>
          (\<exists>x m. [d] = [x] \<and> total M ctx x m \<and> count' - count = 1 + m)"
        using d by (intro disjI2 exI [of _ d] exI [of _ "count' - (count + 1)"]) auto
      from d total_variable [OF p' 2(3,1) this ctx] show ?thesis by simp
    qed
  qed
qed (auto simp: total_def split: if_splits intro!: small_leaf)

lemma err_map_st_inv:
  assumes "err_map_st g xs s = Inr (ts, s')" "I s"
    and "\<And>x c t c'. x \<in> set xs \<Longrightarrow> g x c = Inr (t, c') \<Longrightarrow> I c'"
  shows "I s'"
  using assms by (induction xs arbitrary: s ts) (auto, blast)

lemma visit_nodes: "visit j loc depth count = Inr (t, count') \<Longrightarrow> count' \<le> MAX_EXPRESSION_NODES"
proof (induction j loc depth count arbitrary: t count' rule: visit.induct)
  case (1 items loc depth count)
  from 1(2) obtain ts where lim: "\<not> MAX_EXPRESSION_NODES < count + 1" "\<not> MAX_EXPRESSION_DEPTH < depth"
    and st: "err_map_st (\<lambda>(i, x) c. visit x (loc @ [AtIndex i]) (depth + 1) c)
      (enumerate 0 items) (count + 1) = Inr (ts, count')"
    by (rule visit_list_cases)
  show ?case
    by (rule err_map_st_inv [OF st, where I = "\<lambda>c. c \<le> MAX_EXPRESSION_NODES"]) (use 1(1) lim in auto)
next
  case (2 name raw loc depth count)
  from 2(3) obtain op where lim: "\<not> MAX_EXPRESSION_NODES < count + 1" "\<not> MAX_EXPRESSION_DEPTH < depth"
    and p: "parse_operator name = Some op" and ar: "\<not> \<not> arity_ok op (length (json_args raw))"
    and operation: "op \<noteq> OpVar \<longrightarrow> (\<exists>ts. err_map_st
      (\<lambda>(i, x) c. visit x (loc @ [AtArgument op i]) (depth + 1) c)
        (enumerate 0 (json_args raw)) (count + 1) = Inr (ts, count') \<and> result_type op loc ts = Inr t)"
    by (rule visit_op_cases)
  show ?case
  proof (cases "op = OpVar")
    case False
    with operation obtain ts where
      st: "err_map_st (\<lambda>(i, x) c. visit x (loc @ [AtArgument op i]) (depth + 1) c)
        (enumerate 0 (json_args raw)) (count + 1) = Inr (ts, count')" by blast
    show ?thesis
      by (rule err_map_st_inv [OF st, where I = "\<lambda>c. c \<le> MAX_EXPRESSION_NODES"])
        (use 2(2) [OF lim refl p ar] lim False in auto)
  next
    case True
    with p ar have p': "parse_operator name = Some OpVar"
      and ar': "\<not> \<not> arity_ok OpVar (length (json_args raw))" by simp_all
    from 2(3) p' show ?thesis
    proof (cases rule: visit_var_cases)
      case 1
      with lim show ?thesis by simp
    next
      case (2 n var d)
      from 2(4) show ?thesis by (rule "2.IH"(1) [OF lim refl p' ar' refl 2(3) refl 2(1) refl])
    qed
  qed
qed (auto split: if_splits)

section \<open>Checked conditions\<close>

lemma validate_visit:
  "validate_expression j = Inr () \<longleftrightarrow> (\<exists>n. visit j [] 1 0 = Inr (TBoolean, n))"
  by (auto simp: validate_expression_def split: if_splits)

lemma checked_condition_outcome:
  assumes "validate_expression j = Inr ()" "ctx_ok ctx"
  obtains c where "normalise_literal j = Inr c" "outcome_ok TBoolean (evaluate c ctx)"
  using assms visit_sound [of j "[]" 1 0 TBoolean] by (auto simp: validate_visit sound_def)

lemma checked_condition_total:
  assumes "validate_expression j = Inr ()" "ctx_ok ctx" "ctx_bounded M ctx" "jbounded M j"
    and "1 \<le> M" "M \<le> 2499"
  obtains c b where "normalise_literal j = Inr c" "evaluate c ctx = Inr (VBool b)"
proof -
  from assms(1) obtain n where n: "visit j [] 1 0 = Inr (TBoolean, n)" by (auto simp: validate_visit)
  from visit_nodes [OF this] have "M * n \<le> 2499 * 400"
    using assms(6) by (intro mult_le_mono) (simp_all add: MAX_EXPRESSION_NODES_def)
  with visit_total [OF assms(2,3,5) n] assms(4) obtain c v where
    "normalise_literal j = Inr c" "evaluate c ctx = Inr v"
    by (auto simp: total_def small_def)
  moreover from checked_condition_outcome [OF assms(1,2)] this have "\<exists>b. v = VBool b" by fastforce
  ultimately show ?thesis using that by blast
qed

text \<open>The context and condition the examples below use.\<close>

definition example_ctx :: pyval where
  "example_ctx =
     VDict [(''amount'', VNum (Dec 1500000 (- 2))), (''currency'', VStr ''ZAR''),
            (''category'', VStr ''CRYPTO''),
            (''velocity'', VDict [(''prior_count'', VNum (Dec 5 0)), (''prior_amount'', VNum (Dec 100 (- 2)))]),
            (''enrichment'', VDict [])]"

definition example_condition :: json where
  "example_condition =
     JDict [(''and'', JList
       [JDict [(''in'', JList [JDict [(''var'', JStr ''category'')], JList [JStr ''GAMBLING'', JStr ''CRYPTO'']])],
        JDict [(''>'', JList [JDict [(''var'', JStr ''amount'')], JInt 5000])]])]"

text \<open>
  C7: a condition the checker accepts compiles, and against every well-typed context its evaluation
  returns a boolean, or stops with the \<open>RuleEvaluationError\<close> of an overflowing operation: never with
  another exception, such as comparing text with a number or reading an absent variable.
\<close>

theorem checked_condition_sound:
  assumes "validate_expression condition = Inr ()" "ctx_ok ctx"
  shows "\<exists>c. normalise_literal condition = Inr c \<and>
           ((\<exists>b. evaluate c ctx = Inr (VBool b)) \<or>
            (\<exists>op. evaluate c ctx = Inl (RuleEvaluationError (ArithmeticFailed op))))"
proof -
  obtain c where "normalise_literal condition = Inr c" "outcome_ok TBoolean (evaluate c ctx)"
    using assms by (rule checked_condition_outcome)
  then show ?thesis by (cases "evaluate c ctx") auto
qed

lemma example_checked: "validate_expression example_condition = Inr ()"
  by code_simp

lemma example_ctx_ok: "ctx_ok example_ctx"
  by code_simp

theorem checked_condition_sound_witness:
  "\<exists>c. normalise_literal example_condition = Inr c \<and>
     ((\<exists>b. evaluate c example_ctx = Inr (VBool b)) \<or>
      (\<exists>op. evaluate c example_ctx = Inl (RuleEvaluationError (ArithmeticFailed op))))"
  by (rule checked_condition_sound [OF example_checked example_ctx_ok])

text \<open>
  If moreover no number of the condition and of the context exceeds \<open>10 ^ 2499\<close>, the overflow is
  impossible too: with at most 400 nodes every intermediate result stays below \<open>10 ^ 999999\<close>, and the
  evaluation returns a boolean. (A finite \<open>float\<close> is below \<open>10 ^ 309\<close> and an amount below \<open>10 ^ 15\<close>.)
\<close>

theorem checked_condition_returns:
  assumes "validate_expression condition = Inr ()" "ctx_ok ctx"
    and "ctx_bounded M ctx" "jbounded M condition" "1 \<le> M" "M \<le> 2499"
  shows "\<exists>c b. normalise_literal condition = Inr c \<and> evaluate c ctx = Inr (VBool b)"
  using checked_condition_total [OF assms] by blast

lemma example_ctx_bounded: "ctx_bounded 6 example_ctx"
  by (simp add: ctx_bounded_def VARIABLES_def lookup_var_def example_ctx_def dec_val_Dec power_int_def
      power2_eq_square)

lemma example_condition_bounded: "jbounded 6 example_condition"
  by (simp add: example_condition_def)

theorem checked_condition_returns_witness:
  "\<exists>c b. normalise_literal example_condition = Inr c \<and> evaluate c example_ctx = Inr (VBool b)"
  by (rule checked_condition_returns [OF example_checked example_ctx_ok
        example_ctx_bounded example_condition_bounded]) simp_all

end
