(* ===== verification/Expression_Semantics.thy ===== *)
theory Expression_Semantics
  imports Expression_Bounds
begin

text \<open>
  What the operators compute on numbers, against exact rational arithmetic: comparisons are exact,
  sums of money are exact up to 28 digits, and beyond that a sum is rounded.
\<close>

section \<open>Comparisons\<close>

fun cmp :: "operator \<Rightarrow> rat \<Rightarrow> rat \<Rightarrow> bool" where
  "cmp OpGt x y = (y < x)"
| "cmp OpGe x y = (y \<le> x)"
| "cmp OpLt x y = (x < y)"
| "cmp OpLe x y = (x \<le> y)"
| "cmp OpEq x y = (x = y)"
| "cmp OpNe x y = (x \<noteq> y)"
| "cmp _ x y = False"

text \<open>
  C36: comparing two numbers compares their exact values, whatever their scales and sizes, and the
  chained form of \<open><\<close> and \<open><=\<close> holds when both steps do.
\<close>

theorem comparisons_exact:
  "\<forall>a b c. (\<forall>op. op \<notin> {OpGt, OpGe, OpLt, OpLe, OpEq, OpNe} \<or>
       apply_operator op [VNum a, VNum b] = Inr (VBool (cmp op (dec_val a) (dec_val b)))) \<and>
     apply_operator OpLt [VNum a, VNum b, VNum c] =
       Inr (VBool (dec_val a < dec_val b \<and> dec_val b < dec_val c)) \<and>
     apply_operator OpLe [VNum a, VNum b, VNum c] =
       Inr (VBool (dec_val a \<le> dec_val b \<and> dec_val b \<le> dec_val c))"
proof (intro allI conjI)
  fix a b c and op :: operator
  show "op \<notin> {OpGt, OpGe, OpLt, OpLe, OpEq, OpNe} \<or>
      apply_operator op [VNum a, VNum b] = Inr (VBool (cmp op (dec_val a) (dec_val b)))"
    by (cases op) (simp_all add: apply_operator.simps compare_def numbers_def dec_cmp_iff)
qed (simp_all add: apply_operator.simps compare_def numbers_def dec_cmp_iff)

theorem comparisons_exact_witness:
  "apply_operator OpLt [VNum (Dec 1 0), VNum (Dec 15 (- 1)), VNum (Dec 2 0)] = Inr (VBool True)"
proof -
  have "(1 :: rat) < dec_val (Dec 15 (- 1)) \<and> dec_val (Dec 15 (- 1)) < 2"
    by (simp add: dec_val_Dec power_int_def)
  with comparisons_exact [THEN spec, THEN spec, THEN spec, THEN conjunct2, THEN conjunct1,
      of "Dec 1 0" "Dec 15 (- 1)" "Dec 2 0"]
  show ?thesis by simp
qed

section \<open>Sums of money\<close>

text \<open>An amount of \<open>m\<close> cents, as the column type \<open>NUMERIC(19, 2)\<close> returns it.\<close>

definition cents :: "int \<Rightarrow> pyval" where
  "cents m = VNum (Dec m (- 2))"

lemma dec_add_zero_cents:
  "\<bar>m\<bar> < 10 ^ dec_prec \<Longrightarrow> dec_add (Dec 0 0) (Dec m (- 2)) = Inr (Dec m (- 2))"
proof -
  assume "\<bar>m\<bar> < 10 ^ dec_prec"
  then have "ndigits \<bar>m\<bar> \<le> dec_prec" by (subst ndigits_le_iff) (simp_all add: dec_prec_def)
  then show ?thesis
    by (auto simp: dec_add_def dec_common_def dec_align_def dec_fix_def Let_def dec_context)
qed

lemma sum_cents:
  "\<bar>a\<bar> + sum_list (map abs ms) < 10 ^ dec_prec \<Longrightarrow>
     err_fold dec_add (Dec a (- 2)) (map (\<lambda>m. Dec m (- 2)) ms) = Inr (Dec (a + sum_list ms) (- 2))"
proof (induction ms arbitrary: a)
  case (Cons m ms)
  have "0 \<le> sum_list (map abs ms)" by (rule sum_list_nonneg) auto
  with Cons.prems have "\<bar>a + m\<bar> < 10 ^ dec_prec" by simp
  moreover have "\<bar>a + m\<bar> + sum_list (map abs ms) < 10 ^ dec_prec" using Cons.prems by simp
  ultimately show ?case using Cons.IH [of "a + m"] by (simp add: dec_add_cents add.assoc)
qed simp

text \<open>
  C37: adding amounts of money is exact as long as their absolute values add up to less than \<open>10 ^ 26\<close>:
  no cent is lost, and the sum again has two decimals.
\<close>

theorem money_sums_exact:
  assumes "ms \<noteq> []" "sum_list (map abs ms) < 10 ^ 28"
  shows "apply_operator OpAdd (map cents ms) = Inr (cents (sum_list ms))"
proof -
  obtain m ms' where ms: "ms = m # ms'" using assms(1) by (cases ms) auto
  have "0 \<le> sum_list (map abs ms')" by (rule sum_list_nonneg) auto
  with assms(2) ms have b: "\<bar>m\<bar> < 10 ^ dec_prec" "\<bar>m\<bar> + sum_list (map abs ms') < 10 ^ dec_prec"
    by (simp_all add: dec_prec_def)
  have "numbers OpAdd (map cents ms) = Inr (map (\<lambda>m. Dec m (- 2)) ms)"
    using numbers_map [of OpAdd "map (\<lambda>m. Dec m (- 2)) ms"] by (simp add: cents_def [abs_def] comp_def)
  then show ?thesis
    by (simp add: apply_operator.simps fold_sum_def ms dec_add_zero_cents [OF b(1)] sum_cents [OF b(2)]
        arith_def cents_def)
qed

theorem money_sums_exact_witness:
  "apply_operator OpAdd (map cents [4999999, 2]) = Inr (cents 5000001)"
  using money_sums_exact [of "[4999999, 2]"] by simp

section \<open>Rounding\<close>

definition big_sum_condition :: json where
  "big_sum_condition =
     JDict [(''=='', JList [JDict [(''+'', JList [JInt (10 ^ 28), JInt 1])], JInt (10 ^ 28 + 1)])]"

text \<open>
  Beyond 28 digits a sum is rounded: the checked condition \<open>10^28 + 1 == 10^28 + 1\<close>, whose right
  side is a literal, is accepted by the checker and evaluates to false.
\<close>

theorem sums_round_at_28_digits:
  "validate_expression big_sum_condition = Inr () \<and>
     (\<exists>c. normalise_literal big_sum_condition = Inr c \<and> evaluate c example_ctx = Inr (VBool False))"
proof
  show "validate_expression big_sum_condition = Inr ()" by code_simp
  have "(case normalise_literal big_sum_condition of Inl _ \<Rightarrow> False
      | Inr c \<Rightarrow> (case evaluate c example_ctx of Inr (VBool b) \<Rightarrow> \<not> b | _ \<Rightarrow> False))" by code_simp
  then show "\<exists>c. normalise_literal big_sum_condition = Inr c \<and> evaluate c example_ctx = Inr (VBool False)"
    by (auto split: sum.splits pyval.splits)
qed

end
