(* ===== verification/Rule_Sets.thy ===== *)
theory Rule_Sets
  imports Expression_Semantics "HOL-Library.List_Lexorder" "HOL-Library.Char_ord"
begin

text \<open>
  Rule sets (\<open>app/rules.py\<close>): the two pydantic models with the constraints their fields declare, the
  compiled form, scoring (\<open>evaluate_rule_set\<close>), publishing checks (\<open>parse_rule_set_definition\<close>), the
  content hash, and the checks every load repeats (\<open>load_stored_definition\<close>).

  Pydantic is not part of the repository. What the models declare is written out here; how pydantic
  turns a JSON value into an \<open>int\<close> is the parameter \<open>coerce_int\<close>. SHA-256 and the text of a \<open>float\<close>
  are the parameters \<open>sha256\<close> and \<open>repr_float\<close>.
\<close>

section \<open>Models\<close>

record rule_definition =
  rule_code :: string
  rule_description :: string
  rule_score :: int
  rule_condition :: json

type_synonym compiled_rule = "string \<times> int \<times> pyval"

record rule_set_definition =
  velocity_window_seconds :: int
  review_threshold :: int
  reject_threshold :: int
  rules :: "rule_definition list"
  compiled :: "compiled_rule list"

datatype verdict = APPROVED | REVIEW | REJECTED

fun verdict_value :: "verdict \<Rightarrow> string" where
  "verdict_value APPROVED = ''APPROVED''"
| "verdict_value REVIEW = ''REVIEW''"
| "verdict_value REJECTED = ''REJECTED''"

definition verdict_for :: "rule_set_definition \<Rightarrow> int \<Rightarrow> verdict" where
  "verdict_for d risk_score =
     (if risk_score \<ge> reject_threshold d then REJECTED
      else if risk_score \<ge> review_threshold d then REVIEW
      else APPROVED)"

section \<open>Validation errors\<close>

text \<open>Pydantic checks every field and reports all the errors it finds, each with its location.\<close>

datatype problem =
    Missing | ExtraForbidden | WrongJsonType | PatternMismatch | StringTooShort | StringTooLong
  | TooSmall | TooLarge | TooFewItems | TooManyItems
  | ConditionInvalid rule_error
  | DuplicateCodes "string list"
  | ThresholdOrder
  | NotANumber
  | TooManyDigits | TooManyDecimals | BinaryFloat | WrongLiteral | NotADateTime

type_synonym field_error = "string list \<times> problem"
type_synonym 'a checked = "field_error list + 'a"

fun both :: "'a checked \<Rightarrow> 'b checked \<Rightarrow> ('a \<times> 'b) checked" where
  "both (Inl es) (Inl fs) = Inl (es @ fs)"
| "both (Inl es) (Inr _) = Inl es"
| "both (Inr _) (Inl fs) = Inl fs"
| "both (Inr x) (Inr y) = Inr (x, y)"

lemma both_Inr [simp]: "both m n = Inr p \<longleftrightarrow> (\<exists>x y. m = Inr x \<and> n = Inr y \<and> p = (x, y))"
  by (cases m; cases n) auto

definition located :: "string \<Rightarrow> 'a checked \<Rightarrow> 'a checked" where
  "located name r = (case r of Inl es \<Rightarrow> Inl (map (\<lambda>(loc, p). (name # loc, p)) es) | Inr x \<Rightarrow> Inr x)"

lemma located_Inr [simp]: "located name r = Inr x \<longleftrightarrow> r = Inr x"
  by (auto simp: located_def split: sum.splits)

definition model_field :: "(string \<times> json) list \<Rightarrow> string \<Rightarrow> (json \<Rightarrow> 'a checked) \<Rightarrow> 'a checked" where
  "model_field kvs name check =
     (case map_of kvs name of
        None \<Rightarrow> Inl [([name], Missing)]
      | Some v \<Rightarrow> located name (check v))"

lemma model_field_Inr [simp]:
  "model_field kvs name check = Inr x \<longleftrightarrow> (\<exists>v. map_of kvs name = Some v \<and> check v = Inr x)"
  by (auto simp: model_field_def split: option.splits)

definition forbid_extra :: "string list \<Rightarrow> (string \<times> json) list \<Rightarrow> unit checked" where
  "forbid_extra names kvs =
     (let extra = filter (\<lambda>k. k \<notin> set names) (map fst kvs)
      in if extra = [] then Inr () else Inl (map (\<lambda>k. ([k], ExtraForbidden)) extra))"

fun all_checked :: "nat \<Rightarrow> (json \<Rightarrow> 'a checked) \<Rightarrow> json list \<Rightarrow> 'a list checked" where
  "all_checked i check [] = Inr []"
| "all_checked i check (x # xs) =
     err_bind (both (located (show_nat i) (check x)) (all_checked (Suc i) check xs))
       (\<lambda>(y, ys). Inr (y # ys))"

lemma all_checked_Inr: "all_checked i check xs = Inr ys \<longleftrightarrow> list_all2 (\<lambda>x y. check x = Inr y) xs ys"
  by (induction xs arbitrary: i ys) (auto simp: list_all2_Cons1)

section \<open>Field constraints\<close>

definition check_int :: "(json \<Rightarrow> int option) \<Rightarrow> int \<Rightarrow> int option \<Rightarrow> json \<Rightarrow> int checked" where
  "check_int coerce_int lo hi v =
     (case coerce_int v of
        None \<Rightarrow> Inl [([], WrongJsonType)]
      | Some n \<Rightarrow>
          if (case hi of None \<Rightarrow> False | Some h \<Rightarrow> h < n) then Inl [([], TooLarge)]
          else if n < lo then Inl [([], TooSmall)]
          else Inr n)"

definition is_upper :: "char \<Rightarrow> bool" where
  "is_upper c \<longleftrightarrow> (65 :: nat) \<le> of_char c \<and> (of_char c :: nat) \<le> 90"

definition is_digit :: "char \<Rightarrow> bool" where
  "is_digit c \<longleftrightarrow> (48 :: nat) \<le> of_char c \<and> (of_char c :: nat) \<le> 57"

text \<open>\<open>^[A-Z][A-Z0-9_]{2,63}$\<close>, matched by pydantic's engine, whose \<open>$\<close> is the end of the text.\<close>

definition code_pattern :: "string \<Rightarrow> bool" where
  "code_pattern s \<longleftrightarrow>
     (case s of
        [] \<Rightarrow> False
      | c # cs \<Rightarrow> is_upper c \<and> 2 \<le> length cs \<and> length cs \<le> 63 \<and>
          list_all (\<lambda>x. is_upper x \<or> is_digit x \<or> x = CHR ''_'') cs)"

fun check_code :: "json \<Rightarrow> string checked" where
  "check_code (JStr s) = (if code_pattern s then Inr s else Inl [([], PatternMismatch)])"
| "check_code _ = Inl [([], WrongJsonType)]"

fun check_description :: "json \<Rightarrow> string checked" where
  "check_description (JStr s) =
     (if length s < 1 then Inl [([], StringTooShort)]
      else if 500 < length s then Inl [([], StringTooLong)]
      else Inr s)"
| "check_description _ = Inl [([], WrongJsonType)]"

fun validate_condition :: "json \<Rightarrow> json checked" where
  "validate_condition (JDict kvs) =
     (case validate_expression (JDict kvs) of
        Inl (loc, e) \<Rightarrow> Inl [([], ConditionInvalid e)]
      | Inr _ \<Rightarrow> Inr (JDict kvs))"
| "validate_condition _ = Inl [([], WrongJsonType)]"

fun validate_rule :: "(json \<Rightarrow> int option) \<Rightarrow> json \<Rightarrow> rule_definition checked" where
  "validate_rule coerce_int (JDict kvs) =
     err_bind
       (both (model_field kvs ''code'' check_code)
             (both (model_field kvs ''description'' check_description)
               (both (model_field kvs ''score'' (check_int coerce_int 0 (Some 1000)))
                 (both (model_field kvs ''condition'' validate_condition)
                   (forbid_extra [''code'', ''description'', ''score'', ''condition''] kvs)))))
       (\<lambda>(c, d, s, cond, _).
          Inr \<lparr>rule_code = c, rule_description = d, rule_score = s, rule_condition = cond\<rparr>)"
| "validate_rule coerce_int _ = Inl [([], WrongJsonType)]"

text \<open>\<open>_unique_codes\<close>\<close>

definition duplicated :: "string list \<Rightarrow> string list" where
  "duplicated codes = sort (remdups (filter (\<lambda>c. 1 < count_list codes c) codes))"

definition unique_codes :: "rule_definition list \<Rightarrow> rule_definition list checked" where
  "unique_codes rs =
     (let duplicates = duplicated (map rule_code rs)
      in if duplicates \<noteq> [] then Inl [([], DuplicateCodes duplicates)] else Inr rs)"

fun check_rules :: "(json \<Rightarrow> int option) \<Rightarrow> json \<Rightarrow> rule_definition list checked" where
  "check_rules coerce_int (JList xs) =
     (if 50 < length xs then Inl [([], TooManyItems)]
      else err_bind (all_checked 0 (validate_rule coerce_int) xs)
             (\<lambda>rs. if length rs < 1 then Inl [([], TooFewItems)] else unique_codes rs))"
| "check_rules coerce_int _ = Inl [([], WrongJsonType)]"

text \<open>
  \<open>model_post_init\<close>. A literal that cannot be compiled has already been refused with its rule
  (\<open>validated_compiles\<close> below), so the error branch is never taken.
\<close>

definition compile_rules :: "rule_definition list \<Rightarrow> literal_error + compiled_rule list" where
  "compile_rules rs =
     err_map (\<lambda>r. err_bind (normalise_literal (rule_condition r))
                    (\<lambda>c. Inr (rule_code r, rule_score r, c))) rs"

text \<open>\<open>RuleSetDefinition.model_validate\<close>\<close>

fun model_validate :: "(json \<Rightarrow> int option) \<Rightarrow> json \<Rightarrow> rule_set_definition checked" where
  "model_validate coerce_int (JDict kvs) =
     err_bind
       (both (model_field kvs ''velocity_window_seconds'' (check_int coerce_int 1 (Some 86400)))
             (both (model_field kvs ''review_threshold'' (check_int coerce_int 1 None))
               (both (model_field kvs ''reject_threshold'' (check_int coerce_int 1 None))
                 (both (model_field kvs ''rules'' (check_rules coerce_int))
                   (forbid_extra [''velocity_window_seconds'', ''review_threshold'',
                      ''reject_threshold'', ''rules''] kvs)))))
       (\<lambda>(w, rv, rj, rs, _).
          (case compile_rules rs of
             Inl _ \<Rightarrow> Inl [([''rules''], NotANumber)]
           | Inr cs \<Rightarrow>
               if rj < rv then Inl [([], ThresholdOrder)]
               else Inr \<lparr>velocity_window_seconds = w, review_threshold = rv, reject_threshold = rj,
                          rules = rs, compiled = cs\<rparr>))"
| "model_validate coerce_int _ = Inl [([], WrongJsonType)]"

section \<open>Scoring\<close>

record evaluation_context =
  ctx_amount :: decimal
  ctx_currency :: string
  ctx_category :: string
  ctx_prior_count :: int
  ctx_prior_amount :: decimal
  ctx_channel :: "string option"
  ctx_country :: "string option"
  ctx_enrichment :: "(string \<times> json) list"

text \<open>\<open>EvaluationContext.as_variables\<close>: absent optional values are left out.\<close>

definition optional_entry :: "string \<Rightarrow> string option \<Rightarrow> (string \<times> pyval) list" where
  "optional_entry name v = (case v of None \<Rightarrow> [] | Some s \<Rightarrow> [(name, VStr s)])"

definition as_variables :: "evaluation_context \<Rightarrow> literal_error + pyval" where
  "as_variables c =
     err_bind
       (err_map (\<lambda>(n, x). err_bind (normalise_literal x) (\<lambda>v. Inr (n, v)))
          (filter (\<lambda>(n, x). x \<noteq> JNull) (ctx_enrichment c)))
       (\<lambda>enrichment.
          Inr (VDict
            ([(''amount'', VNum (ctx_amount c)),
              (''currency'', VStr (ctx_currency c)),
              (''category'', VStr (ctx_category c)),
              (''velocity'', VDict
                 [(''prior_count'', VNum (Dec (ctx_prior_count c) 0)),
                  (''prior_amount'', VNum (ctx_prior_amount c))]),
              (''enrichment'', VDict enrichment)] @
             optional_entry ''channel'' (ctx_channel c) @
             optional_entry ''country'' (ctx_country c))))"

record assessment =
  triggered_rules :: "string list"
  risk_score :: int
  assessed_verdict :: verdict

definition is_fraud :: "assessment \<Rightarrow> bool" where
  "is_fraud a \<longleftrightarrow> assessed_verdict a \<noteq> APPROVED"

text \<open>One pass of the loop of \<open>evaluate_rule_set\<close>: fire a rule and add its score.\<close>

definition fire_rule :: "pyval \<Rightarrow> string list \<times> int \<Rightarrow> compiled_rule \<Rightarrow> eval_error + string list \<times> int" where
  "fire_rule variables = (\<lambda>(triggered, score) (c, s, cond).
     (case evaluate cond variables of
        Inl (RuleEvaluationError r) \<Rightarrow> Inl (RuleEvaluationError (InRule c r))
      | Inl e \<Rightarrow> Inl e
      | Inr fired \<Rightarrow> Inr (if truthy fired then (triggered @ [c], score + s) else (triggered, score))))"

definition evaluate_compiled :: "compiled_rule list \<Rightarrow> pyval \<Rightarrow> eval_error + string list \<times> int" where
  "evaluate_compiled cs variables = err_fold (fire_rule variables) ([], 0) cs"

definition evaluate_rule_set :: "rule_set_definition \<Rightarrow> evaluation_context \<Rightarrow> eval_error + assessment" where
  "evaluate_rule_set d c =
     (case as_variables c of
        Inl NonFiniteLiteral \<Rightarrow> Inl PyValueError
      | Inr variables \<Rightarrow>
          err_bind (evaluate_compiled (compiled d) variables)
            (\<lambda>(triggered, score).
               Inr \<lparr>triggered_rules = triggered, risk_score = score,
                    assessed_verdict = verdict_for d score\<rparr>))"

definition DRY_RUN_CONTEXT :: evaluation_context where
  "DRY_RUN_CONTEXT =
     \<lparr>ctx_amount = Dec 10000 (- 2), ctx_currency = ''ZAR'', ctx_category = ''GROCERIES'',
      ctx_prior_count = 1, ctx_prior_amount = Dec 10000 (- 2), ctx_channel = None,
      ctx_country = None, ctx_enrichment = []\<rparr>"

section \<open>Publishing\<close>

text \<open>The details of \<open>InvalidRuleSetError\<close>: what validation reported, or the failure of the dry run.\<close>

datatype invalid_rule_set = Invalid "field_error list" | DryRunFailed eval_reason

datatype parse_error = InvalidRuleSetError invalid_rule_set | DryRunCrashed eval_error

definition dry_run :: "rule_set_definition \<Rightarrow> eval_error + assessment" where
  "dry_run d = evaluate_rule_set d DRY_RUN_CONTEXT"

definition parse_rule_set_definition :: "(json \<Rightarrow> int option) \<Rightarrow> json \<Rightarrow> parse_error + rule_set_definition" where
  "parse_rule_set_definition coerce_int raw =
     (case model_validate coerce_int raw of
        Inl es \<Rightarrow> Inl (InvalidRuleSetError (Invalid es))
      | Inr d \<Rightarrow>
          (case dry_run d of
             Inl (RuleEvaluationError r) \<Rightarrow> Inl (InvalidRuleSetError (DryRunFailed r))
           | Inl e \<Rightarrow> Inl (DryRunCrashed e)
           | Inr _ \<Rightarrow> Inr d))"

section \<open>The content hash\<close>

text \<open>A JSON string as \<open>json.dumps\<close> writes it: everything outside printable ASCII is escaped.\<close>

definition hex_digit :: "nat \<Rightarrow> char" where
  "hex_digit n = (if n < 10 then char_of (48 + n) else char_of (87 + n))"

definition escape_char :: "char \<Rightarrow> string" where
  "escape_char c =
     (let n = (of_char c :: nat)
      in if c = CHR ''\"'' then [CHR 0x5C, CHR 0x22]
         else if n = 92 then [CHR 0x5C, CHR 0x5C]
         else if n = 10 then [CHR 0x5C, CHR ''n'']
         else if n = 13 then [CHR 0x5C, CHR ''r'']
         else if n = 9 then [CHR 0x5C, CHR ''t'']
         else if n = 8 then [CHR 0x5C, CHR ''b'']
         else if n = 12 then [CHR 0x5C, CHR ''f'']
         else if 32 \<le> n \<and> n \<le> 126 then [c]
         else [CHR 0x5C, CHR ''u'', CHR ''0'', CHR ''0'', hex_digit (n div 16), hex_digit (n mod 16)])"

definition dump_string :: "string \<Rightarrow> string" where
  "dump_string s = CHR 0x22 # concat (map escape_char s) @ [CHR 0x22]"

fun join :: "string \<Rightarrow> string list \<Rightarrow> string" where
  "join sep [] = []"
| "join sep [x] = x"
| "join sep (x # xs) = x @ sep @ join sep xs"

text \<open>
  \<open>json.dumps(raw, sort_keys=True, separators=(",", ":"))\<close>. A \<open>Decimal\<close> is not serialisable; stored
  definitions contain none.
\<close>

fun canonical :: "(pyfloat \<Rightarrow> string) \<Rightarrow> json \<Rightarrow> string option" where
  "canonical repr_float JNull = Some ''null''"
| "canonical repr_float (JBool b) = Some (if b then ''true'' else ''false'')"
| "canonical repr_float (JInt n) = Some (show_int n)"
| "canonical repr_float (JFloat f) = Some (repr_float f)"
| "canonical repr_float (JDec d) = None"
| "canonical repr_float (JStr s) = Some (dump_string s)"
| "canonical repr_float (JList xs) =
     map_option (\<lambda>ys. ''['' @ join '','' ys @ '']'') (those (map (canonical repr_float) xs))"
| "canonical repr_float (JDict kvs) =
     map_option (\<lambda>ps. ''{'' @ join '','' (map (\<lambda>(k, y). dump_string k @ '':'' @ y) (sort_key fst ps)) @ ''}'')
       (those (map (\<lambda>(k, x). map_option (Pair k) (canonical repr_float x)) kvs))"

definition definition_json_hash ::
    "(string \<Rightarrow> string) \<Rightarrow> (pyfloat \<Rightarrow> string) \<Rightarrow> json \<Rightarrow> string option" where
  "definition_json_hash sha256 repr_float raw = map_option sha256 (canonical repr_float raw)"

text \<open>\<open>model_dump(mode="json")\<close>: the declared fields in their order; \<open>_compiled\<close> is private.\<close>

definition dump_rule :: "rule_definition \<Rightarrow> json" where
  "dump_rule r =
     JDict [(''code'', JStr (rule_code r)), (''description'', JStr (rule_description r)),
            (''score'', JInt (rule_score r)), (''condition'', rule_condition r)]"

definition model_dump :: "rule_set_definition \<Rightarrow> json" where
  "model_dump d =
     JDict [(''velocity_window_seconds'', JInt (velocity_window_seconds d)),
            (''review_threshold'', JInt (review_threshold d)),
            (''reject_threshold'', JInt (reject_threshold d)),
            (''rules'', JList (map dump_rule (rules d)))]"

definition content_hash ::
    "(string \<Rightarrow> string) \<Rightarrow> (pyfloat \<Rightarrow> string) \<Rightarrow> rule_set_definition \<Rightarrow> string option" where
  "content_hash sha256 repr_float d = definition_json_hash sha256 repr_float (model_dump d)"

section \<open>Loading\<close>

datatype corruption =
    HashMismatch | NotAValidDefinition "field_error list" | FailsDryRun eval_reason
  | NotHashable | LoadCrashed eval_error

text \<open>\<open>CorruptRuleSetError\<close>, with the label of the version and what is wrong with it.\<close>

type_synonym corrupt = "string \<times> corruption"

definition load_stored_definition ::
    "(string \<Rightarrow> string) \<Rightarrow> (pyfloat \<Rightarrow> string) \<Rightarrow> (json \<Rightarrow> int option) \<Rightarrow>
     json \<Rightarrow> string \<Rightarrow> string \<Rightarrow> corrupt + rule_set_definition" where
  "load_stored_definition sha256 repr_float coerce_int raw stored_hash label =
     (case definition_json_hash sha256 repr_float raw of
        None \<Rightarrow> Inl (label, NotHashable)
      | Some h \<Rightarrow>
          if h \<noteq> stored_hash then Inl (label, HashMismatch)
          else
            (case model_validate coerce_int raw of
               Inl es \<Rightarrow> Inl (label, NotAValidDefinition es)
             | Inr d \<Rightarrow>
                 (case dry_run d of
                    Inl (RuleEvaluationError r) \<Rightarrow> Inl (label, FailsDryRun r)
                  | Inl e \<Rightarrow> Inl (label, LoadCrashed e)
                  | Inr _ \<Rightarrow> Inr d)))"

record rule_set =
  rs_key :: string
  rs_version :: int
  rs_definition :: rule_set_definition
  rs_content_hash :: string
  rs_description :: string
  rs_created_by :: string
  rs_created_at :: int

definition version_label :: "string \<Rightarrow> int \<Rightarrow> string" where
  "version_label key version = key @ ''@v'' @ show_int version"

definition rule_set_label :: "rule_set \<Rightarrow> string" where
  "rule_set_label r = version_label (rs_key r) (rs_version r)"

section \<open>The default rule set\<close>

definition default_rule :: "string \<Rightarrow> string \<Rightarrow> int \<Rightarrow> json \<Rightarrow> json" where
  "default_rule c d s cond =
     JDict [(''code'', JStr c), (''description'', JStr d), (''score'', JInt s), (''condition'', cond)]"

definition DEFAULT_RULE_SET_DEFINITION :: json where
  "DEFAULT_RULE_SET_DEFINITION =
     JDict [(''velocity_window_seconds'', JInt 60),
            (''review_threshold'', JInt 30),
            (''reject_threshold'', JInt 75),
            (''rules'', JList
      [default_rule ''HIGH_VALUE_THRESHOLD'' ''A single transaction of R10,000.00 or more.'' 40
         (JDict [(''>='', JList [JDict [(''var'', JStr ''amount'')], JInt 10000])]),
       default_rule ''RISKY_CATEGORY_LIMIT''
         ''More than R5,000.00 in a high-risk category (GAMBLING, CRYPTO).'' 50
         (JDict [(''and'', JList
            [JDict [(''in'', JList [JDict [(''var'', JStr ''category'')],
                                    JList [JStr ''GAMBLING'', JStr ''CRYPTO'']])],
             JDict [(''>'', JList [JDict [(''var'', JStr ''amount'')], JInt 5000])]])]),
       default_rule ''VELOCITY_COUNT_EXCEEDED''
         ''More than 5 transactions by the same user within the velocity window.'' 40
         (JDict [(''>'', JList [JDict [(''+'', JList [JDict [(''var'', JStr ''velocity.prior_count'')], JInt 1])],
                                JInt 5])]),
       default_rule ''VELOCITY_AMOUNT''
         ''More than R50,000.00 spent by the same user within the velocity window.'' 50
         (JDict [(''>'', JList [JDict [(''+'', JList [JDict [(''var'', JStr ''velocity.prior_amount'')],
                                                      JDict [(''var'', JStr ''amount'')]])],
                                JInt 50000])]),
       default_rule ''FOREIGN_CURRENCY''
         ''Not in ZAR: the amount thresholds above do not apply, so send it for review.'' 30
         (JDict [(''!='', JList [JDict [(''var'', JStr ''currency'')], JStr ''ZAR''])])])]"

end
