(* ===== verification/Scoring.thy ===== *)
theory Scoring
  imports Rule_Sets
begin

text \<open>
  What the checks of a rule set promise (\<open>valid_definition\<close>), that a checked definition survives
  being stored and loaded, and what scoring computes: the rules that fire, their total score, the
  verdict, and that scoring a checked rule set never raises anything but a decimal overflow.
\<close>

section \<open>Checked rule sets\<close>

definition valid_rule :: "rule_definition \<Rightarrow> bool" where
  "valid_rule r \<longleftrightarrow>
     code_pattern (rule_code r) \<and>
     1 \<le> length (rule_description r) \<and> length (rule_description r) \<le> 500 \<and>
     0 \<le> rule_score r \<and> rule_score r \<le> 1000 \<and>
     (case rule_condition r of JDict _ \<Rightarrow> True | _ \<Rightarrow> False) \<and>
     validate_expression (rule_condition r) = Inr ()"

definition valid_definition :: "rule_set_definition \<Rightarrow> bool" where
  "valid_definition d \<longleftrightarrow>
     1 \<le> velocity_window_seconds d \<and> velocity_window_seconds d \<le> 86400 \<and>
     1 \<le> review_threshold d \<and> review_threshold d \<le> reject_threshold d \<and>
     1 \<le> length (rules d) \<and> length (rules d) \<le> 50 \<and>
     list_all valid_rule (rules d) \<and> distinct (map rule_code (rules d)) \<and>
     compile_rules (rules d) = Inr (compiled d)"

lemma check_int_Inr [simp]:
  "check_int ci lo hi v = Inr n \<longleftrightarrow>
     ci v = Some n \<and> lo \<le> n \<and> (case hi of None \<Rightarrow> True | Some h \<Rightarrow> n \<le> h)"
  by (auto simp: check_int_def split: option.splits)

lemma check_code_Inr [simp]: "check_code v = Inr s \<longleftrightarrow> v = JStr s \<and> code_pattern s"
  by (cases v) auto

lemma check_description_Inr [simp]:
  "check_description v = Inr s \<longleftrightarrow> v = JStr s \<and> 1 \<le> length s \<and> length s \<le> 500"
  by (cases v) (auto simp: Suc_le_eq not_less)

lemma validate_condition_Inr [simp]:
  "validate_condition v = Inr c \<longleftrightarrow> v = c \<and> (\<exists>kvs. c = JDict kvs) \<and> validate_expression c = Inr ()"
  by (cases v) (auto split: sum.splits)

lemma forbid_extra_Inr [simp]: "forbid_extra names kvs = Inr u \<longleftrightarrow> fst ` set kvs \<subseteq> set names"
  by (auto simp: forbid_extra_def Let_def filter_empty_conv)

lemma validate_rule_valid: "validate_rule ci j = Inr r \<Longrightarrow> valid_rule r"
  by (cases j) (auto simp: valid_rule_def)

lemma count_list_distinct: "distinct xs \<longleftrightarrow> (\<forall>x \<in> set xs. count_list xs x \<le> 1)"
proof (induction xs)
  case (Cons x xs)
  have "(\<forall>y \<in> set (x # xs). count_list (x # xs) y \<le> 1) \<longleftrightarrow>
      x \<notin> set xs \<and> (\<forall>y \<in> set xs. count_list xs y \<le> 1)"
    by (auto simp: count_list_0_iff)
  with Cons show ?case by simp
qed simp

lemma duplicated_Nil: "duplicated codes = [] \<longleftrightarrow> distinct codes"
proof -
  have "duplicated codes = [] \<longleftrightarrow> set (duplicated codes) = {}" by simp
  also have "\<dots> \<longleftrightarrow> (\<forall>c \<in> set codes. count_list codes c \<le> 1)"
    by (auto simp: duplicated_def not_less)
  finally show ?thesis by (simp add: count_list_distinct)
qed

lemma all_checked_valid:
  "list_all2 (\<lambda>x y. validate_rule ci x = Inr y) xs rs \<Longrightarrow> list_all valid_rule rs"
  by (induction rule: list_all2_induct) (auto intro: validate_rule_valid)

lemma check_rules_valid:
  "check_rules ci j = Inr rs \<Longrightarrow>
     list_all valid_rule rs \<and> distinct (map rule_code rs) \<and> 1 \<le> length rs \<and> length rs \<le> 50"
  by (cases j) (auto simp: all_checked_Inr unique_codes_def Let_def duplicated_Nil not_less Suc_le_eq
      split: if_splits dest: list_all2_lengthD all_checked_valid)

lemma model_validate_valid: "model_validate ci j = Inr d \<Longrightarrow> valid_definition d"
  by (cases j) (auto simp: valid_definition_def dest!: check_rules_valid simp del: check_rules.simps)

section \<open>Storing and loading a checked definition\<close>

lemma validate_dumped_rule:
  assumes "valid_rule r" "\<And>n. ci (JInt n) = Some n"
  shows "validate_rule ci (dump_rule r) = Inr r"
  using assms by (auto simp: dump_rule_def valid_rule_def split: json.splits)

lemma all_dumped_rules:
  assumes "list_all valid_rule rs" "\<And>n. ci (JInt n) = Some n"
  shows "all_checked i (validate_rule ci) (map dump_rule rs) = Inr rs"
  using assms(1) by (simp add: all_checked_Inr list_all2_map1 list_all2_same list_all_iff
      validate_dumped_rule [OF _ assms(2)])

lemma model_validate_dump:
  assumes "valid_definition d" "\<And>n. ci (JInt n) = Some n"
  shows "model_validate ci (model_dump d) = Inr d"
proof -
  have "check_rules ci (JList (map dump_rule (rules d))) = Inr (rules d)"
    using assms by (auto simp: valid_definition_def all_dumped_rules unique_codes_def duplicated_Nil)
  with assms show ?thesis by (auto simp: model_dump_def valid_definition_def simp del: check_rules.simps)
qed

lemma parse_accepts:
  "parse_rule_set_definition ci raw = Inr d \<longleftrightarrow>
     model_validate ci raw = Inr d \<and> (\<exists>a. dry_run d = Inr a)"
proof (cases "model_validate ci raw")
  case (Inr d')
  show ?thesis
  proof (cases "dry_run d'")
    case (Inl e)
    with Inr show ?thesis by (cases e) (auto simp: parse_rule_set_definition_def)
  qed (auto simp: parse_rule_set_definition_def Inr)
qed (simp add: parse_rule_set_definition_def)

lemma load_accepts:
  "load_stored_definition sha256 fl ci raw h label = Inr d \<longleftrightarrow>
     definition_json_hash sha256 fl raw = Some h \<and> model_validate ci raw = Inr d \<and>
     (\<exists>a. dry_run d = Inr a)"
proof (cases "model_validate ci raw")
  case (Inr d')
  show ?thesis
  proof (cases "dry_run d'")
    case (Inl e)
    with Inr show ?thesis by (cases e) (auto simp: load_stored_definition_def split: option.split)
  qed (auto simp: load_stored_definition_def Inr split: option.split)
qed (auto simp: load_stored_definition_def split: option.split)

text \<open>A document without a \<open>Decimal\<close> (any document \<open>json.loads\<close> returns by default) has a hash.\<close>

fun json_plain :: "json \<Rightarrow> bool" where
  "json_plain (JDec d) = False"
| "json_plain (JList xs) = list_all (\<lambda>b. b) (map json_plain xs)"
| "json_plain (JDict kvs) = list_all (\<lambda>b. b) (map (\<lambda>(k, x). json_plain x) kvs)"
| "json_plain _ = True"

lemma those_total: "(\<And>x. x \<in> set xs \<Longrightarrow> x \<noteq> None) \<Longrightarrow> those xs \<noteq> None"
  by (induction xs) (auto split: option.split)

lemma canonical_total: "json_plain j \<Longrightarrow> canonical fl j \<noteq> None"
proof (induction fl j rule: canonical.induct)
  case (7 fl xs)
  then have "those (map (canonical fl) xs) \<noteq> None" by (intro those_total) (auto simp: list_all_iff)
  then show ?case by simp
next
  case (8 fl kvs)
  then have "those (map (\<lambda>(k, x). map_option (Pair k) (canonical fl x)) kvs) \<noteq> None"
    by (intro those_total) (fastforce simp: list_all_iff)
  then show ?case by simp
qed auto

lemma content_hash_total: "json_plain (model_dump d) \<Longrightarrow> \<exists>h. content_hash sha256 fl d = Some h"
  using canonical_total by (auto simp: content_hash_def definition_json_hash_def)

section \<open>The order of verdicts\<close>

instantiation verdict :: linorder
begin

definition less_eq_verdict :: "verdict \<Rightarrow> verdict \<Rightarrow> bool" where
  "less_eq_verdict v w \<longleftrightarrow> v = APPROVED \<or> w = REJECTED \<or> v = w"

definition less_verdict :: "verdict \<Rightarrow> verdict \<Rightarrow> bool" where
  "less_verdict v w \<longleftrightarrow> v \<le> w \<and> \<not> w \<le> (v :: verdict)"

instance
  by standard (auto simp: less_eq_verdict_def less_verdict_def intro: verdict.exhaust)

end

text \<open>A higher score never gets a milder verdict, and fraud is REVIEW or worse.\<close>

lemma verdict_for_mono:
  "review_threshold d \<le> reject_threshold d \<Longrightarrow> m \<le> n \<Longrightarrow> verdict_for d m \<le> verdict_for d n"
  by (auto simp: verdict_for_def less_eq_verdict_def)

lemma is_fraud_order: "is_fraud a \<longleftrightarrow> REVIEW \<le> assessed_verdict a"
  by (cases "assessed_verdict a") (simp_all add: is_fraud_def less_eq_verdict_def)

section \<open>What scoring computes\<close>

definition fires :: "pyval \<Rightarrow> compiled_rule \<Rightarrow> bool" where
  "fires variables = (\<lambda>(_, _, cond). \<exists>v. evaluate cond variables = Inr v \<and> truthy v)"

lemma fire_rule_Inr:
  "fire_rule vars (tr, sc) (c, s, cond) = Inr (tr', sc') \<longleftrightarrow>
     (\<exists>v. evaluate cond vars = Inr v) \<and>
     (tr', sc') = (if fires vars (c, s, cond) then (tr @ [c], sc + s) else (tr, sc))"
  by (cases "evaluate cond vars") (auto simp: fire_rule_def fires_def split: eval_error.splits)

lemma fire_rule_Inl:
  "fire_rule vars (tr, sc) (c, s, cond) = Inl e \<longleftrightarrow>
     (\<exists>e'. evaluate cond vars = Inl e' \<and>
        e = (case e' of RuleEvaluationError r \<Rightarrow> RuleEvaluationError (InRule c r) | _ \<Rightarrow> e'))"
  by (cases "evaluate cond vars") (auto simp: fire_rule_def split: eval_error.splits)

lemma fired_rules:
  "err_fold (fire_rule vars) (tr, sc) cs = Inr (tr', sc') \<longleftrightarrow>
     (\<forall>(c, s, cond) \<in> set cs. \<exists>v. evaluate cond vars = Inr v) \<and>
     tr' = tr @ map fst (filter (fires vars) cs) \<and>
     sc' = sc + sum_list (map (\<lambda>(c, s, cond). s) (filter (fires vars) cs))"
proof (induction cs arbitrary: tr sc)
  case (Cons r cs)
  obtain c s cond where r: "r = (c, s, cond)" by (cases r)
  show ?case
    by (cases "\<exists>v. evaluate cond vars = Inr v")
      (auto simp: r fire_rule_Inr Cons.IH add.assoc split: if_splits)
qed auto

lemma evaluate_compiled_Inr:
  "evaluate_compiled cs vars = Inr (tr, sc) \<longleftrightarrow>
     (\<forall>(c, s, cond) \<in> set cs. \<exists>v. evaluate cond vars = Inr v) \<and>
     tr = map fst (filter (fires vars) cs) \<and>
     sc = sum_list (map (\<lambda>(c, s, cond). s) (filter (fires vars) cs))"
  by (simp add: evaluate_compiled_def fired_rules)

lemma evaluate_compiled_Inl:
  assumes "evaluate_compiled cs vars = Inl e"
  shows "\<exists>(c, s, cond) \<in> set cs. \<exists>e'. evaluate cond vars = Inl e' \<and>
           e = (case e' of RuleEvaluationError r \<Rightarrow> RuleEvaluationError (InRule c r) | _ \<Rightarrow> e')"
proof -
  have "err_fold (fire_rule vars) p cs = Inl e \<Longrightarrow>
      \<exists>(c, s, cond) \<in> set cs. \<exists>e'. evaluate cond vars = Inl e' \<and>
        e = (case e' of RuleEvaluationError r \<Rightarrow> RuleEvaluationError (InRule c r) | _ \<Rightarrow> e')" for p
  proof (induction cs arbitrary: p)
    case (Cons r cs)
    obtain c s cond where r: "r = (c, s, cond)" by (cases r)
    from Cons.prems consider "fire_rule vars p r = Inl e" | p' where "err_fold (fire_rule vars) p' cs = Inl e"
      by auto
    then show ?case
    proof cases
      case 1
      then show ?thesis by (cases p) (auto simp: r fire_rule_Inl)
    next
      case 2
      from Cons.IH [OF this] show ?thesis by auto
    qed
  qed simp
  with assms show ?thesis by (simp add: evaluate_compiled_def)
qed

section \<open>The variables of a transaction\<close>

text \<open>
  The enrichment of a parsed event: known features with values of their declared type. What pydantic
  guarantees of \<open>Enrichment\<close> (see \<open>Events\<close>).
\<close>

definition feature_ok :: "string \<Rightarrow> json \<Rightarrow> bool" where
  "feature_ok n j \<longleftrightarrow>
     (case j of
        JNull \<Rightarrow> True
      | JBool _ \<Rightarrow> n \<in> {''is_new_merchant_for_user'', ''is_travel_itinerary_active''}
      | JInt _ \<Rightarrow> n \<in> {''distance_from_last_tx_km'', ''minutes_since_last_tx'', ''user_historical_avg_spend''}
      | JDec _ \<Rightarrow> n \<in> {''distance_from_last_tx_km'', ''minutes_since_last_tx'', ''user_historical_avg_spend''}
      | _ \<Rightarrow> False)"

definition context_ok :: "evaluation_context \<Rightarrow> bool" where
  "context_ok c \<longleftrightarrow> list_all (\<lambda>(n, j). feature_ok n j) (ctx_enrichment c)"

lemma feature_normalises:
  "feature_ok n j \<Longrightarrow> j \<noteq> JNull \<Longrightarrow>
     \<exists>v. normalise_literal j = Inr v \<and>
       (n \<in> {''is_new_merchant_for_user'', ''is_travel_itinerary_active''} \<and> (\<exists>b. v = VBool b) \<or>
        n \<in> {''distance_from_last_tx_km'', ''minutes_since_last_tx'', ''user_historical_avg_spend''} \<and>
          (\<exists>d. v = VNum d))"
  by (cases j) (auto simp: feature_ok_def)

lemma normalised_entries:
  assumes "err_map (\<lambda>(n, x). err_bind (normalise_literal x) (\<lambda>v. Inr (n, v))) xs = Inr ys"
    and "map_of ys n = Some v"
  shows "\<exists>j. (n, j) \<in> set xs \<and> normalise_literal j = Inr v"
  using assms by (induction xs arbitrary: ys) (auto split: if_splits)

lemma walk_end: "(case m of None \<Rightarrow> None | Some v \<Rightarrow> walk v []) = m"
  by (cases m) auto

lemma as_variables_ok:
  assumes "context_ok c"
  obtains vars where "as_variables c = Inr vars" "ctx_ok vars"
proof -
  let ?f = "\<lambda>(n, x). err_bind (normalise_literal x) (\<lambda>v. Inr (n, v))"
  let ?xs = "filter (\<lambda>(n, x). x \<noteq> JNull) (ctx_enrichment c)"
  have ok: "feature_ok n j \<and> j \<noteq> JNull" if "(n, j) \<in> set ?xs" for n j
    using assms that by (auto simp: context_ok_def list_all_iff)
  have "\<exists>ys. err_map ?f ?xs = Inr ys \<and> list_all2 (\<lambda>_ _. True) ?xs ys"
    using err_map_cases [where f = ?f and xs = ?xs and P = "\<lambda>_ _. True" and Q = "\<lambda>_. False"]
      ok feature_normalises by fastforce
  then obtain ys where ys: "err_map ?f ?xs = Inr ys" by blast
  have num: "case map_of ys n of None \<Rightarrow> \<not> required \<lparr>var_type = TNumber, required = False\<rparr>
      | Some v \<Rightarrow> has_type v (var_type \<lparr>var_type = TNumber, required = False\<rparr>)"
    if "n \<in> {''distance_from_last_tx_km'', ''minutes_since_last_tx'', ''user_historical_avg_spend''}" for n
  proof (cases "map_of ys n")
    case (Some v)
    from normalised_entries [OF ys this] obtain j where "(n, j) \<in> set ?xs" "normalise_literal j = Inr v"
      by blast
    with feature_normalises [of n j] ok [of n j] that Some show ?thesis by auto
  qed simp
  have bool: "case map_of ys n of None \<Rightarrow> \<not> required \<lparr>var_type = TBoolean, required = False\<rparr>
      | Some v \<Rightarrow> has_type v (var_type \<lparr>var_type = TBoolean, required = False\<rparr>)"
    if "n \<in> {''is_new_merchant_for_user'', ''is_travel_itinerary_active''}" for n
  proof (cases "map_of ys n")
    case (Some v)
    from normalised_entries [OF ys this] obtain j where "(n, j) \<in> set ?xs" "normalise_literal j = Inr v"
      by blast
    with feature_normalises [of n j] ok [of n j] that Some show ?thesis by auto
  qed simp
  let ?vars = "VDict ([(''amount'', VNum (ctx_amount c)), (''currency'', VStr (ctx_currency c)),
     (''category'', VStr (ctx_category c)),
     (''velocity'', VDict [(''prior_count'', VNum (Dec (ctx_prior_count c) 0)),
        (''prior_amount'', VNum (ctx_prior_amount c))]), (''enrichment'', VDict ys)] @
     optional_entry ''channel'' (ctx_channel c) @ optional_entry ''country'' (ctx_country c))"
  have "as_variables c = Inr ?vars" by (simp add: as_variables_def ys)
  moreover have "ctx_ok ?vars"
    by (cases "ctx_channel c"; cases "ctx_country c")
      (simp_all add: ctx_ok_def VARIABLES_def lookup_var_def optional_entry_def walk_end num bool)
  ultimately show ?thesis by (rule that)
qed

section \<open>Scoring a checked rule set\<close>

lemma compiled_rules:
  assumes "valid_definition d" "(c, s, cond) \<in> set (compiled d)"
  obtains r where "r \<in> set (rules d)" "valid_rule r" "c = rule_code r" "s = rule_score r"
    and "normalise_literal (rule_condition r) = Inr cond"
proof -
  from assms(1) have "compile_rules (rules d) = Inr (compiled d)" by (simp add: valid_definition_def)
  then have "list_all2 (\<lambda>r x. err_bind (normalise_literal (rule_condition r))
      (\<lambda>c. Inr (rule_code r, rule_score r, c)) = Inr x) (rules d) (compiled d)"
    by (simp only: compile_rules_def err_map_Inr_list_all2)
  from list_all2_in_set2 [OF this assms(2)] obtain r where "r \<in> set (rules d)"
    "err_bind (normalise_literal (rule_condition r)) (\<lambda>c. Inr (rule_code r, rule_score r, c)) = Inr (c, s, cond)"
    by blast
  with assms(1) that show ?thesis by (auto simp: valid_definition_def list_all_iff)
qed

lemma compiled_codes: "valid_definition d \<Longrightarrow> map fst (compiled d) = map rule_code (rules d)"
proof -
  have "compile_rules rs = Inr cs \<Longrightarrow> map fst cs = map rule_code rs" for rs cs
    by (induction rs arbitrary: cs) (auto simp: compile_rules_def)
  then show "valid_definition d \<Longrightarrow> map fst (compiled d) = map rule_code (rules d)"
    by (simp add: valid_definition_def)
qed

lemma score_bounds:
  assumes "valid_definition d"
  shows "0 \<le> sum_list (map (\<lambda>(c, s, cond). s) (filter P (compiled d)))"
    and "sum_list (map (\<lambda>(c, s, cond). s) (filter P (compiled d))) \<le> 50000"
proof -
  have each: "0 \<le> (case r of (c, s, cond) \<Rightarrow> s) \<and> (case r of (c, s, cond) \<Rightarrow> s) \<le> 1000"
    if "r \<in> set (compiled d)" for r
  proof (cases r)
    case (fields c s cond)
    with that have "(c, s, cond) \<in> set (compiled d)" by simp
    with assms obtain rl where "valid_rule rl" "s = rule_score rl" by (rule compiled_rules)
    with fields show ?thesis by (simp add: valid_rule_def)
  qed
  then show "0 \<le> sum_list (map (\<lambda>(c, s, cond). s) (filter P (compiled d)))"
    by (intro sum_list_nonneg_filter) blast
  have "length (compiled d) = length (rules d)"
    using compiled_codes [OF assms] by (metis length_map)
  with assms have len: "int (length (compiled d)) \<le> 50" by (simp add: valid_definition_def)
  have "sum_list (map (\<lambda>(c, s, cond). s) (filter P (compiled d))) \<le>
      sum_list (map (\<lambda>(c, s, cond). s) (compiled d))"
    using each by (intro sum_list_nonneg_filter) blast
  also have "\<dots> \<le> int (length (compiled d)) * 1000" using each by (intro sum_list_bound) blast
  also have "\<dots> \<le> 50000" using len by simp
  finally show "sum_list (map (\<lambda>(c, s, cond). s) (filter P (compiled d))) \<le> 50000" .
qed

lemma evaluate_rule_set_Inr:
  "evaluate_rule_set d c = Inr a \<longleftrightarrow>
     (\<exists>vars. as_variables c = Inr vars \<and>
       (\<forall>(code, s, cond) \<in> set (compiled d). \<exists>v. evaluate cond vars = Inr v) \<and>
       triggered_rules a = map fst (filter (fires vars) (compiled d)) \<and>
       risk_score a = sum_list (map (\<lambda>(code, s, cond). s) (filter (fires vars) (compiled d))) \<and>
       assessed_verdict a = verdict_for d (risk_score a))"
  by (cases "as_variables c"; cases a) (auto simp: evaluate_rule_set_def evaluate_compiled_Inr split: literal_error.split)


lemma scoring_result:
  assumes "valid_definition d" "context_ok c"
  shows "(\<exists>a. evaluate_rule_set d c = Inr a) \<or>
    (\<exists>code op. code \<in> set (map rule_code (rules d)) \<and>
       evaluate_rule_set d c = Inl (RuleEvaluationError (InRule code (ArithmeticFailed op))))"
proof (cases "evaluate_rule_set d c")
  case (Inl e)
  obtain vars where vars: "as_variables c = Inr vars" "ctx_ok vars"
    using assms(2) by (rule as_variables_ok)
  with Inl have "evaluate_compiled (compiled d) vars = Inl e" by (simp add: evaluate_rule_set_def)
  from evaluate_compiled_Inl [OF this] obtain code s cond e' where
    r: "(code, s, cond) \<in> set (compiled d)" and e': "evaluate cond vars = Inl e'"
    and e: "e = (case e' of RuleEvaluationError r \<Rightarrow> RuleEvaluationError (InRule code r) | _ \<Rightarrow> e')"
    by blast
  from assms(1) r obtain rl where rl: "rl \<in> set (rules d)" "valid_rule rl" "code = rule_code rl"
    and cond: "normalise_literal (rule_condition rl) = Inr cond" by (rule compiled_rules)
  from rl(2) have "validate_expression (rule_condition rl) = Inr ()" by (simp add: valid_rule_def)
  from checked_condition_outcome [OF this vars(2)] cond e' obtain op where
    "e' = RuleEvaluationError (ArithmeticFailed op)" by fastforce
  with Inl e rl show ?thesis by auto
qed auto

section \<open>Bounded numbers\<close>

definition context_bounded :: "nat \<Rightarrow> evaluation_context \<Rightarrow> bool" where
  "context_bounded M c \<longleftrightarrow>
     \<bar>dec_val (ctx_amount c)\<bar> \<le> 10 ^ M \<and> \<bar>dec_val (ctx_prior_amount c)\<bar> \<le> 10 ^ M \<and>
     \<bar>ctx_prior_count c\<bar> \<le> 10 ^ M \<and> list_all (\<lambda>(n, j). jbounded M j) (ctx_enrichment c)"

lemma abs_of_int_le: "\<bar>n\<bar> \<le> 10 ^ M \<Longrightarrow> \<bar>rat_of_int n\<bar> \<le> 10 ^ M"
  by (metis of_int_abs of_int_le_iff of_int_numeral of_int_power)

lemma normalise_bounded:
  "feature_ok n j \<Longrightarrow> jbounded M j \<Longrightarrow> normalise_literal j = Inr v \<Longrightarrow> vbounded M v"
  by (cases j) (auto simp: feature_ok_def abs_of_int_le simp del: of_int_abs)

lemma as_variables_bounded:
  assumes "context_ok c" "context_bounded M c" "as_variables c = Inr vars"
  shows "ctx_bounded M vars"
proof -
  let ?f = "\<lambda>(n, x). err_bind (normalise_literal x) (\<lambda>v. Inr (n, v))"
  let ?xs = "filter (\<lambda>(n, x). x \<noteq> JNull) (ctx_enrichment c)"
  from assms(3) obtain ys where ys: "err_map ?f ?xs = Inr ys"
    and vars: "vars = VDict ([(''amount'', VNum (ctx_amount c)), (''currency'', VStr (ctx_currency c)),
     (''category'', VStr (ctx_category c)),
     (''velocity'', VDict [(''prior_count'', VNum (Dec (ctx_prior_count c) 0)),
        (''prior_amount'', VNum (ctx_prior_amount c))]), (''enrichment'', VDict ys)] @
     optional_entry ''channel'' (ctx_channel c) @ optional_entry ''country'' (ctx_country c))"
    by (auto simp: as_variables_def)
  have feature: "case map_of ys n of None \<Rightarrow> True | Some v \<Rightarrow> vbounded M v" for n
  proof (cases "map_of ys n")
    case (Some v)
    from normalised_entries [OF ys this] obtain j where "(n, j) \<in> set ?xs" "normalise_literal j = Inr v"
      by blast
    with assms(1,2) normalise_bounded [of n j M v] Some show ?thesis
      by (auto simp: context_ok_def context_bounded_def list_all_iff)
  qed simp
  have count: "\<bar>rat_of_int (ctx_prior_count c)\<bar> \<le> 10 ^ M"
    using assms(2) by (intro abs_of_int_le) (simp add: context_bounded_def)
  show ?thesis
    using assms(2) count unfolding vars
    by (cases "ctx_channel c"; cases "ctx_country c")
      (simp_all add: ctx_bounded_def VARIABLES_def lookup_var_def optional_entry_def walk_end
        context_bounded_def feature)
qed

text \<open>
  C26: when no number of the rules and of the transaction exceeds \<open>10 ^ 2499\<close>, scoring a checked rule
  set always returns an assessment.
\<close>

theorem scoring_returns:
  assumes "valid_definition d" "context_ok c" "context_bounded M c"
    and "list_all (\<lambda>r. jbounded M (rule_condition r)) (rules d)" "1 \<le> M" "M \<le> 2499"
  shows "\<exists>a. evaluate_rule_set d c = Inr a"
proof -
  obtain vars where vars: "as_variables c = Inr vars" "ctx_ok vars"
    using assms(2) by (rule as_variables_ok)
  have b: "ctx_bounded M vars" using assms(2,3) vars(1) by (rule as_variables_bounded)
  have "\<exists>v. evaluate cond vars = Inr v" if "(code, s, cond) \<in> set (compiled d)" for code s cond
  proof -
    from assms(1) that obtain r where r: "r \<in> set (rules d)" "valid_rule r"
      "normalise_literal (rule_condition r) = Inr cond" by (rule compiled_rules)
    with assms(4) have "jbounded M (rule_condition r)" by (simp add: list_all_iff)
    moreover from r(2) have "validate_expression (rule_condition r) = Inr ()" by (simp add: valid_rule_def)
    ultimately show ?thesis
      using checked_condition_total [OF _ vars(2) b _ assms(5,6)] r(3) by fastforce
  qed
  then have "\<exists>tr sc. evaluate_compiled (compiled d) vars = Inr (tr, sc)"
    by (auto simp: evaluate_compiled_Inr)
  with vars(1) show ?thesis by (auto simp: evaluate_rule_set_def)
qed


text \<open>Whatever is stored, a definition that loads has its hash, meets every constraint and passed the dry run.\<close>

lemma loaded_definition_checked:
  assumes "load_stored_definition sha256 repr_float coerce_int raw h label = Inr d"
  shows "definition_json_hash sha256 repr_float raw = Some h \<and> valid_definition d \<and>
    (\<exists>a. evaluate_rule_set d DRY_RUN_CONTEXT = Inr a)"
  using assms by (auto simp: load_accepts dry_run_def intro: model_validate_valid)

end
