(* ===== verification/Default_Rules.thy ===== *)
theory Default_Rules
  imports Scoring
begin

text \<open>
  The seeded rule set \<open>fraud-default\<close>: it passes the publishing checks, and what it decides about every
  transaction, stated in cents and counts without reference to the evaluator.
\<close>

section \<open>It is a checked rule set\<close>

text \<open>The part of pydantic's conversion the examples need: an integer literal is itself.\<close>

definition json_int :: "json \<Rightarrow> int option" where
  "json_int j = (case j of JInt n \<Rightarrow> Some n | _ \<Rightarrow> None)"

lemma json_int_JInt [simp]: "json_int (JInt n) = Some n"
  by (simp add: json_int_def)

definition default_definition :: rule_set_definition where
  "default_definition =
     (case parse_rule_set_definition json_int DEFAULT_RULE_SET_DEFINITION of
        Inr d \<Rightarrow> d
      | Inl _ \<Rightarrow> \<lparr>velocity_window_seconds = 0, review_threshold = 0, reject_threshold = 0, rules = [],
                   compiled = []\<rparr>)"

lemma default_parses: "parse_rule_set_definition json_int DEFAULT_RULE_SET_DEFINITION = Inr default_definition"
proof -
  have "case parse_rule_set_definition json_int DEFAULT_RULE_SET_DEFINITION of Inr d \<Rightarrow> True | Inl _ \<Rightarrow> False"
    by code_simp
  then show ?thesis by (auto simp: default_definition_def split: sum.splits)
qed

lemma default_valid: "valid_definition default_definition"
  using default_parses by (auto simp: parse_accepts intro: model_validate_valid)

definition default_compiled :: "compiled_rule list" where
  "default_compiled =
     [(''HIGH_VALUE_THRESHOLD'', 40,
       VDict [(''>='', VList [VDict [(''var'', VStr ''amount'')], VNum (Dec 10000 0)])]),
      (''RISKY_CATEGORY_LIMIT'', 50,
       VDict [(''and'', VList
         [VDict [(''in'', VList [VDict [(''var'', VStr ''category'')], VList [VStr ''GAMBLING'', VStr ''CRYPTO'']])],
          VDict [(''>'', VList [VDict [(''var'', VStr ''amount'')], VNum (Dec 5000 0)])]])]),
      (''VELOCITY_COUNT_EXCEEDED'', 40,
       VDict [(''>'', VList [VDict [(''+'', VList [VDict [(''var'', VStr ''velocity.prior_count'')], VNum (Dec 1 0)])],
                             VNum (Dec 5 0)])]),
      (''VELOCITY_AMOUNT'', 50,
       VDict [(''>'', VList [VDict [(''+'', VList [VDict [(''var'', VStr ''velocity.prior_amount'')],
                                                   VDict [(''var'', VStr ''amount'')]])],
                             VNum (Dec 50000 0)])]),
      (''FOREIGN_CURRENCY'', 30,
       VDict [(''!='', VList [VDict [(''var'', VStr ''currency'')], VStr ''ZAR''])])]"

fun rule_of_document :: "json \<Rightarrow> rule_definition option" where
  "rule_of_document (JDict [(_, JStr code), (_, JStr description), (_, JInt score), (_, cond)]) =
     Some \<lparr>rule_code = code, rule_description = description, rule_score = score, rule_condition = cond\<rparr>"
| "rule_of_document _ = None"

definition default_rules :: "rule_definition list" where
  "default_rules =
     (case DEFAULT_RULE_SET_DEFINITION of
        JDict kvs \<Rightarrow> (case map_of kvs ''rules'' of Some (JList rs) \<Rightarrow> List.map_filter rule_of_document rs | _ \<Rightarrow> [])
      | _ \<Rightarrow> [])"

text \<open>The parsed definition, written out; evaluation uses it from here on.\<close>

lemma default_definition_code [code]:
  "default_definition = \<lparr>velocity_window_seconds = 60, review_threshold = 30, reject_threshold = 75,
     rules = default_rules, compiled = default_compiled\<rparr>"
  by code_simp

lemma default_fields:
  "compiled default_definition = default_compiled"
  "review_threshold default_definition = 30" "reject_threshold default_definition = 75"
  "velocity_window_seconds default_definition = 60"
  by (simp_all add: default_definition_code)

section \<open>What it decides\<close>

lemma dec_add_ints: "\<bar>m + n\<bar> < 10 ^ 28 \<Longrightarrow> dec_add (Dec m 0) (Dec n 0) = Inr (Dec (m + n) 0)"
proof -
  assume "\<bar>m + n\<bar> < 10 ^ 28"
  then have "ndigits \<bar>m + n\<bar> \<le> 28" by (subst ndigits_le_iff) simp_all
  then show ?thesis
    by (auto simp: dec_add_def dec_common_def dec_align_def dec_fix_def Let_def dec_context)
qed

text \<open>What the evaluator needs to compute a compiled condition symbolically.\<close>

lemmas evaluate_default = evaluate.simps(2) apply_operator.simps parse_operator_def operator_table_def
  Let_def lookup_var_def optional_entry_def compare_def numbers_def fold_sum_def arith_def

lemmas dec_compare = dec_less_def dec_le_def dec_align_def dec_common_def

definition default_variables ::
    "int \<Rightarrow> string \<Rightarrow> string \<Rightarrow> int \<Rightarrow> int \<Rightarrow> (string \<times> pyval) list \<Rightarrow> pyval" where
  "default_variables amount currency category count prior rest =
     VDict ([(''amount'', VNum (Dec amount (- 2))), (''currency'', VStr currency), (''category'', VStr category),
       (''velocity'', VDict [(''prior_count'', VNum (Dec count 0)), (''prior_amount'', VNum (Dec prior (- 2)))])]
       @ rest)"

lemma default_conditions:
  fixes amount currency category count prior rest
  defines "vars \<equiv> default_variables amount currency category count prior rest"
  assumes "0 \<le> amount" "amount < 10 ^ 18" "0 \<le> prior" "prior < 10 ^ 24" "0 \<le> count" "count < 10 ^ 18"
  shows "evaluate (VDict [(''>='', VList [VDict [(''var'', VStr ''amount'')], VNum (Dec 10000 0)])]) vars =
      Inr (VBool (1000000 \<le> amount))"
    and "evaluate (VDict [(''and'', VList
         [VDict [(''in'', VList [VDict [(''var'', VStr ''category'')], VList [VStr ''GAMBLING'', VStr ''CRYPTO'']])],
          VDict [(''>'', VList [VDict [(''var'', VStr ''amount'')], VNum (Dec 5000 0)])]])]) vars =
      Inr (VBool (category \<in> {''GAMBLING'', ''CRYPTO''} \<and> 500000 < amount))"
    and "evaluate (VDict [(''>'', VList [VDict [(''+'', VList [VDict [(''var'', VStr ''velocity.prior_count'')],
         VNum (Dec 1 0)])], VNum (Dec 5 0)])]) vars = Inr (VBool (5 \<le> count))"
    and "evaluate (VDict [(''>'', VList [VDict [(''+'', VList [VDict [(''var'', VStr ''velocity.prior_amount'')],
         VDict [(''var'', VStr ''amount'')]])], VNum (Dec 50000 0)])]) vars =
      Inr (VBool (5000000 < prior + amount))"
    and "evaluate (VDict [(''!='', VList [VDict [(''var'', VStr ''currency'')], VStr ''ZAR''])]) vars =
      Inr (VBool (currency \<noteq> ''ZAR''))"
proof -
  show "evaluate (VDict [(''>='', VList [VDict [(''var'', VStr ''amount'')], VNum (Dec 10000 0)])]) vars =
      Inr (VBool (1000000 \<le> amount))"
    by (simp add: vars_def default_variables_def evaluate_default dec_compare)
  show "evaluate (VDict [(''and'', VList
         [VDict [(''in'', VList [VDict [(''var'', VStr ''category'')], VList [VStr ''GAMBLING'', VStr ''CRYPTO'']])],
          VDict [(''>'', VList [VDict [(''var'', VStr ''amount'')], VNum (Dec 5000 0)])]])]) vars =
      Inr (VBool (category \<in> {''GAMBLING'', ''CRYPTO''} \<and> 500000 < amount))"
    by (auto simp: vars_def default_variables_def evaluate_default dec_compare)
  show "evaluate (VDict [(''>'', VList [VDict [(''+'', VList [VDict [(''var'', VStr ''velocity.prior_count'')],
         VNum (Dec 1 0)])], VNum (Dec 5 0)])]) vars = Inr (VBool (5 \<le> count))"
    using assms(6,7)
    by (simp add: vars_def default_variables_def evaluate_default dec_add_ints dec_compare)
  show "evaluate (VDict [(''>'', VList [VDict [(''+'', VList [VDict [(''var'', VStr ''velocity.prior_amount'')],
         VDict [(''var'', VStr ''amount'')]])], VNum (Dec 50000 0)])]) vars =
      Inr (VBool (5000000 < prior + amount))"
    using assms(2-5) dec_add_zero_cents [of prior] dec_add_cents [of prior amount]
    by (simp add: vars_def default_variables_def evaluate_default dec_compare dec_prec_def)
  show "evaluate (VDict [(''!='', VList [VDict [(''var'', VStr ''currency'')], VStr ''ZAR''])]) vars =
      Inr (VBool (currency \<noteq> ''ZAR''))"
    by (simp add: vars_def default_variables_def evaluate_default)
qed

text \<open>The five rules of the default set, as the comments of \<open>DEFAULT_RULE_SET_DEFINITION\<close> put them.\<close>

definition default_hits :: "int \<Rightarrow> string \<Rightarrow> string \<Rightarrow> int \<Rightarrow> int \<Rightarrow> (string \<times> int) list" where
  "default_hits amount currency category count prior =
     map snd (filter fst
       [(1000000 \<le> amount, ''HIGH_VALUE_THRESHOLD'', 40),
        (category \<in> {''GAMBLING'', ''CRYPTO''} \<and> 500000 < amount, ''RISKY_CATEGORY_LIMIT'', 50),
        (5 \<le> count, ''VELOCITY_COUNT_EXCEEDED'', 40),
        (5000000 < prior + amount, ''VELOCITY_AMOUNT'', 50),
        (currency \<noteq> ''ZAR'', ''FOREIGN_CURRENCY'', 30)])"

lemma default_evaluate:
  assumes "0 \<le> amount" "amount < 10 ^ 18" "0 \<le> prior" "prior < 10 ^ 24" "0 \<le> count" "count < 10 ^ 18"
  shows "evaluate_compiled default_compiled (default_variables amount currency category count prior rest) =
    Inr (map fst (default_hits amount currency category count prior),
         sum_list (map snd (default_hits amount currency category count prior)))"
  by (simp add: evaluate_compiled_def default_compiled_def fire_rule_def default_conditions [OF assms]
      default_hits_def del: evaluate.simps)


text \<open>A card payment of R15,000.00 for CRYPTO, the sixth of the user within a minute.\<close>

definition example_context :: evaluation_context where
  "example_context =
     \<lparr>ctx_amount = Dec 1500000 (- 2), ctx_currency = ''ZAR'', ctx_category = ''CRYPTO'',
      ctx_prior_count = 5, ctx_prior_amount = Dec 100 (- 2), ctx_channel = Some ''ONLINE'',
      ctx_country = None,
      ctx_enrichment = [(''minutes_since_last_tx'', JInt 45), (''is_new_merchant_for_user'', JBool True)]\<rparr>"

lemma example_context_ok: "context_ok example_context"
  by code_simp

lemma example_context_bounded: "context_bounded 7 example_context"
  by (simp add: context_bounded_def example_context_def dec_val_Dec power_int_def power2_eq_square)

lemma default_bounded: "list_all (\<lambda>r. jbounded 7 (rule_condition r)) (rules default_definition)"
  by code_simp


definition example_variables :: pyval where
  "example_variables = (case as_variables example_context of Inr v \<Rightarrow> v | Inl _ \<Rightarrow> VNone)"

lemma example_variables: "as_variables example_context = Inr example_variables"
  by (rule as_variables_ok [OF example_context_ok]) (simp add: example_variables_def)

lemma example_scored:
  "\<exists>a. evaluate_rule_set default_definition example_context = Inr a \<and> risk_score a = 130"
proof -
  have "case evaluate_rule_set default_definition example_context of Inr a \<Rightarrow> risk_score a = 130 | Inl _ \<Rightarrow> False"
    by code_simp
  then show ?thesis by (auto split: sum.splits)
qed


theorem scoring_returns_witness: "\<exists>a. evaluate_rule_set default_definition example_context = Inr a"
  by (rule scoring_returns [OF default_valid example_context_ok example_context_bounded default_bounded])
    simp_all

text \<open>A stand-in for SHA-256, to show the theorems about loading can be applied.\<close>

definition plain_hash :: "string \<Rightarrow> string" where
  "plain_hash s = s"

definition no_float :: "pyfloat \<Rightarrow> string" where
  "no_float f = ''0.0''"

lemma default_hashes: "\<exists>h. content_hash plain_hash no_float default_definition = Some h"
  by (rule content_hash_total) code_simp


end
