(* ===== verification/Paging.thy ===== *)
theory Paging
  imports Prelude
begin

text \<open>
  Keyset paging, the contract behind both list endpoints: a page holds the first rows, in descending
  key order, that come strictly after the cursor, and the next cursor is the key of the last row. The
  locale proves once what a client that follows the cursors receives; \<open>Transactions\<close> and \<open>Rule_Store\<close>
  interpret it on \<open>list_transactions\<close> and on the listing of rule-set versions.
\<close>

section \<open>Following the cursors\<close>

text \<open>A client that asks for at most \<open>fuel\<close> pages, each with the cursor the previous one returned.\<close>

fun fetch_pages :: "('k option \<Rightarrow> 'a list \<times> 'k option) \<Rightarrow> nat \<Rightarrow> 'k option \<Rightarrow> 'a list list" where
  "fetch_pages page 0 cursor = []"
| "fetch_pages page (Suc fuel) cursor =
     (let (rows, next_cursor) = page cursor
      in rows # (case next_cursor of None \<Rightarrow> [] | Some k \<Rightarrow> fetch_pages page fuel (Some k)))"

text \<open>The rows a cursor leaves.\<close>

definition after_cursor :: "('a \<Rightarrow> 'k :: linorder) \<Rightarrow> 'k option \<Rightarrow> 'a list \<Rightarrow> 'a list" where
  "after_cursor key cursor rows = (case cursor of None \<Rightarrow> rows | Some k \<Rightarrow> filter (\<lambda>r. key r < k) rows)"

lemma after_cursor_None [simp]: "after_cursor key None rows = rows"
  by (simp add: after_cursor_def)

lemma after_cursor_Some [simp]: "after_cursor key (Some k) rows = filter (\<lambda>r. key r < k) rows"
  by (simp add: after_cursor_def)

lemma sorted_after_cursor:
  "sorted_wrt (\<lambda>a b. key b < key a) rows \<Longrightarrow> sorted_wrt (\<lambda>a b. key b < key a) (after_cursor key c rows)"
  by (cases c) (auto intro: sorted_wrt_filter)

lemma filter_below_last:
  assumes "sorted_wrt (\<lambda>a b. key b < key (a :: 'a) :: bool) rows" "0 < n" "rows \<noteq> []"
  shows "filter (\<lambda>r. key r < (key (last (take n rows)) :: 'k :: linorder)) rows = drop n rows"
proof -
  have s: "sorted_wrt (\<lambda>a b. key b < key a) (take n rows @ drop n rows)" using assms(1) by simp
  then have split: "sorted_wrt (\<lambda>a b. key b < key a) (take n rows)"
    "\<And>a b. a \<in> set (take n rows) \<Longrightarrow> b \<in> set (drop n rows) \<Longrightarrow> key b < key a"
    by (auto simp only: sorted_wrt_append)
  have ne: "take n rows \<noteq> []" using assms(2,3) by simp
  have "key (last (take n rows)) \<le> key r" if "r \<in> set (take n rows)" for r
  proof -
    have "take n rows = butlast (take n rows) @ [last (take n rows)]" using ne by simp
    with split(1) that show ?thesis
      by (metis less_imp_le order_refl sorted_wrt_append in_set_conv_decomp append_is_Nil_conv
          list.set_intros(1) Un_iff set_append set_ConsD empty_iff list.set(1))
  qed
  then have "filter (\<lambda>r. key r < key (last (take n rows))) (take n rows) = []"
    by (auto simp: filter_empty_conv not_less)
  moreover have "filter (\<lambda>r. key r < key (last (take n rows))) (drop n rows) = drop n rows"
    using split(2) last_in_set [OF ne] by (auto intro: filter_True)
  ultimately have "filter (\<lambda>r. key r < key (last (take n rows))) (take n rows @ drop n rows) = drop n rows"
    by (simp only: filter_append) simp
  then show ?thesis by simp
qed

section \<open>The contract\<close>

text \<open>
  \<open>matching q\<close> is everything the query selects, newest first; \<open>page q n cursor\<close> what the service
  returns for it. A page without a next cursor must be the last one.
\<close>

locale keyset_paging =
  fixes matching :: "'q \<Rightarrow> 'a list"
    and key :: "'a \<Rightarrow> 'k :: linorder"
    and page :: "'q \<Rightarrow> nat \<Rightarrow> 'k option \<Rightarrow> 'a list \<times> 'k option"
    and valid :: "'q \<Rightarrow> bool"
    and size_ok :: "nat \<Rightarrow> bool"
  assumes size_pos: "size_ok n \<Longrightarrow> 1 \<le> n"
    and descending: "valid q \<Longrightarrow> sorted_wrt (\<lambda>a b. key b < key a) (matching q)"
    and page_rows: "valid q \<Longrightarrow> size_ok n \<Longrightarrow> fst (page q n c) = take n (after_cursor key c (matching q))"
    and page_next: "valid q \<Longrightarrow> size_ok n \<Longrightarrow> snd (page q n c) = Some k \<Longrightarrow>
          after_cursor key c (matching q) \<noteq> [] \<and> k = key (last (fst (page q n c)))"
    and page_last: "valid q \<Longrightarrow> size_ok n \<Longrightarrow> snd (page q n c) = None \<Longrightarrow>
          drop n (after_cursor key c (matching q)) = []"
begin

lemma page_size: "valid q \<Longrightarrow> size_ok n \<Longrightarrow> length (fst (page q n c)) \<le> n"
  by (simp add: page_rows)

text \<open>The cursor of a page leads to exactly the rows the page left out.\<close>

lemma next_rest:
  assumes "valid q" "size_ok n" "snd (page q n c) = Some k"
  shows "after_cursor key (Some k) (matching q) = drop n (after_cursor key c (matching q))"
proof -
  let ?rest = "after_cursor key c (matching q)"
  have k: "?rest \<noteq> []" "k = key (last (take n ?rest))"
    using page_next [OF assms] page_rows [OF assms(1,2)] by auto
  have s: "sorted_wrt (\<lambda>a b. key b < key a) ?rest"
    using descending [OF assms(1)] by (rule sorted_after_cursor)
  have "filter (\<lambda>r. key r < k) ?rest = drop n ?rest"
    unfolding k(2) using s size_pos [OF assms(2)] k(1) by (intro filter_below_last) auto
  moreover have "filter (\<lambda>r. key r < k) (matching q) = filter (\<lambda>r. key r < k) ?rest"
  proof (cases c)
    case (Some k0)
    have "last (take n ?rest) \<in> set (take n ?rest)" using k(1) size_pos [OF assms(2)] by (intro last_in_set) auto
    then have "last (take n ?rest) \<in> set ?rest" by (rule in_set_takeD)
    with Some k(2) have "k < k0" by auto
    with Some show ?thesis by (auto intro!: filter_cong)
  qed simp
  ultimately show ?thesis by simp
qed

text \<open>
  Following the cursors returns every matching row exactly once and in order, and enough pages have
  been asked for as soon as there are more pages than rows.
\<close>

lemma all_pages:
  assumes "valid q" "size_ok n"
  shows "length (after_cursor key c (matching q)) < fuel \<Longrightarrow>
           concat (fetch_pages (page q n) fuel c) = after_cursor key c (matching q)"
proof (induction fuel arbitrary: c)
  case (Suc fuel)
  let ?rest = "after_cursor key c (matching q)"
  show ?case
  proof (cases "snd (page q n c)")
    case None
    with page_last [OF assms None] page_rows [OF assms, of c] show ?thesis
      by (simp add: Let_def case_prod_beta)
  next
    case (Some k)
    from page_next [OF assms Some] have "?rest \<noteq> []" by simp
    with Suc.prems size_pos [OF assms(2)] have "length (after_cursor key (Some k) (matching q)) < fuel"
      unfolding next_rest [OF assms Some] by (cases ?rest; cases n) auto
    from Suc.IH [OF this] Some page_rows [OF assms, of c] next_rest [OF assms Some]
    show ?thesis by (simp add: Let_def case_prod_beta)
  qed
qed simp

lemma all_pages_from_start:
  "valid q \<Longrightarrow> size_ok n \<Longrightarrow>
     concat (fetch_pages (page q n) (Suc (length (matching q))) None) = matching q"
  using all_pages [of q n None "Suc (length (matching q))"] by (simp del: fetch_pages.simps)

lemma all_pages_distinct:
  "valid q \<Longrightarrow> size_ok n \<Longrightarrow>
     distinct (map key (concat (fetch_pages (page q n) (Suc (length (matching q))) None)))"
proof -
  assume "valid q" "size_ok n"
  moreover have "sorted_wrt (\<lambda>a b. key b < key a) xs \<Longrightarrow> distinct (map key xs)" for xs
    by (induction xs) auto
  ultimately show ?thesis using descending
    by (simp add: all_pages_from_start del: fetch_pages.simps)
qed

end

end
