(* ===== verification/Transactions.thy ===== *)
theory Transactions
  imports Decimals Py_Values Paging "HOL-Library.Product_Lexorder"
begin

text \<open>
  The transaction tables of \<open>app/database.py\<close>: \<open>transactions\<close> (one decision per transaction id, the
  first wins) and \<open>transaction_history\<close> (one row per Kafka message handled), and every statement that
  reads or writes them. A table is the list of its rows in insertion order; a statement is a function
  of the tables, a unit of work that raises leaves them as they were.

  A UUID is its 128-bit number, which is also how PostgreSQL orders UUIDs; a timestamp is a number of
  microseconds in UTC; a \<open>NUMERIC(18, 2)\<close> column holds a decimal of scale 2.
\<close>

type_synonym uuid = nat

definition MAX_PAGE_SIZE :: int where "MAX_PAGE_SIZE = 100"

section \<open>Rows\<close>

record transaction_decision =
  td_transaction_id :: uuid
  td_user_id :: uuid
  td_amount :: decimal
  td_currency :: string
  td_category :: string
  td_occurred_at :: int
  td_risk_score :: int
  td_verdict :: string
  td_is_fraud :: bool
  td_triggered_rules :: "string list"
  td_rules_version :: string
  td_rules_hash :: string
  td_correlation_id :: "string option"
  td_channel :: "string option"
  td_country :: "string option"
  td_enrichment :: "(string \<times> json) list option"

record message_provenance =
  mp_topic :: string
  mp_partition :: int
  mp_offset :: int
  mp_timestamp_ms :: "int option"

datatype record_outcome = EVALUATED | DUPLICATE

definition outcome_value :: "record_outcome \<Rightarrow> string" where
  "outcome_value o' = (case o' of EVALUATED \<Rightarrow> ''evaluated'' | DUPLICATE \<Rightarrow> ''duplicate'')"

record transaction_record =
  tr_decision :: transaction_decision
  tr_created_at :: int

record transaction_history_record =
  h_transaction_id :: uuid
  h_outcome :: record_outcome
  h_user_id :: uuid
  h_amount :: decimal
  h_currency :: string
  h_category :: string
  h_occurred_at :: int
  h_risk_score :: int
  h_verdict :: string
  h_is_fraud :: bool
  h_triggered_rules :: "string list"
  h_rules_version :: string
  h_rules_hash :: string
  h_source_topic :: string
  h_source_partition :: int
  h_source_offset :: int
  h_source_timestamp :: "int option"
  h_correlation_id :: "string option"
  h_processed_at :: int

record tx_tables =
  transactions :: "transaction_record list"
  transaction_history :: "transaction_history_record list"

section \<open>Columns and constraints\<close>

text \<open>
  What \<open>NUMERIC(18, 2)\<close> keeps of a value: two decimals, rounded half away from zero when there are
  more, and an error when more than 16 digits are left of the point.
\<close>

definition numeric_18_2 :: "decimal \<Rightarrow> decimal option" where
  "numeric_18_2 d =
     (let c = (if - 2 \<le> expo d then dec_align d (- 2)
               else (let p = 10 ^ nat (- 2 - expo d)
                     in sgn (coeff d) * ((2 * \<bar>coeff d\<bar> + p) div (2 * p))))
      in if \<bar>c\<bar> < 10 ^ 18 then Some (Dec c (- 2)) else None)"

definition int32 :: "int \<Rightarrow> bool" where "int32 n \<longleftrightarrow> - (2 ^ 31) \<le> n \<and> n < 2 ^ 31"
definition int64 :: "int \<Rightarrow> bool" where "int64 n \<longleftrightarrow> - (2 ^ 63) \<le> n \<and> n < 2 ^ 63"

definition fits :: "nat \<Rightarrow> string option \<Rightarrow> bool" where
  "fits n v = (case v of None \<Rightarrow> True | Some s \<Rightarrow> length s \<le> n)"

datatype db_error =
    DataError | IntegrityError | ConflictingDuplicateError | ValueError

text \<open>The row PostgreSQL stores for a decision, or the error of a column type or CHECK constraint.\<close>

definition transaction_row :: "int \<Rightarrow> transaction_decision \<Rightarrow> db_error + transaction_record" where
  "transaction_row now d =
     (case numeric_18_2 (td_amount d) of
        None \<Rightarrow> Inl DataError
      | Some amount \<Rightarrow>
          if \<not> (length (td_currency d) \<le> 3 \<and> length (td_category d) \<le> 64 \<and>
                fits 32 (td_channel d) \<and> fits 2 (td_country d) \<and> int32 (td_risk_score d) \<and>
                length (td_verdict d) \<le> 16 \<and> length (td_rules_version d) \<le> 128 \<and>
                length (td_rules_hash d) \<le> 64 \<and> fits 128 (td_correlation_id d))
          then Inl DataError
          else if \<not> (0 < coeff amount \<and> 0 \<le> td_risk_score d \<and>
                     td_verdict d \<in> {''APPROVED'', ''REVIEW'', ''REJECTED''} \<and>
                     td_is_fraud d = (td_verdict d \<noteq> ''APPROVED''))
          then Inl IntegrityError
          else Inr \<lparr>tr_decision = d\<lparr>td_amount := amount\<rparr>, tr_created_at = now\<rparr>)"

section \<open>Recording a decision\<close>

definition find_transaction :: "tx_tables \<Rightarrow> uuid \<Rightarrow> transaction_record option" where
  "find_transaction db i = find (\<lambda>r. td_transaction_id (tr_decision r) = i) (transactions db)"

definition decision_from_record :: "transaction_record \<Rightarrow> transaction_decision" where
  "decision_from_record r = tr_decision r"

definition same_transaction :: "transaction_decision \<Rightarrow> transaction_decision \<Rightarrow> bool" where
  "same_transaction left right \<longleftrightarrow>
     td_user_id left = td_user_id right \<and> dec_eq (td_amount left) (td_amount right) \<and>
     td_currency left = td_currency right \<and> td_category left = td_category right \<and>
     td_occurred_at left = td_occurred_at right"

definition history_values ::
    "int \<Rightarrow> transaction_decision \<Rightarrow> message_provenance \<Rightarrow> record_outcome \<Rightarrow> string option \<Rightarrow>
     transaction_history_record" where
  "history_values now d p outcome correlation =
     \<lparr>h_transaction_id = td_transaction_id d, h_outcome = outcome, h_user_id = td_user_id d,
      h_amount = td_amount d, h_currency = td_currency d, h_category = td_category d,
      h_occurred_at = td_occurred_at d, h_risk_score = td_risk_score d, h_verdict = td_verdict d,
      h_is_fraud = td_is_fraud d, h_triggered_rules = td_triggered_rules d,
      h_rules_version = td_rules_version d, h_rules_hash = td_rules_hash d,
      h_source_topic = mp_topic p, h_source_partition = mp_partition p, h_source_offset = mp_offset p,
      h_source_timestamp = mp_timestamp_ms p, h_correlation_id = correlation, h_processed_at = now\<rparr>"

definition history_source :: "transaction_history_record \<Rightarrow> string \<times> int \<times> int" where
  "history_source h = (h_source_topic h, h_source_partition h, h_source_offset h)"

definition provenance_source :: "message_provenance \<Rightarrow> string \<times> int \<times> int" where
  "provenance_source p = (mp_topic p, mp_partition p, mp_offset p)"

text \<open>
  The audit insert, with \<open>on_conflict_do_nothing(constraint="uq_transaction_history_source")\<close>; the
  amount goes through its own \<open>NUMERIC(18, 2)\<close> column.
\<close>

definition insert_history :: "transaction_history_record \<Rightarrow> tx_tables \<Rightarrow> db_error + tx_tables" where
  "insert_history h db =
     (case numeric_18_2 (h_amount h) of
        None \<Rightarrow> Inl DataError
      | Some amount \<Rightarrow>
          if \<not> (length (h_source_topic h) \<le> 255 \<and> int32 (h_source_partition h) \<and>
                int64 (h_source_offset h) \<and>
                (case h_source_timestamp h of None \<Rightarrow> True | Some t \<Rightarrow> int64 t) \<and>
                fits 128 (h_correlation_id h))
          then Inl DataError
          else if history_source h \<in> set (map history_source (transaction_history db)) then Inr db
          else Inr (db\<lparr>transaction_history := transaction_history db @ [h\<lparr>h_amount := amount\<rparr>]\<rparr>))"

record record_result =
  rr_outcome :: record_outcome
  rr_decision :: transaction_decision

text \<open>
  The unit of work of \<open>record_decision\<close>: the insert of the transaction with \<open>ON CONFLICT DO NOTHING\<close>
  (a row that violates a constraint is refused even if its id exists), the comparison with the stored
  decision, the audit row.
\<close>

definition record_work ::
    "int \<Rightarrow> tx_tables \<Rightarrow> transaction_decision \<Rightarrow> message_provenance \<Rightarrow> db_error + tx_tables \<times> record_result" where
  "record_work now db d p =
     err_bind (transaction_row now d)
       (\<lambda>row.
          case find_transaction db (td_transaction_id d) of
            None \<Rightarrow>
              err_bind
                (insert_history (history_values now d p EVALUATED (td_correlation_id d))
                   (db\<lparr>transactions := transactions db @ [row]\<rparr>))
                (\<lambda>db'. Inr (db', \<lparr>rr_outcome = EVALUATED, rr_decision = d\<rparr>))
          | Some existing \<Rightarrow>
              (let stored = decision_from_record existing
               in if \<not> same_transaction stored d then Inl ConflictingDuplicateError
                  else err_bind
                         (insert_history (history_values now stored p DUPLICATE (td_correlation_id d)) db)
                         (\<lambda>db'. Inr (db', \<lparr>rr_outcome = DUPLICATE, rr_decision = stored\<rparr>))))"

text \<open>\<open>async with session_factory() as session, session.begin()\<close>: commit, or roll everything back.\<close>

definition in_transaction :: "'s \<Rightarrow> 'e + 's \<times> 'a \<Rightarrow> 's \<times> ('e + 'a)" where
  "in_transaction s r = (case r of Inl e \<Rightarrow> (s, Inl e) | Inr (s', x) \<Rightarrow> (s', Inr x))"

definition record_decision ::
    "int \<Rightarrow> tx_tables \<Rightarrow> transaction_decision \<Rightarrow> message_provenance \<Rightarrow>
     tx_tables \<times> (db_error + record_result)" where
  "record_decision now db d p = in_transaction db (record_work now db d p)"

section \<open>Velocity\<close>

text \<open>\<open>SUM\<close> over a \<open>NUMERIC\<close> column: exact, and \<open>coalesce(..., 0)\<close> when there is no row.\<close>

fun numeric_sum :: "decimal list \<Rightarrow> decimal" where
  "numeric_sum [] = Dec 0 0"
| "numeric_sum (d # ds) = foldl (\<lambda>a b. Dec (dec_align a (dec_common a b) + dec_align b (dec_common a b)) (dec_common a b)) d ds"

definition velocity_rows :: "tx_tables \<Rightarrow> uuid \<Rightarrow> int \<Rightarrow> int \<Rightarrow> uuid \<Rightarrow> transaction_decision list" where
  "velocity_rows db user window_start window_end excluded =
     filter (\<lambda>d. td_user_id d = user \<and> window_start \<le> td_occurred_at d \<and>
                 td_occurred_at d \<le> window_end \<and> td_transaction_id d \<noteq> excluded)
       (map tr_decision (transactions db))"

definition get_velocity_aggregates ::
    "tx_tables \<Rightarrow> uuid \<Rightarrow> int \<Rightarrow> int \<Rightarrow> uuid \<Rightarrow> string \<Rightarrow> int \<times> decimal" where
  "get_velocity_aggregates db user window_start window_end excluded currency =
     (let rows = velocity_rows db user window_start window_end excluded
      in (int (length rows), numeric_sum (map td_amount (filter (\<lambda>d. td_currency d = currency) rows))))"

section \<open>Reading\<close>

definition get_transaction :: "tx_tables \<Rightarrow> uuid \<Rightarrow> transaction_record option" where
  "get_transaction db i = find_transaction db i"

record transaction_filters =
  f_user_id :: "uuid option"
  f_category :: "string option"
  f_is_fraud :: "bool option"
  f_verdict :: "string option"
  f_occurred_from :: "int option"
  f_occurred_to :: "int option"

definition if_given :: "'a option \<Rightarrow> ('a \<Rightarrow> bool) \<Rightarrow> bool" where
  "if_given v p = (case v of None \<Rightarrow> True | Some x \<Rightarrow> p x)"

definition matches :: "transaction_filters \<Rightarrow> transaction_record \<Rightarrow> bool" where
  "matches f r \<longleftrightarrow>
     (let d = tr_decision r
      in if_given (f_user_id f) (\<lambda>u. td_user_id d = u) \<and>
         if_given (f_category f) (\<lambda>c. td_category d = c) \<and>
         if_given (f_is_fraud f) (\<lambda>b. td_is_fraud d = b) \<and>
         if_given (f_verdict f) (\<lambda>v. td_verdict d = v) \<and>
         if_given (f_occurred_from f) (\<lambda>t. t \<le> td_occurred_at d) \<and>
         if_given (f_occurred_to f) (\<lambda>t. td_occurred_at d < t))"

text \<open>The sort key; a \<open>PageCursor\<close> is the key of a row. Pairs compare as row values do.\<close>

type_synonym page_cursor = "int \<times> uuid"

definition page_key :: "transaction_record \<Rightarrow> page_cursor" where
  "page_key r = (td_occurred_at (tr_decision r), td_transaction_id (tr_decision r))"

text \<open>\<open>ORDER BY occurred_at DESC, transaction_id DESC\<close>\<close>

definition newest_first :: "transaction_record list \<Rightarrow> transaction_record list" where
  "newest_first rows = rev (sort_key page_key rows)"

definition list_query :: "tx_tables \<Rightarrow> transaction_filters \<Rightarrow> page_cursor option \<Rightarrow> transaction_record list" where
  "list_query db f cursor =
     newest_first (filter (\<lambda>r. matches f r \<and> if_given cursor (\<lambda>c. page_key r < c)) (transactions db))"

definition list_transactions ::
    "tx_tables \<Rightarrow> transaction_filters \<Rightarrow> int \<Rightarrow> page_cursor option \<Rightarrow>
     db_error + transaction_record list \<times> page_cursor option" where
  "list_transactions db f limit cursor =
     (if \<not> (1 \<le> limit \<and> limit \<le> MAX_PAGE_SIZE) then Inl ValueError
      else
        (let rows = take (nat limit + 1) (list_query db f cursor)
         in if nat limit < length rows
            then (let page = take (nat limit) rows in Inr (page, Some (page_key (last page))))
            else Inr (rows, None)))"

text \<open>The totals of the batch summary.\<close>

definition summarize_transactions :: "tx_tables \<Rightarrow> int \<Rightarrow> int \<times> int \<times> (string \<times> int) list" where
  "summarize_transactions db since =
     (let rows = map tr_decision (filter (\<lambda>r. since \<le> tr_created_at r) (transactions db))
      in (int (length rows), int (length (filter td_is_fraud rows)),
          map (\<lambda>c. (c, int (length (filter (\<lambda>d. td_category d = c) rows))))
            (remdups (map td_category rows))))"

end
