(* ===== verification/Rule_Store.thy ===== *)
theory Rule_Store
  imports Scoring Transactions
begin

text \<open>
  The append-only table of rule-set versions (\<open>app/database.py\<close>): publishing with optimistic
  concurrency, loading the active or any version, listing. What the repository does not define is
  gathered in \<open>externals\<close>: SHA-256, the text of a \<open>float\<close>, pydantic's integer conversion, and
  \<open>jsonb\<close>, the document PostgreSQL gives back for a document stored in a \<open>JSONB\<close> column.
\<close>

section \<open>The table\<close>

record externals =
  sha256 :: "string \<Rightarrow> string"
  repr_float :: "pyfloat \<Rightarrow> string"
  coerce_int :: "json \<Rightarrow> int option"
  jsonb :: "json \<Rightarrow> json"

record rule_set_version_record =
  rv_rule_set_key :: string
  rv_version :: int
  rv_definition :: json
  rv_content_hash :: string
  rv_description :: string
  rv_created_by :: string
  rv_created_at :: int

type_synonym version_table = "rule_set_version_record list"

datatype store_error =
    RuleSetNotFoundError
  | CorruptRuleSetError corrupt
  | RuleSetVersionConflictError
  | StoreValueError
  | StoreDataError

section \<open>Loading\<close>

definition rule_set_from_record :: "externals \<Rightarrow> rule_set_version_record \<Rightarrow> store_error + rule_set" where
  "rule_set_from_record ext r =
     (case load_stored_definition (sha256 ext) (repr_float ext) (coerce_int ext) (rv_definition r)
             (rv_content_hash r) (version_label (rv_rule_set_key r) (rv_version r)) of
        Inl e \<Rightarrow> Inl (CorruptRuleSetError e)
      | Inr d \<Rightarrow>
          Inr \<lparr>rs_key = rv_rule_set_key r, rs_version = rv_version r, rs_definition = d,
               rs_content_hash = rv_content_hash r, rs_description = rv_description r,
               rs_created_by = rv_created_by r, rs_created_at = rv_created_at r\<rparr>)"

text \<open>\<open>WHERE rule_set_key = :key ORDER BY version DESC\<close>\<close>

definition versions_of :: "version_table \<Rightarrow> string \<Rightarrow> rule_set_version_record list" where
  "versions_of t key = rev (sort_key rv_version (filter (\<lambda>r. rv_rule_set_key r = key) t))"

definition get_latest_rule_set :: "externals \<Rightarrow> version_table \<Rightarrow> string \<Rightarrow> store_error + rule_set" where
  "get_latest_rule_set ext t key =
     (case versions_of t key of
        [] \<Rightarrow> Inl RuleSetNotFoundError
      | r # _ \<Rightarrow> rule_set_from_record ext r)"

definition get_rule_set_version ::
    "externals \<Rightarrow> version_table \<Rightarrow> string \<Rightarrow> int \<Rightarrow> store_error + rule_set" where
  "get_rule_set_version ext t key version =
     (case find (\<lambda>r. rv_rule_set_key r = key \<and> rv_version r = version) t of
        None \<Rightarrow> Inl RuleSetNotFoundError
      | Some r \<Rightarrow> rule_set_from_record ext r)"

definition list_records :: "version_table \<Rightarrow> string \<Rightarrow> int \<Rightarrow> int option \<Rightarrow> rule_set_version_record list" where
  "list_records t key limit before =
     take (nat limit)
       (versions_of (filter (\<lambda>r. if_given before (\<lambda>v. rv_version r < v)) t) key)"

definition list_rule_set_versions ::
    "externals \<Rightarrow> version_table \<Rightarrow> string \<Rightarrow> int \<Rightarrow> int option \<Rightarrow> store_error + rule_set list" where
  "list_rule_set_versions ext t key limit before =
     (if \<not> (1 \<le> limit \<and> limit \<le> MAX_PAGE_SIZE) then Inl StoreValueError
      else if (case before of None \<Rightarrow> False | Some v \<Rightarrow> v < 1) then Inl StoreValueError
      else err_map (rule_set_from_record ext) (list_records t key limit before))"

section \<open>Publishing\<close>

text \<open>\<open>coalesce(max(version), 0)\<close>\<close>

definition current_version :: "version_table \<Rightarrow> string \<Rightarrow> int" where
  "current_version t key = Max (insert 0 (rv_version ` {r \<in> set t. rv_rule_set_key r = key}))"

text \<open>The first statement of the unit of work: read the current version and check the expected one.\<close>

definition check_expected :: "version_table \<Rightarrow> string \<Rightarrow> int option \<Rightarrow> store_error + int" where
  "check_expected t key expected =
     (let current = current_version t key
      in if (case expected of None \<Rightarrow> False | Some e \<Rightarrow> current \<noteq> e)
         then Inl RuleSetVersionConflictError else Inr current)"

text \<open>
  The second: insert the next version. \<open>uq_rule_set_versions_key_version\<close> refuses a version that exists
  by then, which the code reports as a conflict.
\<close>

definition insert_version ::
    "version_table \<Rightarrow> rule_set_version_record \<Rightarrow> store_error + version_table" where
  "insert_version t r =
     (if \<not> (length (rv_rule_set_key r) \<le> 64 \<and> int32 (rv_version r) \<and> length (rv_content_hash r) \<le> 64 \<and>
            length (rv_description r) \<le> 500 \<and> length (rv_created_by r) \<le> 255)
      then Inl StoreDataError
      else if rv_version r < 1 then Inl RuleSetVersionConflictError
      else if list_ex (\<lambda>x. rv_rule_set_key x = rv_rule_set_key r \<and> rv_version x = rv_version r) t
      then Inl RuleSetVersionConflictError
      else Inr (t @ [r]))"

definition new_record ::
    "externals \<Rightarrow> int \<Rightarrow> string \<Rightarrow> rule_set_definition \<Rightarrow> string \<Rightarrow> string \<Rightarrow> string \<Rightarrow> int \<Rightarrow>
     rule_set_version_record" where
  "new_record ext now key d h description by current =
     \<lparr>rv_rule_set_key = key, rv_version = current + 1, rv_definition = jsonb ext (model_dump d),
      rv_content_hash = h, rv_description = description, rv_created_by = by, rv_created_at = now\<rparr>"

text \<open>
  \<open>create_rule_set_version\<close> without interference. The committed row is read back and checked after the
  commit, so a failure of that check is raised although the version exists.
\<close>

definition create_rule_set_version ::
    "externals \<Rightarrow> int \<Rightarrow> version_table \<Rightarrow> string \<Rightarrow> rule_set_definition \<Rightarrow> string \<Rightarrow> string \<Rightarrow> string \<Rightarrow>
     int option \<Rightarrow> version_table \<times> (store_error + rule_set)" where
  "create_rule_set_version ext now t key d h description by expected =
     (case err_bind (check_expected t key expected)
             (\<lambda>current. let r = new_record ext now key d h description by current
                        in err_bind (insert_version t r) (\<lambda>t'. Inr (t', r))) of
        Inl e \<Rightarrow> (t, Inl e)
      | Inr (t', r) \<Rightarrow> (t', rule_set_from_record ext r))"

section \<open>Concurrent writers\<close>

text \<open>
  A writer is one call of \<open>create_rule_set_version\<close>: it has not started, has read the current version,
  or has ended with a version number or an error. The two statements of different writers interleave
  in any order.
\<close>

datatype progress = NotStarted | HasRead int | Created int | Failed store_error

record writer =
  w_key :: string
  w_definition :: rule_set_definition
  w_hash :: string
  w_description :: string
  w_created_by :: string
  w_expected :: "int option"
  w_progress :: progress

type_synonym publish_state = "version_table \<times> writer list"

inductive publish_step :: "externals \<Rightarrow> publish_state \<Rightarrow> publish_state \<Rightarrow> bool" for ext where
  read_ok: "i < length ws \<Longrightarrow> w_progress (ws ! i) = NotStarted \<Longrightarrow>
     check_expected t (w_key (ws ! i)) (w_expected (ws ! i)) = Inr n \<Longrightarrow>
     publish_step ext (t, ws) (t, ws[i := (ws ! i)\<lparr>w_progress := HasRead n\<rparr>])"
| read_conflict: "i < length ws \<Longrightarrow> w_progress (ws ! i) = NotStarted \<Longrightarrow>
     check_expected t (w_key (ws ! i)) (w_expected (ws ! i)) = Inl e \<Longrightarrow>
     publish_step ext (t, ws) (t, ws[i := (ws ! i)\<lparr>w_progress := Failed e\<rparr>])"
| write_ok: "i < length ws \<Longrightarrow> w_progress (ws ! i) = HasRead n \<Longrightarrow>
     insert_version t (new_record ext now (w_key (ws ! i)) (w_definition (ws ! i)) (w_hash (ws ! i))
       (w_description (ws ! i)) (w_created_by (ws ! i)) n) = Inr t' \<Longrightarrow>
     publish_step ext (t, ws) (t', ws[i := (ws ! i)\<lparr>w_progress := Created (n + 1)\<rparr>])"
| write_conflict: "i < length ws \<Longrightarrow> w_progress (ws ! i) = HasRead n \<Longrightarrow>
     insert_version t (new_record ext now (w_key (ws ! i)) (w_definition (ws ! i)) (w_hash (ws ! i))
       (w_description (ws ! i)) (w_created_by (ws ! i)) n) = Inl e \<Longrightarrow>
     publish_step ext (t, ws) (t, ws[i := (ws ! i)\<lparr>w_progress := Failed e\<rparr>])"

inductive_cases publish_step_cases: "publish_step ext (t, ws) s'"

inductive publish_reachable :: "externals \<Rightarrow> publish_state \<Rightarrow> publish_state \<Rightarrow> bool" for ext s where
  publish_start: "publish_reachable ext s s"
| publish_next: "publish_reachable ext s s' \<Longrightarrow> publish_step ext s' s'' \<Longrightarrow> publish_reachable ext s s''"

end
