(* ===== verification/Transaction_Facts.thy ===== *)
theory Transaction_Facts
  imports Transactions
begin

text \<open>
  Idempotency of the write path, the invariant of the two tables, the velocity aggregates against
  exact arithmetic, and keyset paging.
\<close>

section \<open>Statements on the tables\<close>

lemma in_transaction_simps [simp]:
  "in_transaction s (Inl e) = (s, Inl e)" "in_transaction s (Inr (s', x)) = (s', Inr x)"
  by (simp_all add: in_transaction_def)

lemma transaction_row_Inr:
  "transaction_row now d = Inr r \<longleftrightarrow>
     (\<exists>amount. numeric_18_2 (td_amount d) = Some amount \<and> 0 < coeff amount \<and>
        length (td_currency d) \<le> 3 \<and> length (td_category d) \<le> 64 \<and>
        fits 32 (td_channel d) \<and> fits 2 (td_country d) \<and> int32 (td_risk_score d) \<and>
        length (td_verdict d) \<le> 16 \<and> length (td_rules_version d) \<le> 128 \<and>
        length (td_rules_hash d) \<le> 64 \<and> fits 128 (td_correlation_id d) \<and>
        0 \<le> td_risk_score d \<and> td_verdict d \<in> {''APPROVED'', ''REVIEW'', ''REJECTED''} \<and>
        td_is_fraud d = (td_verdict d \<noteq> ''APPROVED'') \<and>
        r = \<lparr>tr_decision = d\<lparr>td_amount := amount\<rparr>, tr_created_at = now\<rparr>)"
  by (auto simp: transaction_row_def split: option.splits)

lemma transaction_row_id:
  "transaction_row now d = Inr r \<Longrightarrow> td_transaction_id (tr_decision r) = td_transaction_id d"
  by (auto simp: transaction_row_Inr)

lemma numeric_18_2_scale: "numeric_18_2 d = Some a \<Longrightarrow> expo a = - 2 \<and> \<bar>coeff a\<bar> < 10 ^ 18"
  by (auto simp: numeric_18_2_def Let_def split: if_splits)

lemma numeric_18_2_exact:
  "- 2 \<le> expo d \<Longrightarrow> numeric_18_2 d = Some a \<Longrightarrow> dec_val a = dec_val d"
  using dec_align_val [of "- 2" d] by (auto simp: numeric_18_2_def Let_def dec_val_Dec split: if_splits)

lemma numeric_18_2_stored: "expo a = - 2 \<Longrightarrow> \<bar>coeff a\<bar> < 10 ^ 18 \<Longrightarrow> numeric_18_2 a = Some a"
  by (cases a) (simp add: numeric_18_2_def dec_align_def)

lemma insert_history_Inr:
  "insert_history h db = Inr db' \<Longrightarrow>
     transactions db' = transactions db \<and>
     (db' = db \<and> history_source h \<in> set (map history_source (transaction_history db)) \<or>
      (\<exists>amount. numeric_18_2 (h_amount h) = Some amount \<and>
         history_source h \<notin> set (map history_source (transaction_history db)) \<and>
         db' = db\<lparr>transaction_history := transaction_history db @ [h\<lparr>h_amount := amount\<rparr>]\<rparr>))"
  by (auto simp: insert_history_def split: option.splits if_splits)

lemma history_source_values [simp]:
  "history_source (history_values now d p outcome c) = provenance_source p"
  by (simp add: history_source_def history_values_def provenance_source_def)

lemma history_source_amount [simp]: "history_source (h\<lparr>h_amount := a\<rparr>) = history_source h"
  by (simp add: history_source_def)

lemma insert_history_recorded:
  "insert_history (history_values now d p outcome c) db = Inr db' \<Longrightarrow>
     provenance_source p \<in> history_source ` set (transaction_history db')"
  by (drule insert_history_Inr) (auto simp: image_iff)

lemma find_append: "find P (xs @ ys) = (case find P xs of None \<Rightarrow> find P ys | Some x \<Rightarrow> Some x)"
  by (induction xs) auto

lemma find_transaction_Some:
  "find_transaction db i = Some r \<Longrightarrow> r \<in> set (transactions db) \<and> td_transaction_id (tr_decision r) = i"
  by (auto simp: find_transaction_def find_Some_iff)

lemma find_transaction_None:
  "find_transaction db i = None \<longleftrightarrow> i \<notin> td_transaction_id ` tr_decision ` set (transactions db)"
  by (auto simp: find_transaction_def find_None_iff)

section \<open>What one call does\<close>

text \<open>The three ways a call returns: stored, repeated, or refused with nothing written.\<close>

lemma record_decision_cases:
  obtains (stored) row db' where "record_decision now db d p = (db', Inr \<lparr>rr_outcome = EVALUATED, rr_decision = d\<rparr>)"
      "find_transaction db (td_transaction_id d) = None" "transaction_row now d = Inr row"
      "insert_history (history_values now d p EVALUATED (td_correlation_id d))
         (db\<lparr>transactions := transactions db @ [row]\<rparr>) = Inr db'"
  | (repeated) r row db' where
      "record_decision now db d p = (db', Inr \<lparr>rr_outcome = DUPLICATE, rr_decision = tr_decision r\<rparr>)"
      "find_transaction db (td_transaction_id d) = Some r" "transaction_row now d = Inr row"
      "same_transaction (tr_decision r) d"
      "insert_history (history_values now (tr_decision r) p DUPLICATE (td_correlation_id d)) db = Inr db'"
  | (refused) e where "record_decision now db d p = (db, Inl e)"
proof (cases "record_work now db d p")
  case (Inl e)
  with refused show ?thesis by (simp add: record_decision_def)
next
  case (Inr x)
  obtain db' res where x: "x = (db', res)" by (cases x)
  from Inr x have rd: "record_decision now db d p = (db', Inr res)" by (simp add: record_decision_def)
  from Inr obtain row where row: "transaction_row now d = Inr row" by (auto simp: record_work_def)
  show ?thesis
  proof (cases "find_transaction db (td_transaction_id d)")
    case None
    with Inr x row stored [of db' row] rd show ?thesis by (auto simp: record_work_def)
  next
    case (Some r)
    with Inr x row repeated [of db' r row] rd show ?thesis
      by (auto simp: record_work_def Let_def decision_from_record_def)
  qed
qed

lemma record_decision_transactions:
  "\<exists>rows. transactions (fst (record_decision now db d p)) = transactions db @ rows \<and>
     list_all (\<lambda>r. td_transaction_id (tr_decision r) = td_transaction_id d) rows"
  by (rule record_decision_cases [of now db d p])
    (auto dest!: insert_history_Inr transaction_row_id intro: exI [of _ "[]"])

section \<open>The invariant of the tables\<close>

text \<open>An audit row repeats the decision of the transaction it is about.\<close>

definition audits :: "tx_tables \<Rightarrow> transaction_history_record \<Rightarrow> bool" where
  "audits db h \<longleftrightarrow>
     (\<exists>r \<in> set (transactions db).
        h = history_values (h_processed_at h) (tr_decision r)
              \<lparr>mp_topic = h_source_topic h, mp_partition = h_source_partition h,
               mp_offset = h_source_offset h, mp_timestamp_ms = h_source_timestamp h\<rparr>
              (h_outcome h) (h_correlation_id h))"

definition row_ok :: "transaction_record \<Rightarrow> bool" where
  "row_ok r \<longleftrightarrow>
     (let d = tr_decision r
      in expo (td_amount d) = - 2 \<and> 0 < coeff (td_amount d) \<and> coeff (td_amount d) < 10 ^ 18 \<and>
         0 \<le> td_risk_score d \<and> td_verdict d \<in> {''APPROVED'', ''REVIEW'', ''REJECTED''} \<and>
         td_is_fraud d = (td_verdict d \<noteq> ''APPROVED''))"

definition tables_ok :: "tx_tables \<Rightarrow> bool" where
  "tables_ok db \<longleftrightarrow>
     distinct (map (\<lambda>r. td_transaction_id (tr_decision r)) (transactions db)) \<and>
     list_all row_ok (transactions db) \<and>
     distinct (map history_source (transaction_history db)) \<and>
     (\<forall>h \<in> set (transaction_history db). audits db h) \<and>
     distinct (map h_transaction_id (filter (\<lambda>h. h_outcome h = EVALUATED) (transaction_history db)))"

lemma transaction_row_ok: "transaction_row now d = Inr r \<Longrightarrow> row_ok r"
  by (auto simp: transaction_row_Inr row_ok_def Let_def dest: numeric_18_2_scale)

lemma audits_mono: "audits db h \<Longrightarrow> set (transactions db) \<subseteq> set (transactions db') \<Longrightarrow> audits db' h"
  unfolding audits_def by blast

lemma audits_values:
  assumes "r \<in> set (transactions db)" "d\<lparr>td_amount := a\<rparr> = tr_decision r"
  shows "audits db ((history_values now d p outcome c)\<lparr>h_amount := a\<rparr>)"
  unfolding audits_def
proof
  show "(history_values now d p outcome c)\<lparr>h_amount := a\<rparr> = history_values
      (h_processed_at ((history_values now d p outcome c)\<lparr>h_amount := a\<rparr>)) (tr_decision r)
      \<lparr>mp_topic = h_source_topic ((history_values now d p outcome c)\<lparr>h_amount := a\<rparr>),
       mp_partition = h_source_partition ((history_values now d p outcome c)\<lparr>h_amount := a\<rparr>),
       mp_offset = h_source_offset ((history_values now d p outcome c)\<lparr>h_amount := a\<rparr>),
       mp_timestamp_ms = h_source_timestamp ((history_values now d p outcome c)\<lparr>h_amount := a\<rparr>)\<rparr>
      (h_outcome ((history_values now d p outcome c)\<lparr>h_amount := a\<rparr>))
      (h_correlation_id ((history_values now d p outcome c)\<lparr>h_amount := a\<rparr>))"
    unfolding assms(2) [symmetric] by (simp add: history_values_def)
qed (rule assms(1))

lemma evaluated_known:
  "tables_ok db \<Longrightarrow> h \<in> set (transaction_history db) \<Longrightarrow>
     h_transaction_id h \<in> td_transaction_id ` tr_decision ` set (transactions db)"
proof -
  assume "tables_ok db" "h \<in> set (transaction_history db)"
  then have "audits db h" by (simp add: tables_ok_def)
  then obtain r where "r \<in> set (transactions db)" "h_transaction_id h = td_transaction_id (tr_decision r)"
    unfolding audits_def by (metis (no_types, lifting) history_values_def
        transaction_history_record.select_convs(1))
  then show ?thesis by blast
qed

lemma tables_ok_store:
  assumes ok: "tables_ok db" and new: "find_transaction db (td_transaction_id d) = None"
    and row: "transaction_row now d = Inr row"
  shows "tables_ok (db\<lparr>transactions := transactions db @ [row]\<rparr>)"
  using ok new transaction_row_id [OF row] transaction_row_ok [OF row]
  by (auto simp: tables_ok_def find_transaction_None image_image intro: audits_mono)

lemma tables_ok_history:
  assumes ok: "tables_ok db" and ins: "insert_history h db = Inr db'"
    and audit: "\<And>a. numeric_18_2 (h_amount h) = Some a \<Longrightarrow> audits db (h\<lparr>h_amount := a\<rparr>)"
    and once: "h_outcome h = EVALUATED \<Longrightarrow>
      h_transaction_id h \<notin> h_transaction_id ` {x \<in> set (transaction_history db). h_outcome x = EVALUATED}"
  shows "tables_ok db'"
  using insert_history_Inr [OF ins]
proof (elim conjE disjE exE)
  fix a assume a: "numeric_18_2 (h_amount h) = Some a"
    and new: "history_source h \<notin> set (map history_source (transaction_history db))"
    and db': "db' = db\<lparr>transaction_history := transaction_history db @ [h\<lparr>h_amount := a\<rparr>]\<rparr>"
  have "audits db' x" if "audits db x" for x using that by (rule audits_mono) (simp add: db')
  with ok audit [OF a] new once show "tables_ok db'"
    by (auto simp: tables_ok_def db' history_source_def)
qed (use ok in simp)

text \<open>Every call, whatever it is given and however it ends, keeps the invariant.\<close>

lemma record_decision_tables_ok:
  assumes ok: "tables_ok db"
  shows "tables_ok (fst (record_decision now db d p))"
proof (rule record_decision_cases [of now db d p])
  fix row db'
  assume rd: "record_decision now db d p = (db', Inr \<lparr>rr_outcome = EVALUATED, rr_decision = d\<rparr>)"
    and new: "find_transaction db (td_transaction_id d) = None" and row: "transaction_row now d = Inr row"
    and ins: "insert_history (history_values now d p EVALUATED (td_correlation_id d))
      (db\<lparr>transactions := transactions db @ [row]\<rparr>) = Inr db'"
  have "td_transaction_id d \<notin> h_transaction_id ` set (transaction_history db)"
    using evaluated_known [OF ok] new by (auto simp: find_transaction_None)
  then have once: "h_transaction_id (history_values now d p EVALUATED (td_correlation_id d)) \<notin> h_transaction_id `
      {x \<in> set (transaction_history (db\<lparr>transactions := transactions db @ [row]\<rparr>)). h_outcome x = EVALUATED}"
    by (auto simp: history_values_def)
  have "tables_ok db'"
  proof (rule tables_ok_history [OF tables_ok_store [OF ok new row] ins _ once])
    fix a assume a: "numeric_18_2 (h_amount (history_values now d p EVALUATED (td_correlation_id d))) = Some a"
    with row have "d\<lparr>td_amount := a\<rparr> = tr_decision row" by (auto simp: transaction_row_Inr history_values_def)
    then show "audits (db\<lparr>transactions := transactions db @ [row]\<rparr>)
        ((history_values now d p EVALUATED (td_correlation_id d))\<lparr>h_amount := a\<rparr>)"
      by (intro audits_values [of row]) auto
  qed
  with rd show "tables_ok (fst (record_decision now db d p))" by simp
next
  fix r row db'
  assume rd: "record_decision now db d p = (db', Inr \<lparr>rr_outcome = DUPLICATE, rr_decision = tr_decision r\<rparr>)"
    and found: "find_transaction db (td_transaction_id d) = Some r"
    and ins: "insert_history (history_values now (tr_decision r) p DUPLICATE (td_correlation_id d)) db = Inr db'"
  from found have r: "r \<in> set (transactions db)" by (simp add: find_transaction_Some)
  have "tables_ok db'"
  proof (rule tables_ok_history [OF ok ins])
    fix a assume "numeric_18_2 (h_amount (history_values now (tr_decision r) p DUPLICATE (td_correlation_id d))) = Some a"
    moreover from ok r have "row_ok r" by (simp add: tables_ok_def list_all_iff)
    then have "numeric_18_2 (td_amount (tr_decision r)) = Some (td_amount (tr_decision r))"
      by (intro numeric_18_2_stored) (auto simp: row_ok_def Let_def)
    ultimately have "(tr_decision r)\<lparr>td_amount := a\<rparr> = tr_decision r" by (simp add: history_values_def)
    with r show "audits db ((history_values now (tr_decision r) p DUPLICATE (td_correlation_id d))\<lparr>h_amount := a\<rparr>)"
      by (intro audits_values)
  qed (simp add: history_values_def)
  with rd show "tables_ok (fst (record_decision now db d p))" by simp
qed (use ok in simp)

text \<open>The tables after a sequence of calls, as the workers make them.\<close>

type_synonym delivery = "int \<times> transaction_decision \<times> message_provenance"

definition record_all :: "tx_tables \<Rightarrow> delivery list \<Rightarrow> tx_tables" where
  "record_all = foldl (\<lambda>db (now, d, p). fst (record_decision now db d p))"

definition no_rows :: tx_tables where
  "no_rows = \<lparr>transactions = [], transaction_history = []\<rparr>"

lemma record_all_ok: "tables_ok db \<Longrightarrow> tables_ok (record_all db ds)"
  by (induction ds arbitrary: db) (auto simp: record_all_def record_decision_tables_ok)

lemma no_rows_ok: "tables_ok no_rows"
  by (simp add: tables_ok_def no_rows_def)

text \<open>
  C24: starting from empty tables, after any sequence of deliveries with any outcomes there is one row
  per transaction id, one audit row per Kafka message, at most one of them \<open>evaluated\<close> per
  transaction, every audit row repeats the decision of its transaction, and every stored decision has
  a positive amount, a non-negative score and a fraud flag that agrees with its verdict.
\<close>

theorem tables_always_ok: "tables_ok (record_all no_rows deliveries)"
  by (rule record_all_ok [OF no_rows_ok])

lemma find_after_record:
  "find_transaction db i = Some r \<Longrightarrow> find_transaction (fst (record_decision now db d p)) i = Some r"
  using record_decision_transactions [of now db d p] by (auto simp: find_transaction_def find_append)

text \<open>The first decision wins, whatever is delivered later.\<close>

lemma first_decision_wins:
  "get_transaction db i = Some r \<Longrightarrow> get_transaction (record_all db deliveries) i = Some r"
  by (induction deliveries arbitrary: db) (auto simp: record_all_def get_transaction_def find_after_record)

lemma record_decision_stored:
  assumes "record_decision now db d p = (db', Inr res)"
  shows "\<exists>r. find_transaction db' (td_transaction_id d) = Some r \<and> provenance_source p \<in> history_source ` set (transaction_history db') \<and>
    (rr_outcome res = DUPLICATE \<longrightarrow> rr_decision res = tr_decision r \<and> same_transaction (tr_decision r) d) \<and>
    (rr_outcome res = EVALUATED \<longrightarrow> rr_decision res = d \<and> (\<exists>a. tr_decision r = d\<lparr>td_amount := a\<rparr>))"
  using assms
proof (cases rule: record_decision_cases [of now db d p])
  case (stored row db'')
  with assms have db': "db' = db''" "res = \<lparr>rr_outcome = EVALUATED, rr_decision = d\<rparr>" by auto
  from insert_history_Inr [OF stored(4)] have "transactions db' = transactions db @ [row]" by (simp add: db')
  with stored(2) transaction_row_id [OF stored(3)] have "find_transaction db' (td_transaction_id d) = Some row"
    by (simp add: find_transaction_def find_append)
  with insert_history_recorded [OF stored(4)] stored(3) db' show ?thesis
    by (auto simp: transaction_row_Inr)
next
  case (repeated r row db'')
  with assms have db': "db' = db''" "res = \<lparr>rr_outcome = DUPLICATE, rr_decision = tr_decision r\<rparr>" by auto
  from insert_history_Inr [OF repeated(5)] repeated(2) have "find_transaction db' (td_transaction_id d) = Some r"
    by (simp add: db' find_transaction_def)
  with insert_history_recorded [OF repeated(5)] repeated(4) db' show ?thesis by auto
qed auto

section \<open>Redelivery and conflicts\<close>

definition provenance_fits :: "message_provenance \<Rightarrow> bool" where
  "provenance_fits p \<longleftrightarrow>
     length (mp_topic p) \<le> 255 \<and> int32 (mp_partition p) \<and> int64 (mp_offset p) \<and>
     (case mp_timestamp_ms p of None \<Rightarrow> True | Some t \<Rightarrow> int64 t)"

lemma insert_history_fits:
  "insert_history (history_values now d p outcome c) db = Inr db' \<Longrightarrow> provenance_fits p"
  by (auto simp: insert_history_def history_values_def provenance_fits_def split: option.splits if_splits)

lemma record_decision_fits: "record_decision now db d p = (db', Inr res) \<Longrightarrow> provenance_fits p"
  by (rule record_decision_cases [of now db d p]) (auto dest: insert_history_fits)

lemma insert_history_again:
  assumes "provenance_fits p" "fits 128 c" "numeric_18_2 (td_amount d) = Some a"
    and "provenance_source p \<in> history_source ` set (transaction_history db)"
  shows "insert_history (history_values now d p outcome c) db = Inr db"
  using assms by (auto simp: insert_history_def provenance_fits_def history_values_def
      history_source_def provenance_source_def split: option.splits)

lemma tables_ok_amount:
  "tables_ok db \<Longrightarrow> find_transaction db i = Some r \<Longrightarrow>
     numeric_18_2 (td_amount (tr_decision r)) = Some (td_amount (tr_decision r))"
  by (rule numeric_18_2_stored)
    (auto simp: tables_ok_def list_all_iff row_ok_def Let_def dest!: find_transaction_Some)

lemma record_decision_again:
  assumes "tables_ok db" "record_decision now db d p = (db', Inr res)"
    and "get_transaction db' (td_transaction_id d) = Some r"
    and "td_transaction_id d' = td_transaction_id d" "same_transaction (tr_decision r) d'"
    and "transaction_row now' d' = Inr row"
  shows "record_decision now' db' d' p = (db', Inr \<lparr>rr_outcome = DUPLICATE, rr_decision = tr_decision r\<rparr>)"
proof -
  have find: "find_transaction db' (td_transaction_id d') = Some r"
    using assms(3,4) by (simp add: get_transaction_def)
  have "tables_ok db'" using record_decision_tables_ok [OF assms(1), of now d p] assms(2) by simp
  note amount = tables_ok_amount [OF this find]
  have "fits 128 (td_correlation_id d')" using assms(6) by (auto simp: transaction_row_Inr)
  moreover have "provenance_source p \<in> history_source ` set (transaction_history db')"
    using record_decision_stored [OF assms(2)] by blast
  ultimately have "insert_history (history_values now' (tr_decision r) p DUPLICATE (td_correlation_id d')) db' = Inr db'"
    using record_decision_fits [OF assms(2)] amount by (intro insert_history_again)
  with find assms(5,6) show ?thesis
    by (simp add: record_decision_def record_work_def decision_from_record_def)
qed

text \<open>Another transaction under a known id is refused, and not even an audit row is written.\<close>

lemma conflicting_duplicate_writes_nothing:
  assumes "get_transaction db (td_transaction_id d) = Some r" "\<not> same_transaction (tr_decision r) d"
    and "transaction_row now d = Inr row"
  shows "record_decision now db d p = (db, Inl ConflictingDuplicateError)"
  using assms by (simp add: record_decision_def record_work_def get_transaction_def decision_from_record_def)

section \<open>Velocity\<close>

lemma numeric_sum_val: "dec_val (numeric_sum ds) = sum_list (map dec_val ds)"
proof (cases ds)
  case (Cons d ds')
  have "dec_val (foldl (\<lambda>a b. Dec (dec_align a (dec_common a b) + dec_align b (dec_common a b)) (dec_common a b)) acc xs)
      = dec_val acc + sum_list (map dec_val xs)" for acc xs
    by (induction xs arbitrary: acc) (auto simp: dec_add_val add.assoc)
  with Cons show ?thesis by simp
qed simp

lemma numeric_sum_cents:
  assumes "\<And>d. d \<in> set ds \<Longrightarrow> expo d = - 2"
  shows "ds = [] \<and> numeric_sum ds = Dec 0 0 \<or> numeric_sum ds = Dec (sum_list (map coeff ds)) (- 2)"
proof (cases ds)
  case (Cons d ds')
  have "\<lbrakk>expo acc = - 2; \<And>d. d \<in> set xs \<Longrightarrow> expo d = - 2\<rbrakk> \<Longrightarrow>
      foldl (\<lambda>a b. Dec (dec_align a (dec_common a b) + dec_align b (dec_common a b)) (dec_common a b)) acc xs =
        Dec (coeff acc + sum_list (map coeff xs)) (- 2)" for acc xs
  proof (induction xs arbitrary: acc)
    case Nil
    then show ?case by (cases acc) simp
  qed (simp add: dec_align_def dec_common_def add.assoc)
  with Cons assms show ?thesis by simp
qed simp

lemma velocity_rows_append:
  assumes "transactions db' = transactions db @ rows"
    and "list_all (\<lambda>r. td_transaction_id (tr_decision r) = i) rows"
  shows "velocity_rows db' user a b i = velocity_rows db user a b i"
proof -
  have "filter (\<lambda>d. td_user_id d = user \<and> a \<le> td_occurred_at d \<and> td_occurred_at d \<le> b \<and>
      td_transaction_id d \<noteq> i) (map tr_decision rows) = []"
    using assms(2) by (auto simp: filter_empty_conv list_all_iff)
  with assms(1) show ?thesis by (simp add: velocity_rows_def)
qed



section \<open>Paging\<close>

definition page_of :: "tx_tables \<times> transaction_filters \<Rightarrow> nat \<Rightarrow> page_cursor option \<Rightarrow>
    transaction_record list \<times> page_cursor option" where
  "page_of = (\<lambda>(db, f) n cursor.
     case list_transactions db f (int n) cursor of Inr page \<Rightarrow> page | Inl _ \<Rightarrow> ([], None))"

definition matching_transactions :: "tx_tables \<times> transaction_filters \<Rightarrow> transaction_record list" where
  "matching_transactions = (\<lambda>(db, f). newest_first (filter (matches f) (transactions db)))"

lemma list_query_rest:
  "list_query db f cursor = after_cursor page_key cursor (matching_transactions (db, f))"
  by (cases cursor) (auto simp: list_query_def matching_transactions_def newest_first_def if_given_def
      rev_filter [symmetric] filter_sort conj_commute)

lemma sorted_rev_strict:
  "sorted (map key xs) \<Longrightarrow> distinct (map key xs) \<Longrightarrow> sorted_wrt (\<lambda>a b. key b < key a) (rev xs)"
  for key :: "'a \<Rightarrow> 'k :: linorder"
proof -
  assume "sorted (map key xs)" "distinct (map key xs)"
  then have "sorted_wrt (<) (map key xs)" by (simp add: strict_sorted_iff)
  then show ?thesis by (simp add: sorted_wrt_rev sorted_wrt_map)
qed

lemma newest_first_descending:
  assumes "distinct (map page_key rows)"
  shows "sorted_wrt (\<lambda>a b. page_key b < page_key a) (newest_first rows)"
proof -
  have "distinct (map page_key (sort_key page_key rows))"
    using assms by (metis distinct_sort distinct_map set_sort)
  then show ?thesis unfolding newest_first_def by (intro sorted_rev_strict) simp_all
qed

lemma take_Suc_more: "n < length (take (Suc n) xs) \<longleftrightarrow> n < length xs"
  by auto

interpretation transaction_pages: keyset_paging matching_transactions page_key page_of
  "\<lambda>(db, f). distinct (map (\<lambda>r. td_transaction_id (tr_decision r)) (transactions db))"
  "\<lambda>n. 1 \<le> n \<and> int n \<le> MAX_PAGE_SIZE"
proof unfold_locales
  fix q :: "tx_tables \<times> transaction_filters"
  assume "(\<lambda>(db, f). distinct (map (\<lambda>r. td_transaction_id (tr_decision r)) (transactions db))) q"
  then have "distinct (map page_key (filter P (transactions (fst q))))" for P
    by (cases q) (auto simp: distinct_map page_key_def inj_on_def)
  then show "sorted_wrt (\<lambda>a b. page_key b < page_key a) (matching_transactions q)"
    by (cases q) (auto simp: matching_transactions_def intro: newest_first_descending)
next
  fix q :: "tx_tables \<times> transaction_filters" and n :: nat and c :: "page_cursor option"
  assume n: "1 \<le> n \<and> int n \<le> MAX_PAGE_SIZE"
  obtain db f where q: "q = (db, f)" by (cases q)
  let ?rest = "after_cursor page_key c (matching_transactions q)"
  have page: "page_of q n c = (if n < length ?rest then (take n ?rest, Some (page_key (last (take n ?rest))))
      else (?rest, None))"
    using n by (simp add: page_of_def list_transactions_def q list_query_rest Let_def min_def)
  then show "fst (page_of q n c) = take n ?rest" by simp
  show "?rest \<noteq> [] \<and> k = page_key (last (fst (page_of q n c)))" if "snd (page_of q n c) = Some k" for k
    using that page n by (auto split: if_splits)
  show "drop n ?rest = []" if "snd (page_of q n c) = None"
    using that page by (auto split: if_splits)
qed simp

text \<open>Following the cursor from the first page visits every selected decision once, newest first.\<close>

lemma paging_complete:
  assumes "tables_ok db" "1 \<le> limit" "int limit \<le> MAX_PAGE_SIZE"
  shows "concat (fetch_pages (page_of (db, f) limit) (Suc (length (matching_transactions (db, f)))) None) =
    newest_first (filter (matches f) (transactions db))"
  using transaction_pages.all_pages_from_start [of "(db, f)" limit] assms
  by (simp add: tables_ok_def matching_transactions_def del: fetch_pages.simps)

section \<open>Examples\<close>

definition example_decision :: transaction_decision where
  "example_decision =
     \<lparr>td_transaction_id = 17, td_user_id = 4, td_amount = Dec 12550 (- 2), td_currency = ''ZAR'',
      td_category = ''GROCERIES'', td_occurred_at = 1000, td_risk_score = 0, td_verdict = ''APPROVED'',
      td_is_fraud = False, td_triggered_rules = [], td_rules_version = ''fraud-default@v1'',
      td_rules_hash = ''00'', td_correlation_id = None, td_channel = Some ''ONLINE'', td_country = None,
      td_enrichment = None\<rparr>"

text \<open>The same transaction, scored again later with another result, and one with another amount.\<close>

definition rescored_decision :: transaction_decision where
  "rescored_decision = example_decision\<lparr>td_risk_score := 40, td_verdict := ''REVIEW'', td_is_fraud := True\<rparr>"

definition other_decision :: transaction_decision where
  "other_decision = example_decision\<lparr>td_amount := Dec 99 (- 2)\<rparr>"

definition example_provenance :: message_provenance where
  "example_provenance = \<lparr>mp_topic = ''tx'', mp_partition = 0, mp_offset = 41, mp_timestamp_ms = Some 5\<rparr>"

definition example_tables :: tx_tables where
  "example_tables = fst (record_decision 7 no_rows example_decision example_provenance)"

definition example_row :: transaction_record where
  "example_row = \<lparr>tr_decision = example_decision, tr_created_at = 7\<rparr>"

lemma example_stored:
  "record_decision 7 no_rows example_decision example_provenance =
     (example_tables, Inr \<lparr>rr_outcome = EVALUATED, rr_decision = example_decision\<rparr>)"
  "get_transaction example_tables 17 = Some example_row"
  "transaction_row 9 rescored_decision = Inr \<lparr>tr_decision = rescored_decision, tr_created_at = 9\<rparr>"
  "same_transaction (tr_decision example_row) rescored_decision"
  "\<not> same_transaction (tr_decision example_row) other_decision"
  "transaction_row 9 other_decision = Inr \<lparr>tr_decision = other_decision, tr_created_at = 9\<rparr>"
  by code_simp+

lemma example_tables_ok: "tables_ok example_tables"
  unfolding example_tables_def by (rule record_decision_tables_ok [OF no_rows_ok])



end
