(* ===== verification/Rule_Store_Facts.thy ===== *)
theory Rule_Store_Facts
  imports Rule_Store Transaction_Facts
begin

text \<open>
  The version table: versions of a key are numbered 1, 2, 3, ... without gaps whatever the
  interleaving of writers, a version is never changed, at most one writer gets a number; the
  highest version is the one \<open>get_latest_rule_set\<close> loads; paging through versions is complete; and
  what \<open>JSONB\<close> may do to a stored definition.
\<close>

section \<open>Version numbers\<close>

definition versions :: "version_table \<Rightarrow> string \<Rightarrow> int set" where
  "versions t key = rv_version ` {r \<in> set t. rv_rule_set_key r = key}"

definition contiguous :: "version_table \<Rightarrow> bool" where
  "contiguous t \<longleftrightarrow>
     distinct (map (\<lambda>r. (rv_rule_set_key r, rv_version r)) t) \<and>
     (\<forall>key. versions t key = {1..current_version t key})"

lemma current_version_alt: "current_version t key = Max (insert 0 (versions t key))"
  by (simp add: current_version_def versions_def)

lemma versions_finite [simp]: "finite (versions t key)"
  by (simp add: versions_def)

lemma current_version_nonneg [simp]: "0 \<le> current_version t key"
  by (simp add: current_version_alt)

lemma versions_snoc:
  "versions (t @ [r]) key = (if rv_rule_set_key r = key then insert (rv_version r) (versions t key) else versions t key)"
  by (auto simp: versions_def)

lemma current_version_snoc:
  "current_version (t @ [r]) key =
     (if rv_rule_set_key r = key then max (rv_version r) (current_version t key) else current_version t key)"
proof -
  have "Max (insert 0 (insert v (versions t key))) = max v (Max (insert 0 (versions t key)))" for v
    by (subst insert_commute) simp
  then show ?thesis by (simp add: current_version_alt versions_snoc)
qed

lemma contiguous_empty: "contiguous []"
  by (simp add: contiguous_def versions_def current_version_def)

lemma insert_version_Inr:
  "insert_version t r = Inr t' \<Longrightarrow>
     t' = t @ [r] \<and> 1 \<le> rv_version r \<and> rv_version r \<notin> versions t (rv_rule_set_key r)"
  by (auto simp: insert_version_def list_ex_iff versions_def split: if_splits)

lemma insert_version_contiguous:
  assumes c: "contiguous t" and ins: "insert_version t r = Inr t'"
    and le: "rv_version r \<le> current_version t (rv_rule_set_key r) + 1"
  shows "contiguous t' \<and> rv_version r = current_version t (rv_rule_set_key r) + 1"
proof -
  note i = insert_version_Inr [OF ins]
  let ?cur = "current_version t (rv_rule_set_key r)"
  have vs: "versions t (rv_rule_set_key r) = {1..?cur}" using c by (simp add: contiguous_def)
  with i le have v: "rv_version r = ?cur + 1" by auto
  have new: "(rv_rule_set_key r, rv_version r) \<notin> (\<lambda>r. (rv_rule_set_key r, rv_version r)) ` set t"
    using i by (auto simp: versions_def)
  have "versions t' key = {1..current_version t' key}" for key
  proof (cases "rv_rule_set_key r = key")
    case True
    then show ?thesis using vs v current_version_nonneg [of t key] i
      by (auto simp: versions_snoc current_version_snoc)
  next
    case False
    with c i show ?thesis by (simp add: versions_snoc current_version_snoc contiguous_def)
  qed
  with c i new v show ?thesis by (simp add: contiguous_def)
qed

section \<open>Concurrent writers\<close>

definition writer_ok :: "version_table \<Rightarrow> writer \<Rightarrow> bool" where
  "writer_ok t w \<longleftrightarrow>
     (case w_progress w of
        HasRead n \<Rightarrow> n \<le> current_version t (w_key w) \<and> (w_expected w = None \<or> w_expected w = Some n)
      | Created v \<Rightarrow>
          (\<exists>r \<in> set t. rv_rule_set_key r = w_key w \<and> rv_version r = v \<and> rv_content_hash r = w_hash w \<and>
             rv_created_by r = w_created_by w) \<and>
          (w_expected w = None \<or> w_expected w = Some (v - 1))
      | _ \<Rightarrow> True)"

definition created_once :: "writer list \<Rightarrow> bool" where
  "created_once ws \<longleftrightarrow>
     (\<forall>i j v. i < length ws \<and> j < length ws \<and> i \<noteq> j \<and> w_key (ws ! i) = w_key (ws ! j) \<and>
        w_progress (ws ! i) = Created v \<longrightarrow> w_progress (ws ! j) \<noteq> Created v)"

definition publish_inv :: "version_table \<Rightarrow> publish_state \<Rightarrow> bool" where
  "publish_inv t0 = (\<lambda>(t, ws).
     contiguous t \<and> (\<exists>added. t = t0 @ added) \<and> list_all (writer_ok t) ws \<and> created_once ws)"

lemma writer_ok_mono:
  assumes "writer_ok t w" shows "writer_ok (t @ [r]) w"
proof (cases "w_progress w")
  case (HasRead n)
  with assms show ?thesis by (auto simp: writer_ok_def current_version_snoc)
next
  case (Created v)
  with assms show ?thesis by (auto simp: writer_ok_def)
qed (simp_all add: writer_ok_def)

lemma list_all_update: "list_all P xs \<Longrightarrow> P x \<Longrightarrow> list_all P (xs[i := x])"
  using set_update_subset_insert [of xs i x] by (auto simp: list_all_iff)

lemma created_once_update:
  assumes "created_once ws" "i < length ws" "\<And>v. w_progress x \<noteq> Created v" "w_key x = w_key (ws ! i)"
  shows "created_once (ws[i := x])"
  using assms unfolding created_once_def by (auto simp: nth_list_update)

lemma created_once_new:
  assumes once: "created_once ws" and i: "i < length ws" and ok: "list_all (writer_ok t) ws"
    and key: "w_key x = w_key (ws ! i)" and new: "v \<notin> versions t (w_key (ws ! i))" and x: "w_progress x = Created v"
  shows "created_once (ws[i := x])"
proof -
  have "w_progress (ws ! j) \<noteq> Created v" if "j < length ws" "w_key (ws ! j) = w_key (ws ! i)" for j
  proof
    assume "w_progress (ws ! j) = Created v"
    moreover from ok that(1) have "writer_ok t (ws ! j)" by (simp add: list_all_length)
    ultimately have "v \<in> versions t (w_key (ws ! j))" by (auto simp: writer_ok_def versions_def)
    with new that(2) show False by simp
  qed
  with once i key x show ?thesis unfolding created_once_def by (auto simp: nth_list_update)
qed

lemma check_expected_Inr:
  "check_expected t key expected = Inr n \<longleftrightarrow>
     n = current_version t key \<and> (expected = None \<or> expected = Some n)"
  by (auto simp: check_expected_def Let_def split: option.splits)

lemma publish_inv_step:
  assumes inv: "publish_inv t0 (t, ws)" and step: "publish_step ext (t, ws) s'"
  shows "publish_inv t0 s'"
proof -
  from inv have t: "contiguous t" "\<exists>added. t = t0 @ added" and ok: "list_all (writer_ok t) ws"
    and once: "created_once ws" by (auto simp: publish_inv_def)
  from step show ?thesis
  proof (cases rule: publish_step_cases [consumes 1, case_names read_ok read_conflict write_ok write_conflict])
    case (read_ok i n)
    then have "writer_ok t ((ws ! i)\<lparr>w_progress := HasRead n\<rparr>)"
      by (auto simp: writer_ok_def check_expected_Inr)
    with t ok once read_ok show ?thesis
      by (auto simp: publish_inv_def intro: list_all_update created_once_update)
  next
    case (read_conflict i e)
    then have "writer_ok t ((ws ! i)\<lparr>w_progress := Failed e\<rparr>)" by (simp add: writer_ok_def)
    with t ok once read_conflict show ?thesis
      by (auto simp: publish_inv_def intro: list_all_update created_once_update)
  next
    case (write_ok i n now t')
    let ?w = "ws ! i"
    let ?r = "new_record ext now (w_key ?w) (w_definition ?w) (w_hash ?w) (w_description ?w) (w_created_by ?w) n"
    from ok write_ok(2) have "writer_ok t ?w" by (simp add: list_all_length)
    with write_ok(3) have n: "n \<le> current_version t (w_key ?w)" "w_expected ?w = None \<or> w_expected ?w = Some n"
      by (simp_all add: writer_ok_def)
    then have "rv_version ?r \<le> current_version t (rv_rule_set_key ?r) + 1" by (simp add: new_record_def)
    from insert_version_contiguous [OF t(1) write_ok(4) this] have "contiguous t'" by blast
    moreover from insert_version_Inr [OF write_ok(4)] have t': "t' = t @ [?r]"
      and new: "n + 1 \<notin> versions t (w_key ?w)" by (simp_all add: new_record_def)
    from ok have "list_all (writer_ok t') ws" unfolding t' by (auto simp: list_all_iff intro: writer_ok_mono)
    moreover have "writer_ok t' (?w\<lparr>w_progress := Created (n + 1)\<rparr>)"
      using n(2) by (auto simp: writer_ok_def t' new_record_def)
    moreover have "created_once (ws[i := ?w\<lparr>w_progress := Created (n + 1)\<rparr>])"
      using once write_ok(2) ok _ new by (rule created_once_new) simp_all
    ultimately show ?thesis using t(2) write_ok(1) by (auto simp: publish_inv_def t' intro: list_all_update)
  next
    case (write_conflict i n now e)
    then have "writer_ok t ((ws ! i)\<lparr>w_progress := Failed e\<rparr>)" by (simp add: writer_ok_def)
    with t ok once write_conflict show ?thesis
      by (auto simp: publish_inv_def intro: list_all_update created_once_update)
  qed
qed

lemma publish_inv_start:
  "contiguous t \<Longrightarrow> list_all (\<lambda>w. w_progress w = NotStarted) ws \<Longrightarrow> publish_inv t (t, ws)"
  by (auto simp: publish_inv_def list_all_iff writer_ok_def created_once_def)

lemma publish_inv_reachable:
  "publish_reachable ext s s' \<Longrightarrow> publish_inv t0 s \<Longrightarrow> publish_inv t0 s'"
  by (induction rule: publish_reachable.induct) (auto dest: publish_inv_step)

text \<open>
  C9: however the statements of concurrent publishers interleave, the versions of every rule set stay
  numbered 1 to n without gap or repetition, no existing version is changed or removed, two writers
  of a key never get the same number, and a writer that stated the expected current version
  \<open>e\<close> only ever gets version \<open>e + 1\<close>, carrying its own content.
\<close>

theorem concurrent_publishing:
  assumes "contiguous t" "list_all (\<lambda>w. w_progress w = NotStarted) ws"
    and "publish_reachable ext (t, ws) (t', ws')"
  shows "contiguous t' \<and> (\<exists>added. t' = t @ added) \<and> created_once ws' \<and> list_all (writer_ok t') ws'"
  using publish_inv_reachable [OF assms(3) publish_inv_start [OF assms(1,2)]]
  by (simp add: publish_inv_def)

section \<open>The active version\<close>

lemma insort_snoc: "f x \<le> f r \<Longrightarrow> insort_key f x (ys @ [r]) = insort_key f x ys @ [r]"
  by (induction ys) auto

lemma sort_key_snoc:
  "(\<And>x. x \<in> set xs \<Longrightarrow> f x \<le> f r) \<Longrightarrow> sort_key f (xs @ [r]) = sort_key f xs @ [r]"
  by (induction xs) (auto simp: insort_snoc)

lemma versions_of_snoc:
  assumes "\<And>v. v \<in> versions t (rv_rule_set_key r) \<Longrightarrow> v \<le> rv_version r"
  shows "versions_of (t @ [r]) (rv_rule_set_key r) = r # versions_of t (rv_rule_set_key r)"
proof -
  have "sort_key rv_version (filter (\<lambda>x. rv_rule_set_key x = rv_rule_set_key r) t @ [r]) =
      sort_key rv_version (filter (\<lambda>x. rv_rule_set_key x = rv_rule_set_key r) t) @ [r]"
    by (rule sort_key_snoc, rule assms) (auto simp: versions_def)
  then show ?thesis by (simp add: versions_of_def)
qed

lemma create_Inr:
  assumes "create_rule_set_version ext now t key d h description by expected = (t', Inr rs)"
  shows "\<exists>r. r = new_record ext now key d h description by (current_version t key) \<and>
     insert_version t r = Inr t' \<and> rule_set_from_record ext r = Inr rs \<and>
     (expected = None \<or> expected = Some (current_version t key))"
  using assms by (auto simp: create_rule_set_version_def check_expected_Inr Let_def split: sum.splits)

lemma rule_set_from_record_Inr:
  "rule_set_from_record ext r = Inr rs \<longleftrightarrow>
     load_stored_definition (sha256 ext) (repr_float ext) (coerce_int ext) (rv_definition r)
       (rv_content_hash r) (version_label (rv_rule_set_key r) (rv_version r)) = Inr (rs_definition rs) \<and>
     rs_key rs = rv_rule_set_key r \<and> rs_version rs = rv_version r \<and>
     rs_content_hash rs = rv_content_hash r \<and> rs_description rs = rv_description r \<and>
     rs_created_by rs = rv_created_by r \<and> rs_created_at rs = rv_created_at r"
  by (cases rs) (auto simp: rule_set_from_record_def split: sum.splits)

text \<open>What publishing appends is the active version from then on.\<close>

lemma create_latest:
  assumes "contiguous t" "create_rule_set_version ext now t key d h description by expected = (t', Inr rs)"
  shows "get_latest_rule_set ext t' key = Inr rs \<and> rs_version rs = current_version t key + 1"
proof -
  let ?r = "new_record ext now key d h description by (current_version t key)"
  from create_Inr [OF assms(2)] have ins: "insert_version t ?r = Inr t'"
    and load: "rule_set_from_record ext ?r = Inr rs" by blast+
  have r: "rv_rule_set_key ?r = key" "rv_version ?r = current_version t key + 1" by (simp_all add: new_record_def)
  have t': "t' = t @ [?r]" using insert_version_Inr [OF ins] by simp
  have vs: "v \<le> rv_version ?r" if "v \<in> versions t key" for v
    using assms(1) that by (auto simp: contiguous_def r)
  then have "versions_of t' key = ?r # versions_of t key"
    unfolding t' using versions_of_snoc [of t ?r] r by simp
  then show ?thesis using load r by (simp add: get_latest_rule_set_def rule_set_from_record_Inr)
qed

lemma created_contiguous:
  assumes "contiguous t" "create_rule_set_version ext now t key d h description by expected = (t', Inr rs)"
  shows "contiguous t'"
proof -
  let ?r = "new_record ext now key d h description by (current_version t key)"
  from create_Inr [OF assms(2)] have "insert_version t ?r = Inr t'" by blast
  from insert_version_contiguous [OF assms(1) this] show ?thesis by (simp add: new_record_def)
qed

text \<open>
  Publishing takes effect at once and completely: the new version is one above the current one
  (and the current one was the expected one, if one was stated), it is what loading the active version
  returns from then on, it can be loaded by its number, and every version loaded before loads as before.
\<close>

theorem publishing_activates:
  assumes "contiguous t" "create_rule_set_version ext now t key d h description by expected = (t', Inr rs)"
  shows "rs_version rs = current_version t key + 1 \<and>
    (expected = None \<or> expected = Some (current_version t key)) \<and>
    get_latest_rule_set ext t' key = Inr rs \<and>
    get_rule_set_version ext t' key (rs_version rs) = Inr rs \<and>
    (\<forall>other v old. get_rule_set_version ext t other v = Inr old \<longrightarrow>
       get_rule_set_version ext t' other v = Inr old) \<and>
    contiguous t'"
proof -
  let ?r = "new_record ext now key d h description by (current_version t key)"
  from create_Inr [OF assms(2)] have ins: "insert_version t ?r = Inr t'"
    and load: "rule_set_from_record ext ?r = Inr rs"
    and expected: "expected = None \<or> expected = Some (current_version t key)" by blast+
  have r: "rv_rule_set_key ?r = key" "rv_version ?r = current_version t key + 1" by (simp_all add: new_record_def)
  have t': "t' = t @ [?r]" using insert_version_Inr [OF ins] by simp
  note latest = conjunct1 [OF create_latest [OF assms]]
  have "find (\<lambda>x. rv_rule_set_key x = key \<and> rv_version x = rv_version ?r) t = None"
    using insert_version_Inr [OF ins] r by (auto simp: find_None_iff versions_def image_iff)
  then have this_version: "get_rule_set_version ext t' key (rs_version rs) = Inr rs"
    using load r by (simp add: get_rule_set_version_def t' find_append rule_set_from_record_Inr)
  have "get_rule_set_version ext t' other v = Inr old" if "get_rule_set_version ext t other v = Inr old" for other v old
    using that by (auto simp: get_rule_set_version_def t' find_append split: option.splits)
  moreover have "contiguous t'" by (rule created_contiguous [OF assms])
  moreover have "rs_version rs = current_version t key + 1" using load r by (simp add: rule_set_from_record_Inr)
  ultimately show ?thesis using expected latest this_version by blast
qed

text \<open>Whatever loads was checked: the form in which the scoring components use it.\<close>

lemma loaded_rule_set_valid:
  "rule_set_from_record ext r = Inr rs \<Longrightarrow> valid_definition (rs_definition rs)"
  by (auto simp: rule_set_from_record_Inr load_accepts intro: model_validate_valid)

lemma latest_valid: "get_latest_rule_set ext t key = Inr rs \<Longrightarrow> valid_definition (rs_definition rs)"
  by (auto simp: get_latest_rule_set_def split: list.splits intro: loaded_rule_set_valid)

section \<open>Paging through versions\<close>

text \<open>The \<open>next_before_version\<close> of the endpoint, from the versions on the page.\<close>

definition next_before_version :: "int \<Rightarrow> int list \<Rightarrow> int option" where
  "next_before_version limit vs =
     (if int (length vs) = limit \<and> vs \<noteq> [] \<and> 1 < last vs then Some (last vs) else None)"

definition version_page ::
    "version_table \<times> string \<Rightarrow> nat \<Rightarrow> int option \<Rightarrow> rule_set_version_record list \<times> int option" where
  "version_page = (\<lambda>(t, key) n before.
     (let rs = list_records t key (int n) before
      in (rs, next_before_version (int n) (map rv_version rs))))"

lemma versions_of_set: "r \<in> set (versions_of t key) \<longleftrightarrow> r \<in> set t \<and> rv_rule_set_key r = key"
  by (auto simp: versions_of_def)

lemma list_records_rest:
  "list_records t key (int n) before = take n (after_cursor rv_version before (versions_of t key))"
  by (cases before) (auto simp: list_records_def versions_of_def if_given_def
      rev_filter [symmetric] filter_sort conj_commute)

interpretation version_pages: keyset_paging "\<lambda>(t, key). versions_of t key" rv_version version_page
  "\<lambda>(t, key). contiguous t" "\<lambda>n. 1 \<le> n \<and> int n \<le> MAX_PAGE_SIZE"
proof unfold_locales
  fix q :: "version_table \<times> string"
  assume ok: "(\<lambda>(t, key). contiguous t) q"
  obtain t key where q: "q = (t, key)" by (cases q)
  have "distinct (map rv_version (filter (\<lambda>r. rv_rule_set_key r = key) t))"
    using ok by (auto simp: q contiguous_def distinct_map inj_on_def)
  then have "distinct (map rv_version (sort_key rv_version (filter (\<lambda>r. rv_rule_set_key r = key) t)))"
    by (simp add: distinct_map)
  then show "sorted_wrt (\<lambda>a b. rv_version b < rv_version a) ((\<lambda>(t, key). versions_of t key) q)"
    unfolding q versions_of_def by (auto intro: sorted_rev_strict)
next
  fix q :: "version_table \<times> string" and n :: nat and c :: "int option"
  assume ok: "(\<lambda>(t, key). contiguous t) q" and n: "1 \<le> n \<and> int n \<le> MAX_PAGE_SIZE"
  obtain t key where q: "q = (t, key)" by (cases q)
  let ?rest = "after_cursor rv_version c (versions_of t key)"
  have page: "version_page q n c = (take n ?rest, next_before_version (int n) (map rv_version (take n ?rest)))"
    by (simp add: version_page_def q list_records_rest Let_def)
  then show "fst (version_page q n c) = take n (after_cursor rv_version c ((\<lambda>(t, key). versions_of t key) q))"
    by (simp add: q)
  show "after_cursor rv_version c ((\<lambda>(t, key). versions_of t key) q) \<noteq> [] \<and> k = rv_version (last (fst (version_page q n c)))"
    if "snd (version_page q n c) = Some k" for k
    using that page by (auto simp: q next_before_version_def last_map split: if_splits)
  show "drop n (after_cursor rv_version c ((\<lambda>(t, key). versions_of t key) q)) = []"
    if none: "snd (version_page q n c) = None"
  proof (rule ccontr)
    assume "drop n (after_cursor rv_version c ((\<lambda>(t, key). versions_of t key) q)) \<noteq> []"
    then have more: "drop n ?rest \<noteq> []" by (simp add: q)
    then have "n < length ?rest" by simp
    then have len: "length (take n ?rest) = n" "take n ?rest \<noteq> []" using n by auto
    with none page have last: "rv_version (last (take n ?rest)) \<le> 1"
      by (auto simp: next_before_version_def last_map split: if_splits)
    obtain x where x: "x \<in> set (drop n ?rest)" using more by (cases "drop n ?rest") auto
    have "sorted_wrt (\<lambda>a b. rv_version b < rv_version a) (versions_of t key)"
      using ok unfolding q by (auto simp: contiguous_def versions_of_def distinct_map inj_on_def intro!: sorted_rev_strict)
    from sorted_after_cursor [OF this, of c] have
      "sorted_wrt (\<lambda>a b. rv_version b < rv_version a) (take n ?rest @ drop n ?rest)" by simp
    then have "rv_version x < rv_version (last (take n ?rest))"
      using x last_in_set [OF len(2)] by (simp only: sorted_wrt_append)
    moreover have "x \<in> set (versions_of t key)" using in_set_dropD [OF x] by (cases c) auto
    then have "rv_version x \<in> versions t key" by (auto simp: versions_of_set versions_def)
    then have "1 \<le> rv_version x" using ok by (auto simp: q contiguous_def)
    ultimately show False using last by simp
  qed
qed simp

text \<open>
  A client that follows \<open>next_before_version\<close> from the first page receives every version of the rule
  set exactly once, newest first.
\<close>

theorem version_paging_complete:
  assumes "contiguous t" "1 \<le> limit" "int limit \<le> MAX_PAGE_SIZE"
  shows "let rows = concat (fetch_pages (version_page (t, key) limit) (Suc (length (versions_of t key))) None)
    in rows = versions_of t key \<and> distinct (map rv_version rows)"
  using version_pages.all_pages_from_start [of "(t, key)" limit]
    version_pages.all_pages_distinct [of "(t, key)" limit] assms
  by (simp add: Let_def del: fetch_pages.simps)

end
