(* ===== verification/Stored_Documents.thy ===== *)
theory Stored_Documents
  imports Rule_Store_Facts Default_Rules "HOL-Library.Multiset"
begin

text \<open>
  A definition is stored as \<open>JSONB\<close>, which keeps a document up to the order of object keys (and the
  notation of its numbers). The canonical form and the validation of a checked definition do not
  depend on key order, so a published version loads again; a \<open>float\<close> literal whose notation changes
  breaks its hash.
\<close>

section \<open>Documents up to key order\<close>

fun json_sort :: "json \<Rightarrow> json" where
  "json_sort (JList xs) = JList (map json_sort xs)"
| "json_sort (JDict kvs) = JDict (sort_key fst (map (\<lambda>(k, x). (k, json_sort x)) kvs))"
| "json_sort j = j"

lemma json_sort_simple [simp]:
  "json_sort j = JInt n \<longleftrightarrow> j = JInt n" "json_sort j = JStr s \<longleftrightarrow> j = JStr s"
  "json_sort j = JNull \<longleftrightarrow> j = JNull" "json_sort j = JBool b \<longleftrightarrow> j = JBool b"
  "json_sort j = JFloat f \<longleftrightarrow> j = JFloat f" "json_sort j = JDec d \<longleftrightarrow> j = JDec d"
  by (cases j; simp)+

lemma sort_key_map: "(\<And>x. x \<in> set xs \<Longrightarrow> g (f x) = h x) \<Longrightarrow> sort_key g (map f xs) = map f (sort_key h xs)"
proof (induction xs)
  case (Cons x xs)
  have "insort_key g (f x) (map f ys) = map f (insort_key h x ys)"
    if "\<And>y. y \<in> set ys \<Longrightarrow> g (f y) = h y" for ys
    using that Cons.prems by (induction ys) auto
  from this [of "sort_key h xs"] Cons show ?case by simp
qed simp

lemma those_map: "those (map g xs) = (if \<forall>x \<in> set xs. g x \<noteq> None then Some (map (the \<circ> g) xs) else None)"
  by (induction xs) (auto split: option.split)

lemma those_sort:
  assumes "\<And>x y. x \<in> set xs \<Longrightarrow> g x = Some y \<Longrightarrow> fst y = fst x"
  shows "those (map g (sort_key fst xs)) = map_option (sort_key fst) (those (map g xs))"
proof -
  have "sort_key fst (map (the \<circ> g) xs) = map (the \<circ> g) (sort_key fst xs)" if "\<forall>x \<in> set xs. g x \<noteq> None"
    using that assms by (intro sort_key_map) fastforce
  then show ?thesis by (simp add: those_map)
qed

text \<open>The canonical form, and with it the hash, does not depend on the order of keys.\<close>

lemma canonical_json_sort: "canonical fl (json_sort j) = canonical fl j"
proof (induction fl j rule: canonical.induct)
  case (7 fl xs)
  then have "map (canonical fl) (map json_sort xs) = map (canonical fl) xs" by simp
  then show ?case by (simp only: json_sort.simps canonical.simps)
next
  case (8 fl kvs)
  let ?g = "\<lambda>(k, x). map_option (Pair k) (canonical fl x)"
  have "sort_key fst (map (\<lambda>(k, x). (k, json_sort x)) kvs) = map (\<lambda>(k, x). (k, json_sort x)) (sort_key fst kvs)"
    by (rule sort_key_map) auto
  moreover have "map ?g (map (\<lambda>(k, x). (k, json_sort x)) (sort_key fst kvs)) = map ?g (sort_key fst kvs)"
    using 8 by (auto simp: comp_def)
  ultimately have "map ?g (sort_key fst (map (\<lambda>(k, x). (k, json_sort x)) kvs)) = map ?g (sort_key fst kvs)"
    by simp
  moreover have "those (map ?g (sort_key fst kvs)) = map_option (sort_key fst) (those (map ?g kvs))"
    by (rule those_sort) auto
  ultimately show ?case
    by (simp add: option.map_comp comp_def sort_key_id_if_sorted)
qed auto

lemma same_canonical: "json_sort j = json_sort j' \<Longrightarrow> canonical fl j = canonical fl j'"
  by (metis canonical_json_sort)

section \<open>Reading an object whose keys were reordered\<close>

lemma same_object:
  assumes "json_sort (JDict kvs') = json_sort (JDict kvs)" "distinct (map fst kvs)"
  shows "map_option json_sort (map_of kvs' k) = map_option json_sort (map_of kvs k)"
    and "fst ` set kvs' = fst ` set kvs"
proof -
  let ?s = "map (\<lambda>(k, x). (k, json_sort x))"
  from assms(1) have sorts: "sort_key fst (?s kvs') = sort_key fst (?s kvs)" by simp
  then have sets: "set (?s kvs') = set (?s kvs)" by (metis set_sort)
  have fsts: "map fst (?s xs) = map fst xs" for xs by (auto simp: comp_def case_prod_beta)
  have "mset (?s kvs') = mset (?s kvs)" using sorts by (metis mset_sort)
  then have "image_mset fst (mset (?s kvs')) = image_mset fst (mset (?s kvs))" by (rule arg_cong)
  then have "mset (map fst kvs') = mset (map fst kvs)" by (simp only: mset_map [symmetric] fsts)
  with assms(2) have "distinct (map fst kvs')" by (metis mset_eq_imp_distinct_iff)
  with assms(2) sets have "map_of (?s kvs') = map_of (?s kvs)"
    by (intro map_of_inject_set [THEN iffD2]) (simp_all only: fsts)
  moreover have "map_of (?s xs) k = map_option json_sort (map_of xs k)" for xs
    by (induction xs) auto
  ultimately show "map_option json_sort (map_of kvs' k) = map_option json_sort (map_of kvs k)" by metis
  from sets show "fst ` set kvs' = fst ` set kvs" 
  proof -
    from sets have "set (map fst (?s kvs')) = set (map fst (?s kvs))" by (simp only: set_map)
    then show ?thesis by (simp only: fsts set_map)
  qed
qed

lemma json_sort_dict: "json_sort j = json_sort (JDict kvs) \<Longrightarrow> \<exists>kvs'. j = JDict kvs'"
  by (cases j) auto

lemma json_sort_list: "json_sort j = json_sort (JList xs) \<Longrightarrow> \<exists>ys. j = JList ys \<and> map json_sort ys = map json_sort xs"
  by (cases j) auto

section \<open>Checked conditions have no object with two keys\<close>

fun one_key :: "json \<Rightarrow> bool" where
  "one_key (JList xs) = list_all (\<lambda>b. b) (map one_key xs)"
| "one_key (JDict kvs) = (length kvs = 1 \<and> list_all (\<lambda>b. b) (map (\<lambda>(k, x). one_key x) kvs))"
| "one_key j = True"

lemma visit_one_key_children:
  assumes "err_map_st (\<lambda>(i, x) c. visit x (f i) d c) (enumerate 0 xs) s = Inr (ts, s')"
    and "\<And>i x c t c'. (i, x) \<in> set (enumerate 0 xs) \<Longrightarrow> visit x (f i) d c = Inr (t, c') \<Longrightarrow> one_key x"
  shows "\<forall>x \<in> set xs. one_key x"
proof -
  have "list_all2 (\<lambda>x t. one_key x) xs ts" using assms by (rule visit_children)
  then show ?thesis by (metis (no_types, lifting) in_set_conv_nth list_all2_conv_all_nth)
qed

lemma json_args_one_key: "\<forall>x \<in> set (json_args raw). one_key x \<Longrightarrow> one_key raw"
  by (cases raw) (auto simp: list_all_iff)

lemma visit_one_key: "visit j loc depth nodes = Inr (t, nodes') \<Longrightarrow> one_key j"
proof (induction j loc depth nodes arbitrary: t nodes' rule: visit.induct)
  case (1 items loc depth nodes)
  from 1(2) obtain ts where lim: "\<not> MAX_EXPRESSION_NODES < nodes + 1" "\<not> MAX_EXPRESSION_DEPTH < depth"
    and st: "err_map_st (\<lambda>(i, x) c. visit x (loc @ [AtIndex i]) (depth + 1) c)
      (enumerate 0 items) (nodes + 1) = Inr (ts, nodes')"
    by (rule visit_list_cases)
  from st have "\<forall>x \<in> set items. one_key x"
    by (rule visit_one_key_children) (use 1(1) lim in blast)
  then show ?case by (auto simp: list_all_iff)
next
  case (2 name raw loc depth nodes)
  from 2(3) obtain op where lim: "\<not> MAX_EXPRESSION_NODES < nodes + 1" "\<not> MAX_EXPRESSION_DEPTH < depth"
    and p: "parse_operator name = Some op" and ar: "\<not> \<not> arity_ok op (length (json_args raw))"
    and operation: "op \<noteq> OpVar \<longrightarrow> (\<exists>ts. err_map_st
      (\<lambda>(i, x) c. visit x (loc @ [AtArgument op i]) (depth + 1) c)
        (enumerate 0 (json_args raw)) (nodes + 1) = Inr (ts, nodes') \<and> result_type op loc ts = Inr t)"
    by (rule visit_op_cases)
  have "\<forall>x \<in> set (json_args raw). one_key x"
  proof (cases "op = OpVar")
    case False
    with operation obtain ts where
      st: "err_map_st (\<lambda>(i, x) c. visit x (loc @ [AtArgument op i]) (depth + 1) c)
        (enumerate 0 (json_args raw)) (nodes + 1) = Inr (ts, nodes')" by blast
    then show ?thesis
      by (rule visit_one_key_children) (use 2(2) [OF lim refl p] ar False in blast)
  next
    case True
    with p ar have p': "parse_operator name = Some OpVar"
      and ar': "\<not> \<not> arity_ok OpVar (length (json_args raw))" by simp_all
    from 2(3) p' show ?thesis
    proof (cases rule: visit_var_cases)
      case (2 n var d)
      have "one_key d" using 2(4) by (rule "2.IH"(1) [OF lim refl p' ar' refl 2(3) refl 2(1) refl])
      with 2(3) show ?thesis by simp
    qed simp
  qed
  from json_args_one_key [OF this] show ?case by simp
qed (auto split: if_splits)

lemma one_key_unique: "one_key j \<Longrightarrow> json_sort j' = json_sort j \<Longrightarrow> j' = j"
proof (induction j arbitrary: j' rule: json_sort.induct)
  case (1 xs)
  from json_sort_list [OF 1(3)] obtain ys where ys: "j' = JList ys" "map json_sort ys = map json_sort xs" by blast
  then have "list_all2 (\<lambda>y x. json_sort y = json_sort x) ys xs"
    by (metis (mono_tags, lifting) list_all2_conv_all_nth map_eq_imp_length_eq nth_map)
  moreover have "y = x" if "x \<in> set xs" "json_sort y = json_sort x" for x y
    using 1(1) [OF that(1) _ that(2)] 1(2) that(1) by (auto simp: list_all_iff)
  ultimately have "list_all2 (=) ys xs"
    by (metis (mono_tags, lifting) list_all2_conv_all_nth nth_mem)
  with ys(1) show ?case by (simp add: list.rel_eq)
next
  case (2 kvs)
  from 2(2) obtain k x where kvs: "kvs = [(k, x)]" by (cases kvs) auto
  from json_sort_dict [OF 2(3)] obtain kvs' where j': "j' = JDict kvs'" by blast
  with 2(3) kvs have s: "sort_key fst (map (\<lambda>(k, x). (k, json_sort x)) kvs') = [(k, json_sort x)]" by simp
  then have "length kvs' = 1" by (metis length_map length_sort One_nat_def length_Cons list.size(3))
  then obtain k' x' where kvs': "kvs' = [(k', x')]" by (cases kvs') auto
  with s have "k' = k" "json_sort x' = json_sort x" by auto
  with 2(1) [of "(k, x)" k x x'] 2(2) show ?case by (simp add: j' kvs' kvs)
qed auto

section \<open>A published version loads again\<close>

lemma reordered_rule:
  assumes "valid_rule r" "json_sort j = json_sort (dump_rule r)" "\<And>n. ci (JInt n) = Some n"
  shows "validate_rule ci j = Inr r"
proof -
  let ?kvs = "[(''code'', JStr (rule_code r)), (''description'', JStr (rule_description r)),
    (''score'', JInt (rule_score r)), (''condition'', rule_condition r)]"
  have dump: "dump_rule r = JDict ?kvs" by (simp add: dump_rule_def)
  with assms(2) obtain kvs where j: "j = JDict kvs" using json_sort_dict by metis
  have dist: "distinct (map fst ?kvs)" by simp
  note same = same_object [OF assms(2) [unfolded dump j] dist]
  have cond: "x = rule_condition r" if "json_sort x = json_sort (rule_condition r)" for x
  proof -
    from assms(1) have "validate_expression (rule_condition r) = Inr ()" by (simp add: valid_rule_def)
    then have "one_key (rule_condition r)" by (auto simp: validate_visit intro: visit_one_key)
    from one_key_unique [OF this that] show ?thesis .
  qed
  from same(1) [of "''code''"] same(1) [of "''description''"] same(1) [of "''score''"] same(1) [of "''condition''"]
  have "map_of kvs ''code'' = Some (JStr (rule_code r))" "map_of kvs ''description'' = Some (JStr (rule_description r))"
    "map_of kvs ''score'' = Some (JInt (rule_score r))" "map_of kvs ''condition'' = Some (rule_condition r)"
    by (auto simp: cond)
  moreover have "fst ` set kvs = {''code'', ''description'', ''score'', ''condition''}" using same(2) by simp
  ultimately show ?thesis
    using assms(1,3) by (auto simp: j valid_rule_def split: json.splits)
qed

lemma reordered_rules:
  assumes "list_all valid_rule rs" "map json_sort js = map (\<lambda>r. json_sort (dump_rule r)) rs"
    and "\<And>n. ci (JInt n) = Some n"
  shows "list_all2 (\<lambda>j r. validate_rule ci j = Inr r) js rs"
proof (rule list_all2_all_nthI)
  show len: "length js = length rs" using assms(2) by (metis length_map)
  fix i assume i: "i < length js"
  with len assms(2) have "json_sort (js ! i) = json_sort (dump_rule (rs ! i))" by (metis (no_types, lifting) nth_map)
  moreover have "valid_rule (rs ! i)" using assms(1) i len by (simp add: list_all_length)
  ultimately show "validate_rule ci (js ! i) = Inr (rs ! i)" using assms(3) by (intro reordered_rule)
qed

lemma reordered_definition:
  assumes "valid_definition d" "json_sort j = json_sort (model_dump d)" "\<And>n. ci (JInt n) = Some n"
  shows "model_validate ci j = Inr d"
proof -
  let ?kvs = "[(''velocity_window_seconds'', JInt (velocity_window_seconds d)),
    (''review_threshold'', JInt (review_threshold d)), (''reject_threshold'', JInt (reject_threshold d)),
    (''rules'', JList (map dump_rule (rules d)))]"
  have dump: "model_dump d = JDict ?kvs" by (simp add: model_dump_def)
  with assms(2) obtain kvs where j: "j = JDict kvs" using json_sort_dict by metis
  have dist: "distinct (map fst ?kvs)" by simp
  note same = same_object [OF assms(2) [unfolded dump j] dist]
  from same(1) [of "''rules''"] obtain x where x: "map_of kvs ''rules'' = Some x"
    "json_sort x = json_sort (JList (map dump_rule (rules d)))" by auto
  from json_sort_list [OF x(2)] obtain js where js: "x = JList js"
    "map json_sort js = map (\<lambda>r. json_sort (dump_rule r)) (rules d)" by (auto simp: comp_def)
  have "list_all valid_rule (rules d)" using assms(1) by (simp add: valid_definition_def)
  from reordered_rules [OF this js(2) assms(3)]
  have all2: "list_all2 (\<lambda>j r. validate_rule ci j = Inr r) js (rules d)" .
  then have len: "length js = length (rules d)" by (rule list_all2_lengthD)
  have rules: "check_rules ci (JList js) = Inr (rules d)"
    using assms(1) len all2
    by (auto simp: valid_definition_def all_checked_Inr unique_codes_def duplicated_Nil)
  from same(1) [of "''velocity_window_seconds''"] same(1) [of "''review_threshold''"]
    same(1) [of "''reject_threshold''"]
  have "map_of kvs ''velocity_window_seconds'' = Some (JInt (velocity_window_seconds d))"
    "map_of kvs ''review_threshold'' = Some (JInt (review_threshold d))"
    "map_of kvs ''reject_threshold'' = Some (JInt (reject_threshold d))"
    by auto
  moreover have "fst ` set kvs = {''velocity_window_seconds'', ''review_threshold'', ''reject_threshold'', ''rules''}"
    using same(2) by simp
  ultimately show ?thesis
    using assms(1,3) x(1) rules by (auto simp: j js(1) valid_definition_def simp del: check_rules.simps)
qed

text \<open>
  What PostgreSQL documents of \<open>JSONB\<close>, for documents without a \<open>float\<close>: the same document, with object
  keys possibly in another order.
\<close>

fun float_free :: "json \<Rightarrow> bool" where
  "float_free (JFloat f) = False"
| "float_free (JDec d) = False"
| "float_free (JList xs) = list_all (\<lambda>b. b) (map float_free xs)"
| "float_free (JDict kvs) = list_all (\<lambda>b. b) (map (\<lambda>(k, x). float_free x) kvs)"
| "float_free j = True"

definition keeps_documents :: "(json \<Rightarrow> json) \<Rightarrow> bool" where
  "keeps_documents store \<longleftrightarrow> (\<forall>j. float_free j \<longrightarrow> json_sort (store j) = json_sort j)"

text \<open>
  A definition without \<open>float\<close> literals that the publishing checks accept is published: unless the
  expected version is wrong, the new version is stored, read back, passes its integrity check and
  carries exactly the rules that were checked, although \<open>JSONB\<close> reorders object keys.
\<close>

theorem accepted_definition_publishes:
  assumes "contiguous t" "parse_rule_set_definition (coerce_int ext) raw = Inr d"
    and "content_hash (sha256 ext) (repr_float ext) d = Some h"
    and "float_free (model_dump d)" "keeps_documents (jsonb ext)" "\<And>n. coerce_int ext (JInt n) = Some n"
    and "expected = None \<or> expected = Some (current_version t key)"
    and "length key \<le> 64" "length h \<le> 64" "length description \<le> 500" "length by \<le> 255"
    and "current_version t key < 2 ^ 31 - 1"
  shows "\<exists>t' rs. create_rule_set_version ext now t key d h description by expected = (t', Inr rs) \<and>
    rs_definition rs = d \<and> rs_version rs = current_version t key + 1 \<and> get_latest_rule_set ext t' key = Inr rs"
proof -
  let ?r = "new_record ext now key d h description by (current_version t key)"
  have parsed: "valid_definition d" "\<exists>a. dry_run d = Inr a"
    using assms(2) by (auto simp: parse_accepts intro: model_validate_valid)
  have sorted: "json_sort (jsonb ext (model_dump d)) = json_sort (model_dump d)"
    using assms(4,5) by (simp add: keeps_documents_def)
  have "definition_json_hash (sha256 ext) (repr_float ext) (jsonb ext (model_dump d)) = Some h"
    using assms(3) same_canonical [OF sorted] by (simp add: content_hash_def definition_json_hash_def)
  with reordered_definition [OF parsed(1) sorted assms(6)] parsed(2)
  have load: "load_stored_definition (sha256 ext) (repr_float ext) (coerce_int ext) (rv_definition ?r)
      (rv_content_hash ?r) label = Inr d" for label
    by (simp add: load_accepts new_record_def)
  then have rs: "\<exists>rs. rule_set_from_record ext ?r = Inr rs \<and> rs_definition rs = d"
    by (simp add: rule_set_from_record_def)
  have "rv_version ?r \<notin> versions t key"
    using assms(1) by (simp add: contiguous_def new_record_def)
  then have "\<not> list_ex (\<lambda>x. rv_rule_set_key x = key \<and> rv_version x = rv_version ?r) t"
    by (auto simp: list_ex_iff versions_def image_iff)
  then have "insert_version t ?r = Inr (t @ [?r])"
    using assms(8-12) by (simp add: insert_version_def new_record_def int32_def not_less)
  moreover have "check_expected t key expected = Inr (current_version t key)"
    using assms(7) by (simp add: check_expected_Inr)
  ultimately obtain rs where rs: "create_rule_set_version ext now t key d h description by expected = (t @ [?r], Inr rs)"
    "rs_definition rs = d" using rs by (auto simp: create_rule_set_version_def Let_def)
  from create_latest [OF assms(1) this(1)] rs show ?thesis by blast
qed

section \<open>Examples\<close>

text \<open>External services for the examples: a hash that keeps the text, and a \<open>JSONB\<close> that keeps documents.\<close>

definition example_externals :: externals where
  "example_externals =
     \<lparr>sha256 = (\<lambda>s. take 64 s), repr_float = no_float, coerce_int = json_int, jsonb = json_sort\<rparr>"

lemma json_sort_idem: "json_sort (json_sort j) = json_sort j"
proof (induction j rule: json_sort.induct)
  case (1 xs)
  then show ?case by simp
next
  case (2 kvs)
  let ?s = "\<lambda>(k, x). (k, json_sort x)"
  have "sort_key fst (map ?s kvs) = map ?s (sort_key fst kvs)" by (rule sort_key_map) auto
  moreover have "map ?s (map ?s (sort_key fst kvs)) = map ?s (sort_key fst kvs)" using 2 by auto
  ultimately have "sort_key fst (map ?s (sort_key fst (map ?s kvs))) = sort_key fst (sort_key fst (map ?s kvs))"
    by (simp only:)
  then show ?case by (simp only: json_sort.simps) (simp add: sort_key_id_if_sorted)
qed simp_all

lemma example_keeps: "keeps_documents (jsonb example_externals)"
  by (simp add: keeps_documents_def example_externals_def json_sort_idem)

lemma default_float_free: "float_free (model_dump default_definition)"
  by code_simp

definition example_hash :: string where
  "example_hash = the (content_hash (sha256 example_externals) (repr_float example_externals) default_definition)"

lemma example_hash:
  "content_hash (sha256 example_externals) (repr_float example_externals) default_definition = Some example_hash"
proof -
  have "json_plain (model_dump default_definition)" by code_simp
  from content_hash_total [OF this] show ?thesis unfolding example_hash_def by (metis option.sel)
qed

lemma example_hash_length: "length example_hash \<le> 64"
proof -
  from example_hash obtain z where "take 64 z = example_hash"
    by (auto simp: content_hash_def definition_json_hash_def example_externals_def)
  then have "length example_hash = length (take 64 z)" by simp
  then show ?thesis by simp
qed

theorem accepted_definition_publishes_witness:
  "\<exists>t' rs. create_rule_set_version example_externals 0 [] ''fraud-default'' default_definition example_hash
     ''Initial'' ''migration'' (Some 0) = (t', Inr rs) \<and> rs_definition rs = default_definition \<and>
     rs_version rs = current_version [] ''fraud-default'' + 1 \<and>
     get_latest_rule_set example_externals t' ''fraud-default'' = Inr rs"
proof (rule accepted_definition_publishes [OF contiguous_empty _ example_hash default_float_free example_keeps])
  show "parse_rule_set_definition (coerce_int example_externals) DEFAULT_RULE_SET_DEFINITION = Inr default_definition"
    by (simp add: example_externals_def default_parses)
qed (simp_all add: example_externals_def example_hash_length current_version_def)

definition example_version_table :: version_table where
  "example_version_table =
     fst (create_rule_set_version example_externals 0 [] ''fraud-default'' default_definition example_hash
       ''Initial'' ''migration'' (Some 0))"

lemma example_published:
  "\<exists>rs. create_rule_set_version example_externals 0 [] ''fraud-default'' default_definition example_hash
     ''Initial'' ''migration'' (Some 0) = (example_version_table, Inr rs)"
proof -
  let ?r = "new_record example_externals 0 ''fraud-default'' default_definition example_hash ''Initial'' ''migration'' 0"
  have "definition_json_hash (sha256 example_externals) (repr_float example_externals) (rv_definition ?r) = Some example_hash"
    using example_hash canonical_json_sort
    by (simp add: content_hash_def definition_json_hash_def new_record_def example_externals_def)
  moreover have "model_validate (coerce_int example_externals) (rv_definition ?r) = Inr default_definition"
    using reordered_definition [OF default_valid, of "rv_definition ?r" json_int]
    by (simp add: new_record_def example_externals_def json_sort_idem)
  moreover have "\<exists>a. dry_run default_definition = Inr a" using default_parses by (simp add: parse_accepts)
  ultimately have "\<exists>rs. rule_set_from_record example_externals ?r = Inr rs"
    by (simp add: rule_set_from_record_def load_accepts new_record_def)
  then show ?thesis
    using example_hash_length
    by (auto simp: example_version_table_def create_rule_set_version_def check_expected_def current_version_def
        Let_def insert_version_def new_record_def int32_def)
qed

theorem publishing_activates_witness:
  "\<exists>rs. get_latest_rule_set example_externals example_version_table ''fraud-default'' = Inr rs \<and>
     rs_version rs = current_version [] ''fraud-default'' + 1"
proof -
  obtain rs where "create_rule_set_version example_externals 0 [] ''fraud-default'' default_definition
      example_hash ''Initial'' ''migration'' (Some 0) = (example_version_table, Inr rs)"
    using example_published by blast
  from publishing_activates [OF contiguous_empty this] show ?thesis by blast
qed

lemma example_contiguous: "contiguous example_version_table"
proof -
  let ?r = "new_record example_externals 0 ''fraud-default'' default_definition example_hash ''Initial'' ''migration'' 0"
  have ins: "insert_version [] ?r = Inr [?r]"
    using example_hash_length by (simp add: insert_version_def new_record_def int32_def)
  moreover have "contiguous [?r]"
    using insert_version_contiguous [OF contiguous_empty ins] by (simp add: new_record_def current_version_def)
  ultimately show ?thesis
    by (simp add: example_version_table_def create_rule_set_version_def check_expected_def current_version_def Let_def)
qed

theorem version_paging_complete_witness:
  "let rows = concat (fetch_pages (version_page (example_version_table, ''fraud-default'') 20)
       (Suc (length (versions_of example_version_table ''fraud-default''))) None)
   in rows = versions_of example_version_table ''fraud-default'' \<and> distinct (map rv_version rows)"
  by (rule version_paging_complete [OF example_contiguous]) (simp_all add: MAX_PAGE_SIZE_def)

text \<open>Two publishers that both expect version 0: one of them gets version 1, the other a conflict.\<close>

definition example_writer :: writer where
  "example_writer =
     \<lparr>w_key = ''k'', w_definition = default_definition, w_hash = ''h'', w_description = ''d'',
      w_created_by = ''a'', w_expected = Some 0, w_progress = NotStarted\<rparr>"

theorem concurrent_publishing_witness:
  "\<exists>t' ws'. publish_reachable example_externals ([], [example_writer, example_writer]) (t', ws') \<and>
     w_progress (ws' ! 0) = Created 1 \<and> w_progress (ws' ! 1) = Failed RuleSetVersionConflictError \<and>
     contiguous t' \<and> created_once ws'"
proof -
  let ?ext = example_externals and ?w = example_writer
  let ?r = "new_record ?ext 0 ''k'' default_definition ''h'' ''d'' ''a'' 0"
  have r0: "publish_reachable ?ext ([], [?w, ?w]) ([], [?w, ?w])" by (rule publish_start)
  have "publish_step ?ext ([], [?w, ?w]) ([], [?w, ?w][0 := ([?w, ?w] ! 0)\<lparr>w_progress := HasRead 0\<rparr>])"
    by (rule publish_step.read_ok) (simp_all add: example_writer_def check_expected_def current_version_def)
  from publish_next [OF r0 this] have r1: "publish_reachable ?ext ([], [?w, ?w])
    ([], [?w\<lparr>w_progress := HasRead 0\<rparr>, ?w])" by simp
  have "publish_step ?ext ([], [?w\<lparr>w_progress := HasRead 0\<rparr>, ?w])
    ([], [?w\<lparr>w_progress := HasRead 0\<rparr>, ?w][1 := ([?w\<lparr>w_progress := HasRead 0\<rparr>, ?w] ! 1)\<lparr>w_progress := HasRead 0\<rparr>])"
    by (rule publish_step.read_ok) (simp_all add: example_writer_def check_expected_def current_version_def)
  from publish_next [OF r1 this] have r2: "publish_reachable ?ext ([], [?w, ?w])
    ([], [?w\<lparr>w_progress := HasRead 0\<rparr>, ?w\<lparr>w_progress := HasRead 0\<rparr>])" by simp
  let ?ws = "[?w\<lparr>w_progress := HasRead 0\<rparr>, ?w\<lparr>w_progress := HasRead 0\<rparr>]"
  have "publish_step ?ext ([], ?ws) ([?r], ?ws[0 := (?ws ! 0)\<lparr>w_progress := Created (0 + 1)\<rparr>])"
    by (rule publish_step.write_ok [where now = 0 and n = 0])
      (simp_all add: example_writer_def insert_version_def new_record_def int32_def)
  from publish_next [OF r2 this] have r3: "publish_reachable ?ext ([], [?w, ?w])
    ([?r], [?w\<lparr>w_progress := Created 1\<rparr>, ?w\<lparr>w_progress := HasRead 0\<rparr>])" by simp
  let ?ws = "[?w\<lparr>w_progress := Created 1\<rparr>, ?w\<lparr>w_progress := HasRead 0\<rparr>]"
  have "publish_step ?ext ([?r], ?ws) ([?r], ?ws[1 := (?ws ! 1)\<lparr>w_progress := Failed RuleSetVersionConflictError\<rparr>])"
    by (rule publish_step.write_conflict [where now = 0 and n = 0])
      (simp_all add: example_writer_def insert_version_def new_record_def int32_def)
  from publish_next [OF r3 this] have r4: "publish_reachable ?ext ([], [?w, ?w])
    ([?r], [?w\<lparr>w_progress := Created 1\<rparr>, ?w\<lparr>w_progress := Failed RuleSetVersionConflictError\<rparr>])" by simp
  from concurrent_publishing [OF contiguous_empty _ r4] have
    "contiguous [?r] \<and> created_once [?w\<lparr>w_progress := Created 1\<rparr>, ?w\<lparr>w_progress := Failed RuleSetVersionConflictError\<rparr>]"
    by (simp add: example_writer_def)
  with r4 show ?thesis by (intro exI conjI) auto
qed

section \<open>Floats whose notation changes\<close>

text \<open>
  \<open>JSONB\<close> stores a number as a \<open>NUMERIC\<close> and prints it without an exponent, so a literal such as
  \<open>1e+16\<close> is read back as an integer.
\<close>

fun jsonb_numbers :: "json \<Rightarrow> json" where
  "jsonb_numbers (JFloat f) =
     (case f of FNum d \<Rightarrow> if 0 < expo d then JInt (coeff d * 10 ^ nat (expo d)) else JFloat f
      | FNonFinite \<Rightarrow> JFloat f)"
| "jsonb_numbers (JList xs) = JList (map jsonb_numbers xs)"
| "jsonb_numbers (JDict kvs) = JDict (map (\<lambda>(k, x). (k, jsonb_numbers x)) kvs)"
| "jsonb_numbers j = j"

definition exponent_text :: "pyfloat \<Rightarrow> string" where
  "exponent_text f =
     (case f of FNum d \<Rightarrow> show_int (coeff d) @ ''e+'' @ show_int (expo d) | FNonFinite \<Rightarrow> ''NaN'')"

text \<open>A stand-in for SHA-256 that is short enough for its column.\<close>

definition length_hash :: "string \<Rightarrow> string" where
  "length_hash s = show_nat (length s)"

definition float_externals :: externals where
  "float_externals =
     \<lparr>sha256 = length_hash, repr_float = exponent_text, coerce_int = json_int, jsonb = jsonb_numbers\<rparr>"

definition float_rule_set :: json where
  "float_rule_set =
     JDict [(''velocity_window_seconds'', JInt 60), (''review_threshold'', JInt 30), (''reject_threshold'', JInt 75),
       (''rules'', JList [default_rule ''BIG'' ''d'' 40
          (JDict [(''>'', JList [JDict [(''var'', JStr ''amount'')], JFloat (FNum (Dec 1 16))])])])]"

definition float_definition :: rule_set_definition where
  "float_definition =
     (case parse_rule_set_definition json_int float_rule_set of Inr d \<Rightarrow> d | Inl _ \<Rightarrow> default_definition)"

lemma float_parses: "parse_rule_set_definition json_int float_rule_set = Inr float_definition"
proof -
  have "case parse_rule_set_definition json_int float_rule_set of Inr d \<Rightarrow> True | Inl _ \<Rightarrow> False" by code_simp
  then show ?thesis by (auto simp: float_definition_def split: sum.splits)
qed

lemma float_dump: "model_dump float_definition = float_rule_set"
  by code_simp

lemma float_texts:
  "\<exists>z z'. canonical exponent_text float_rule_set = Some z \<and>
     canonical exponent_text (jsonb_numbers float_rule_set) = Some z' \<and> length z = 171 \<and> length z' = 183"
  by (simp add: float_rule_set_def default_rule_def dump_string_def escape_char_def exponent_text_def
      show_int_def show_nat.simps)


end
