(* ===== verification/Ledger.thy ===== *)
theory Ledger
  imports Transaction_Facts "HOL-Library.Sublist"
begin

text \<open>
  What the decision store promises, as an abstract machine: a ledger that keeps the first decision about
  each transaction, recognises the same transaction again, and refuses another transaction under a
  known id. \<open>record_decision\<close> on the two tables refines it.
\<close>

section \<open>The ledger\<close>

type_synonym ledger = "uuid \<Rightarrow> transaction_decision option"

datatype ledger_answer = Accepted | AlreadyRecorded transaction_decision | Conflicting

definition ledger_step :: "transaction_decision \<Rightarrow> ledger \<Rightarrow> ledger \<times> ledger_answer" where
  "ledger_step d L =
     (case L (td_transaction_id d) of
        None \<Rightarrow> (L(td_transaction_id d \<mapsto> d), Accepted)
      | Some first \<Rightarrow> (L, if same_transaction first d then AlreadyRecorded first else Conflicting))"

definition ledger_run :: "ledger \<Rightarrow> transaction_decision list \<Rightarrow> ledger" where
  "ledger_run = foldl (\<lambda>L d. fst (ledger_step d L))"

lemma ledger_step_extends: "L \<subseteq>\<^sub>m fst (ledger_step d L)"
  by (auto simp: ledger_step_def map_le_def dom_def split: option.splits)

lemma ledger_run_extends: "L \<subseteq>\<^sub>m ledger_run L ds"
proof (induction ds arbitrary: L)
  case (Cons d ds)
  show ?case
    using map_le_trans [OF ledger_step_extends [of L d] Cons.IH [of "fst (ledger_step d L)"]] by (simp add: ledger_run_def)
qed (simp add: ledger_run_def)

section \<open>The abstraction\<close>

definition ledger_of :: "tx_tables \<Rightarrow> ledger" where
  "ledger_of db = (\<lambda>i. map_option tr_decision (get_transaction db i))"

text \<open>The amount is in the column's scale, as the amount of every accepted event is.\<close>

definition exact_amount :: "transaction_decision \<Rightarrow> bool" where
  "exact_amount d \<longleftrightarrow> (\<forall>a. numeric_18_2 (td_amount d) = Some a \<longrightarrow> dec_val a = dec_val (td_amount d))"

definition column_form :: "transaction_decision \<Rightarrow> transaction_decision" where
  "column_form d = (case numeric_18_2 (td_amount d) of None \<Rightarrow> d | Some a \<Rightarrow> d\<lparr>td_amount := a\<rparr>)"

lemma column_form_row: "transaction_row now d = Inr row \<Longrightarrow> tr_decision row = column_form d"
  by (auto simp: transaction_row_Inr column_form_def)

lemma column_form_id [simp]: "td_transaction_id (column_form d) = td_transaction_id d"
  by (simp add: column_form_def split: option.split)

definition abstract_answer :: "record_result \<Rightarrow> ledger_answer" where
  "abstract_answer res = (case rr_outcome res of EVALUATED \<Rightarrow> Accepted | DUPLICATE \<Rightarrow> AlreadyRecorded (rr_decision res))"

lemma same_transaction_stored:
  assumes "exact_amount d" "transaction_row now d = Inr row"
  shows "same_transaction x (tr_decision row) = same_transaction x d"
  using assms by (auto simp: exact_amount_def transaction_row_Inr same_transaction_def dec_eq_iff)

lemma ledger_of_append:
  assumes "transactions db' = transactions db @ [row]" "find_transaction db (td_transaction_id (tr_decision row)) = None"
  shows "ledger_of db' = (ledger_of db)(td_transaction_id (tr_decision row) \<mapsto> tr_decision row)"
  using assms by (auto simp: ledger_of_def get_transaction_def find_transaction_def find_append fun_eq_iff split: option.splits)

lemma ledger_of_same: "transactions db' = transactions db \<Longrightarrow> ledger_of db' = ledger_of db"
  by (simp add: ledger_of_def get_transaction_def find_transaction_def)

text \<open>What an error of \<open>record_decision\<close> says.\<close>

lemma record_decision_refused:
  assumes "record_decision now db d p = (db', Inl e)"
  shows "db' = db \<and>
    (e = ConflictingDuplicateError \<and>
       (\<exists>r row. find_transaction db (td_transaction_id d) = Some r \<and> transaction_row now d = Inr row \<and>
          \<not> same_transaction (tr_decision r) d) \<or> e \<in> {DataError, IntegrityError})"
  using assms
  by (auto simp: record_decision_def record_work_def in_transaction_def transaction_row_def insert_history_def Let_def
      decision_from_record_def split: sum.splits option.splits if_splits)

definition simulates :: "tx_tables \<Rightarrow> transaction_decision \<Rightarrow> tx_tables \<Rightarrow> db_error + record_result \<Rightarrow> bool" where
  "simulates db stored db' r =
     (case r of
        Inr res \<Rightarrow> ledger_step stored (ledger_of db) = (ledger_of db', abstract_answer res)
      | Inl ConflictingDuplicateError \<Rightarrow> ledger_step stored (ledger_of db) = (ledger_of db', Conflicting)
      | Inl e \<Rightarrow> ledger_of db' = ledger_of db \<and> e \<in> {DataError, IntegrityError})"

lemma recorded_simulates:
  assumes "exact_amount d" "record_decision now db d p = (db', r)"
  shows "simulates db (column_form d) db' r"
  using assms(2)
proof (cases rule: record_decision_cases [of now db d p])
  case (stored row db3)
  then have eq: "db3 = db'" "r = Inr \<lparr>rr_outcome = EVALUATED, rr_decision = d\<rparr>" using assms(2) by auto
  note row = column_form_row [OF stored(3)]
  have "ledger_of db' = (ledger_of db)(td_transaction_id (tr_decision row) \<mapsto> tr_decision row)"
    using stored(2,4) by (intro ledger_of_append) (auto simp: eq row dest: insert_history_Inr)
  then show ?thesis
    using stored(2) by (simp add: simulates_def eq(2) ledger_step_def ledger_of_def get_transaction_def abstract_answer_def row)
next
  case (repeated x row db3)
  then have eq: "db3 = db'" "r = Inr \<lparr>rr_outcome = DUPLICATE, rr_decision = tr_decision x\<rparr>" using assms(2) by auto
  note row = column_form_row [OF repeated(3)]
  have "ledger_of db' = ledger_of db" using repeated(5) by (intro ledger_of_same) (auto simp: eq dest: insert_history_Inr)
  then show ?thesis
    using repeated(2,4) same_transaction_stored [OF assms(1) repeated(3), of "tr_decision x"]
    by (simp add: simulates_def eq(2) ledger_step_def ledger_of_def get_transaction_def abstract_answer_def row)
next
  case (refused e)
  then have rec: "record_decision now db d p = (db', Inl e)" and eq: "r = Inl e" using assms(2) by auto
  from record_decision_refused [OF rec] show ?thesis
  proof (elim conjE disjE exE)
    fix x row
    assume c: "e = ConflictingDuplicateError" "db' = db" "find_transaction db (td_transaction_id d) = Some x"
      "transaction_row now d = Inr row" "\<not> same_transaction (tr_decision x) d"
    note row = column_form_row [OF c(4)]
    show "simulates db (column_form d) db' r"
      using c(2,3,5) same_transaction_stored [OF assms(1) c(4), of "tr_decision x"]
      by (simp add: simulates_def eq c(1) ledger_step_def ledger_of_def get_transaction_def row)
  qed (auto simp: simulates_def eq)
qed

text \<open>
  Runs: whatever is delivered, the tables hold a ledger that some of the deliveries, in their order,
  give, and a decision once made is kept.
\<close>

lemma simulates_ledger: "simulates db stored db' r \<Longrightarrow> ledger_of db' = ledger_of db \<or> ledger_of db' = fst (ledger_step stored (ledger_of db))"
  by (cases r) (auto simp: simulates_def split: db_error.splits)

lemma record_all_refines:
  assumes "list_all (\<lambda>(now, d, p). exact_amount d) deliveries"
  shows "\<exists>ds. ledger_of (record_all db deliveries) = ledger_run (ledger_of db) ds \<and>
    subseq ds (map (\<lambda>(now, d, p). column_form d) deliveries)"
  using assms
proof (induction deliveries arbitrary: db)
  case Nil
  then show ?case by (intro exI [of _ "[]"]) (simp add: record_all_def ledger_run_def)
next
  case (Cons x deliveries)
  obtain now d p where x: "x = (now, d, p)" by (cases x)
  obtain db' r where rec: "record_decision now db d p = (db', r)" by fastforce
  have sim: "simulates db (column_form d) db' r"
    using recorded_simulates [OF _ rec] Cons.prems x by auto
  obtain ds where ds: "ledger_of (record_all db' deliveries) = ledger_run (ledger_of db') ds"
    "subseq ds (map (\<lambda>(now, d, p). column_form d) deliveries)"
    using Cons.IH [of db'] Cons.prems by auto
  have all: "record_all db ((now, d, p) # deliveries) = record_all db' deliveries" by (simp add: record_all_def rec)
  from simulates_ledger [OF sim] show ?case
  proof
    assume "ledger_of db' = ledger_of db"
    then show ?thesis using ds by (intro exI [of _ ds]) (simp add: all x list_emb_Cons)
  next
    assume "ledger_of db' = fst (ledger_step (column_form d) (ledger_of db))"
    then show ?thesis using ds by (intro exI [of _ "column_form d # ds"]) (simp add: all ledger_run_def x)
  qed
qed

text \<open>
  C5: the decision store refines a ledger of first decisions. Every call of \<open>record_decision\<close> is one
  step of the ledger, with the same answer, or a refusal by a column that leaves the tables as they
  are: a new transaction is entered, the same transaction again gets the stored decision, another
  transaction under its id is refused. After any deliveries the tables hold a ledger that such steps
  give, which contains every decision they held before, unchanged.
\<close>

theorem store_refines_ledger:
  assumes "list_all (\<lambda>(now, d, p). exact_amount d) deliveries" "exact_amount d"
    and "record_decision now (record_all db deliveries) d p = (db', r)"
  shows "(\<exists>ds. ledger_of (record_all db deliveries) = ledger_run (ledger_of db) ds \<and>
      subseq ds (map (\<lambda>(now, d, p). column_form d) deliveries)) \<and>
    ledger_of db \<subseteq>\<^sub>m ledger_of (record_all db deliveries) \<and>
    simulates (record_all db deliveries) (column_form d) db' r \<and>
    ((\<exists>e. r = Inl e) \<longrightarrow> db' = record_all db deliveries)"
proof -
  note run = record_all_refines [OF assms(1), of db]
  moreover from run have "ledger_of db \<subseteq>\<^sub>m ledger_of (record_all db deliveries)"
    using ledger_run_extends by auto
  ultimately show ?thesis
    using recorded_simulates [OF assms(2,3)] record_decision_refused [of now "record_all db deliveries" d p db'] assms(3)
    by blast
qed

text \<open>Another transaction under the id of the example.\<close>

theorem store_refines_ledger_witness:
  "ledger_of example_tables \<subseteq>\<^sub>m ledger_of (record_all example_tables [(9, rescored_decision, example_provenance)]) \<and>
   (\<exists>db' r. record_decision 9 (record_all example_tables [(9, rescored_decision, example_provenance)])
       other_decision example_provenance = (db', r) \<and>
     simulates (record_all example_tables [(9, rescored_decision, example_provenance)]) (column_form other_decision) db' r)"
proof -
  have exact: "exact_amount rescored_decision" "exact_amount other_decision"
    by (auto simp: exact_amount_def numeric_18_2_exact rescored_decision_def other_decision_def example_decision_def)
  obtain db' r where rec: "record_decision 9 (record_all example_tables [(9, rescored_decision, example_provenance)])
      other_decision example_provenance = (db', r)" by fastforce
  from store_refines_ledger [OF _ exact(2) rec] exact(1) rec show ?thesis by auto
qed

end
