(* ===== verification/Schema.thy ===== *)
theory Schema
  imports Transaction_Facts Stored_Documents
begin

text \<open>
  The database migrations (\<open>alembic/versions\<close>): the tables as data, built up revision by revision, and
  the seeded rule set. A row is a map from column names to cells; \<open>NULL\<close> is a missing cell.
\<close>

section \<open>Tables\<close>

datatype column_type =
    Uuid | Numeric | Varchar nat | Integer | BigInteger | Boolean | Jsonb | Timestamptz

datatype cell =
    UuidCell uuid | DecimalCell decimal | TextCell string | IntCell int | BoolCell bool | JsonCell json | TimeCell int

type_synonym row = "(string \<times> cell) list"

record column =
  cl_name :: string
  cl_type :: column_type
  cl_nullable :: bool
  cl_default :: bool

datatype check_constraint =
    GreaterThan string int
  | AtLeast string int
  | OneOf string "string list"
  | IffNotEqual string string string

record table =
  tb_columns :: "column list"
  tb_checks :: "(string \<times> check_constraint) list"
  tb_unique :: "(string \<times> string list) list"
  tb_indexes :: "(string \<times> string list) list"

type_synonym schema = "(string \<times> table) list"

definition Column :: "string \<Rightarrow> column_type \<Rightarrow> bool \<Rightarrow> column" where
  "Column name ty nullable = \<lparr>cl_name = name, cl_type = ty, cl_nullable = nullable, cl_default = False\<rparr>"

definition Defaulted :: "string \<Rightarrow> column_type \<Rightarrow> column" where
  "Defaulted name ty = \<lparr>cl_name = name, cl_type = ty, cl_nullable = False, cl_default = True\<rparr>"

section \<open>What a table accepts\<close>

text \<open>\<open>NUMERIC(18, 2)\<close> rounds or refuses; every other type keeps a value or refuses it.\<close>

fun store_cell :: "column_type \<Rightarrow> cell \<Rightarrow> cell option" where
  "store_cell Uuid (UuidCell i) = Some (UuidCell i)"
| "store_cell Numeric (DecimalCell d) = map_option DecimalCell (numeric_18_2 d)"
| "store_cell (Varchar n) (TextCell s) = (if length s \<le> n then Some (TextCell s) else None)"
| "store_cell Integer (IntCell n) = (if int32 n then Some (IntCell n) else None)"
| "store_cell BigInteger (IntCell n) = (if int64 n then Some (IntCell n) else None)"
| "store_cell Boolean (BoolCell b) = Some (BoolCell b)"
| "store_cell Jsonb (JsonCell j) = Some (JsonCell j)"
| "store_cell Timestamptz (TimeCell t) = Some (TimeCell t)"
| "store_cell _ _ = None"

text \<open>A column of an inserted row: its value, its default, \<open>NULL\<close>, or a refusal.\<close>

definition column_ok :: "row \<Rightarrow> column \<Rightarrow> bool" where
  "column_ok r c =
     (case map_of r (cl_name c) of
        None \<Rightarrow> cl_default c \<or> cl_nullable c
      | Some v \<Rightarrow> store_cell (cl_type c) v \<noteq> None)"

definition stored_cell :: "table \<Rightarrow> row \<Rightarrow> string \<Rightarrow> cell option" where
  "stored_cell t r name =
     (case find (\<lambda>c. cl_name c = name) (tb_columns t) of
        None \<Rightarrow> None
      | Some c \<Rightarrow> Option.bind (map_of r name) (store_cell (cl_type c)))"

text \<open>A check passes unless it is false; a comparison with \<open>NULL\<close> is not false.\<close>

fun check_ok :: "(string \<Rightarrow> cell option) \<Rightarrow> check_constraint \<Rightarrow> bool" where
  "check_ok v (GreaterThan name n) =
     (case v name of Some (DecimalCell d) \<Rightarrow> dec_less (Dec n 0) d | Some (IntCell m) \<Rightarrow> n < m | _ \<Rightarrow> True)"
| "check_ok v (AtLeast name n) = (case v name of Some (IntCell m) \<Rightarrow> n \<le> m | _ \<Rightarrow> True)"
| "check_ok v (OneOf name ss) = (case v name of Some (TextCell s) \<Rightarrow> s \<in> set ss | _ \<Rightarrow> True)"
| "check_ok v (IffNotEqual flag name s) =
     (case (v flag, v name) of (Some (BoolCell b), Some (TextCell t)) \<Rightarrow> b = (t \<noteq> s) | _ \<Rightarrow> True)"

definition known_columns :: "table \<Rightarrow> row \<Rightarrow> bool" where
  "known_columns t r \<longleftrightarrow> list_all (\<lambda>(name, _). name \<in> set (map cl_name (tb_columns t))) r"

definition types_accept :: "table \<Rightarrow> row \<Rightarrow> bool" where
  "types_accept t r \<longleftrightarrow> known_columns t r \<and> list_all (column_ok r) (tb_columns t)"

definition accepts :: "table \<Rightarrow> row \<Rightarrow> bool" where
  "accepts t r \<longleftrightarrow> types_accept t r \<and> list_all (\<lambda>(_, c). check_ok (stored_cell t r) c) (tb_checks t)"

section \<open>Revision 0001: the initial schema\<close>

definition decision_columns :: "column list" where
  "decision_columns =
     [Column ''user_id'' Uuid False, Column ''amount'' Numeric False, Column ''currency'' (Varchar 3) False,
      Column ''category'' (Varchar 64) False, Column ''occurred_at'' Timestamptz False,
      Column ''risk_score'' Integer False, Column ''verdict'' (Varchar 16) False, Column ''is_fraud'' Boolean False,
      Column ''triggered_rules'' Jsonb False, Column ''rules_version'' (Varchar 128) False,
      Column ''rules_hash'' (Varchar 64) False, Column ''correlation_id'' (Varchar 128) True]"

definition transactions_table :: table where
  "transactions_table =
     \<lparr>tb_columns = Column ''transaction_id'' Uuid False # decision_columns @
        [Column ''channel'' (Varchar 32) True, Column ''country'' (Varchar 2) True, Column ''enrichment'' Jsonb True,
         Defaulted ''created_at'' Timestamptz, Defaulted ''updated_at'' Timestamptz],
      tb_checks =
        [(''ck_transactions_amount_positive'', GreaterThan ''amount'' 0),
         (''ck_transactions_risk_score_non_negative'', AtLeast ''risk_score'' 0),
         (''ck_transactions_verdict'', OneOf ''verdict'' [''APPROVED'', ''REVIEW'', ''REJECTED'']),
         (''ck_transactions_is_fraud_matches_verdict'', IffNotEqual ''is_fraud'' ''verdict'' ''APPROVED'')],
      tb_unique = [(''transactions_pkey'', [''transaction_id''])],
      tb_indexes =
        [(''ix_transactions_verdict_occurred'', [''verdict'', ''occurred_at'', ''transaction_id'']),
         (''ix_transactions_user_occurred'', [''user_id'', ''occurred_at'', ''transaction_id'']),
         (''ix_transactions_category_occurred'', [''category'', ''occurred_at'', ''transaction_id'']),
         (''ix_transactions_occurred'', [''occurred_at'', ''transaction_id'']),
         (''ix_transactions_fraud_occurred'', [''occurred_at'', ''transaction_id''])]\<rparr>"

definition transaction_history_table :: table where
  "transaction_history_table =
     \<lparr>tb_columns =
        [Defaulted ''id'' BigInteger, Column ''transaction_id'' Uuid False, Column ''outcome'' (Varchar 16) False] @
        decision_columns @
        [Column ''source_topic'' (Varchar 255) False, Column ''source_partition'' Integer False,
         Column ''source_offset'' BigInteger False, Column ''source_timestamp'' BigInteger True,
         Defaulted ''processed_at'' Timestamptz],
      tb_checks = [(''ck_transaction_history_outcome'', OneOf ''outcome'' [''evaluated'', ''duplicate''])],
      tb_unique = [(''transaction_history_pkey'', [''id'']),
        (''uq_transaction_history_source'', [''source_topic'', ''source_partition'', ''source_offset''])],
      tb_indexes = [(''ix_transaction_history_transaction_processed_at'', [''transaction_id'', ''processed_at''])]\<rparr>"

definition rule_set_versions_table :: table where
  "rule_set_versions_table =
     \<lparr>tb_columns =
        [Defaulted ''id'' BigInteger, Column ''rule_set_key'' (Varchar 64) False, Column ''version'' Integer False,
         Column ''definition'' Jsonb False, Column ''content_hash'' (Varchar 64) False,
         Column ''description'' (Varchar 500) False, Column ''created_by'' (Varchar 255) False,
         Defaulted ''created_at'' Timestamptz],
      tb_checks = [(''ck_rule_set_versions_version_positive'', AtLeast ''version'' 1)],
      tb_unique = [(''rule_set_versions_pkey'', [''id'']), (''uq_rule_set_versions_key_version'', [''rule_set_key'', ''version''])],
      tb_indexes = []\<rparr>"

definition upgrade_0001 :: "schema \<Rightarrow> schema" where
  "upgrade_0001 s =
     s @ [(''transactions'', transactions_table), (''transaction_history'', transaction_history_table),
          (''rule_set_versions'', rule_set_versions_table)]"

definition drop_table :: "string \<Rightarrow> schema \<Rightarrow> schema" where
  "drop_table name s = filter (\<lambda>(n, _). n \<noteq> name) s"

definition downgrade_0001 :: "schema \<Rightarrow> schema" where
  "downgrade_0001 s = drop_table ''transactions'' (drop_table ''transaction_history'' (drop_table ''rule_set_versions'' s))"

section \<open>Revision 0002: an index for the summary, one column less\<close>

definition alter_table :: "string \<Rightarrow> (table \<Rightarrow> table) \<Rightarrow> schema \<Rightarrow> schema" where
  "alter_table name f s = map (\<lambda>(n, t). (n, if n = name then f t else t)) s"

definition upgrade_0002 :: "schema \<Rightarrow> schema" where
  "upgrade_0002 s =
     alter_table ''transactions''
       (\<lambda>t. t\<lparr>tb_indexes := tb_indexes t @ [(''ix_transactions_created'', [''created_at''])],
              tb_columns := filter (\<lambda>c. cl_name c \<noteq> ''updated_at'') (tb_columns t)\<rparr>) s"

definition downgrade_0002 :: "schema \<Rightarrow> schema" where
  "downgrade_0002 s =
     alter_table ''transactions''
       (\<lambda>t. t\<lparr>tb_columns := tb_columns t @ [Defaulted ''updated_at'' Timestamptz],
              tb_indexes := filter (\<lambda>(n, _). n \<noteq> ''ix_transactions_created'') (tb_indexes t)\<rparr>) s"

lemma downgrades_undo:
  "downgrade_0002 (upgrade_0002 (upgrade_0001 [])) = upgrade_0001 []" "downgrade_0001 (upgrade_0001 []) = []"
  by code_simp+


section \<open>The rows the program inserts\<close>

definition optional_cell :: "string \<Rightarrow> ('a \<Rightarrow> cell) \<Rightarrow> 'a option \<Rightarrow> row" where
  "optional_cell name f v = (case v of None \<Rightarrow> [] | Some x \<Rightarrow> [(name, f x)])"

definition strings_cell :: "string list \<Rightarrow> cell" where
  "strings_cell ss = JsonCell (JList (map JStr ss))"

text \<open>The columns of \<open>TransactionRecord\<close>, as \<open>record_decision\<close> inserts them.\<close>

definition transaction_cells :: "transaction_decision \<Rightarrow> row" where
  "transaction_cells d =
     [(''transaction_id'', UuidCell (td_transaction_id d)), (''user_id'', UuidCell (td_user_id d)),
      (''amount'', DecimalCell (td_amount d)), (''currency'', TextCell (td_currency d)),
      (''category'', TextCell (td_category d)), (''occurred_at'', TimeCell (td_occurred_at d)),
      (''risk_score'', IntCell (td_risk_score d)), (''verdict'', TextCell (td_verdict d)),
      (''is_fraud'', BoolCell (td_is_fraud d)), (''triggered_rules'', strings_cell (td_triggered_rules d)),
      (''rules_version'', TextCell (td_rules_version d)), (''rules_hash'', TextCell (td_rules_hash d))] @
     optional_cell ''correlation_id'' TextCell (td_correlation_id d) @ optional_cell ''channel'' TextCell (td_channel d) @
     optional_cell ''country'' TextCell (td_country d) @
     optional_cell ''enrichment'' (\<lambda>kvs. JsonCell (JDict kvs)) (td_enrichment d)"

definition history_cells :: "transaction_history_record \<Rightarrow> row" where
  "history_cells h =
     [(''transaction_id'', UuidCell (h_transaction_id h)), (''outcome'', TextCell (outcome_value (h_outcome h))),
      (''user_id'', UuidCell (h_user_id h)), (''amount'', DecimalCell (h_amount h)), (''currency'', TextCell (h_currency h)),
      (''category'', TextCell (h_category h)), (''occurred_at'', TimeCell (h_occurred_at h)),
      (''risk_score'', IntCell (h_risk_score h)), (''verdict'', TextCell (h_verdict h)), (''is_fraud'', BoolCell (h_is_fraud h)),
      (''triggered_rules'', strings_cell (h_triggered_rules h)), (''rules_version'', TextCell (h_rules_version h)),
      (''rules_hash'', TextCell (h_rules_hash h)), (''source_topic'', TextCell (h_source_topic h)),
      (''source_partition'', IntCell (h_source_partition h)), (''source_offset'', IntCell (h_source_offset h))] @
     optional_cell ''source_timestamp'' IntCell (h_source_timestamp h) @
     optional_cell ''correlation_id'' TextCell (h_correlation_id h)"

definition version_cells :: "rule_set_version_record \<Rightarrow> row" where
  "version_cells r =
     [(''rule_set_key'', TextCell (rv_rule_set_key r)), (''version'', IntCell (rv_version r)),
      (''definition'', JsonCell (rv_definition r)), (''content_hash'', TextCell (rv_content_hash r)),
      (''description'', TextCell (rv_description r)), (''created_by'', TextCell (rv_created_by r))]"

section \<open>The migrated tables accept what the store models accept\<close>

text \<open>The schemas the program may meet: before and after revision 0002.\<close>

definition migrated :: "schema list" where
  "migrated = [upgrade_0001 [], upgrade_0002 (upgrade_0001 [])]"

named_theorems schema_defs

lemmas [schema_defs] = accepts_def types_accept_def known_columns_def column_ok_def stored_cell_def optional_cell_def
  Column_def Defaulted_def decision_columns_def transactions_table_def transaction_history_table_def
  rule_set_versions_table_def strings_cell_def fits_def

text \<open>The decision table with and without \<open>updated_at\<close>.\<close>

definition same_decisions :: "table \<Rightarrow> bool" where
  "same_decisions t \<longleftrightarrow> tb_checks t = tb_checks transactions_table \<and>
     (tb_columns t = tb_columns transactions_table \<or>
      tb_columns t = filter (\<lambda>c. cl_name c \<noteq> ''updated_at'') (tb_columns transactions_table))"

lemma same_decisionsE:
  assumes "same_decisions t"
  obtains "tb_columns t = tb_columns transactions_table"
  | "tb_columns t = filter (\<lambda>c. cl_name c \<noteq> ''updated_at'') (tb_columns transactions_table)"
  using assms by (auto simp: same_decisions_def)

lemma migrated_decisions: "s \<in> set migrated \<Longrightarrow> map_of s ''transactions'' = Some t \<Longrightarrow> same_decisions t"
  by (auto simp: migrated_def upgrade_0001_def upgrade_0002_def alter_table_def same_decisions_def)

lemma migrated_other:
  assumes "s \<in> set migrated"
  shows "map_of s ''transaction_history'' = Some transaction_history_table"
    "map_of s ''rule_set_versions'' = Some rule_set_versions_table"
  using assms by (auto simp: migrated_def upgrade_0001_def upgrade_0002_def alter_table_def)

text \<open>The cells of a decision by name, so that no proof compares names twice.\<close>

lemma decision_lookup:
  "map_of (transaction_cells d) ''transaction_id'' = Some (UuidCell (td_transaction_id d))"
  "map_of (transaction_cells d) ''user_id'' = Some (UuidCell (td_user_id d))"
  "map_of (transaction_cells d) ''amount'' = Some (DecimalCell (td_amount d))"
  "map_of (transaction_cells d) ''currency'' = Some (TextCell (td_currency d))"
  "map_of (transaction_cells d) ''category'' = Some (TextCell (td_category d))"
  "map_of (transaction_cells d) ''occurred_at'' = Some (TimeCell (td_occurred_at d))"
  "map_of (transaction_cells d) ''risk_score'' = Some (IntCell (td_risk_score d))"
  "map_of (transaction_cells d) ''verdict'' = Some (TextCell (td_verdict d))"
  "map_of (transaction_cells d) ''is_fraud'' = Some (BoolCell (td_is_fraud d))"
  "map_of (transaction_cells d) ''triggered_rules'' = Some (strings_cell (td_triggered_rules d))"
  "map_of (transaction_cells d) ''rules_version'' = Some (TextCell (td_rules_version d))"
  "map_of (transaction_cells d) ''rules_hash'' = Some (TextCell (td_rules_hash d))"
  "map_of (transaction_cells d) ''correlation_id'' = map_option TextCell (td_correlation_id d)"
  "map_of (transaction_cells d) ''channel'' = map_option TextCell (td_channel d)"
  "map_of (transaction_cells d) ''country'' = map_option TextCell (td_country d)"
  "map_of (transaction_cells d) ''enrichment'' = map_option (\<lambda>kvs. JsonCell (JDict kvs)) (td_enrichment d)"
  by (simp_all add: transaction_cells_def optional_cell_def split: option.split)

lemma decision_no_default:
  "map_of (transaction_cells d) ''created_at'' = None" "map_of (transaction_cells d) ''updated_at'' = None"
  by (simp_all add: transaction_cells_def optional_cell_def split: option.split)

definition decision_names :: "string list" where
  "decision_names =
     [''transaction_id'', ''user_id'', ''amount'', ''currency'', ''category'', ''occurred_at'', ''risk_score'', ''verdict'',
      ''is_fraud'', ''triggered_rules'', ''rules_version'', ''rules_hash'', ''correlation_id'', ''channel'', ''country'',
      ''enrichment'']"

lemma decision_names: "fst ` set (transaction_cells d) \<subseteq> set decision_names"
  by (auto simp: transaction_cells_def optional_cell_def decision_names_def split: option.splits)

lemma names_known: "same_decisions t \<Longrightarrow> set decision_names \<subseteq> set (map cl_name (tb_columns t))"
  by (elim same_decisionsE; simp; code_simp)

lemma decisions_known: "same_decisions t \<Longrightarrow> known_columns t (transaction_cells d)"
  using decision_names [of d] names_known [of t] by (force simp: known_columns_def list_all_iff)

lemma transactions_types:
  assumes "same_decisions t"
  shows "types_accept t (transaction_cells d) \<longleftrightarrow>
     numeric_18_2 (td_amount d) \<noteq> None \<and> length (td_currency d) \<le> 3 \<and> length (td_category d) \<le> 64 \<and>
     fits 32 (td_channel d) \<and> fits 2 (td_country d) \<and> int32 (td_risk_score d) \<and>
     length (td_verdict d) \<le> 16 \<and> length (td_rules_version d) \<le> 128 \<and>
     length (td_rules_hash d) \<le> 64 \<and> fits 128 (td_correlation_id d)"
  using assms
  by (elim same_decisionsE)
    (auto simp: types_accept_def decisions_known [OF assms] column_ok_def decision_lookup decision_no_default
      Column_def Defaulted_def decision_columns_def transactions_table_def strings_cell_def fits_def split: option.splits)

lemma decision_cells:
  assumes "same_decisions t"
  shows "stored_cell t (transaction_cells d) ''amount'' = map_option DecimalCell (numeric_18_2 (td_amount d))"
    "stored_cell t (transaction_cells d) ''risk_score'' = (if int32 (td_risk_score d) then Some (IntCell (td_risk_score d)) else None)"
    "stored_cell t (transaction_cells d) ''verdict'' = (if length (td_verdict d) \<le> 16 then Some (TextCell (td_verdict d)) else None)"
    "stored_cell t (transaction_cells d) ''is_fraud'' = Some (BoolCell (td_is_fraud d))"
  using assms
  by (elim same_decisionsE; simp add: stored_cell_def decision_lookup Column_def Defaulted_def decision_columns_def
      transactions_table_def)+

lemma amount_check: "numeric_18_2 a = Some x \<Longrightarrow> dec_less (Dec 0 0) x \<longleftrightarrow> 0 < coeff x"
  using numeric_18_2_scale [of a x] by (cases x) (auto simp: dec_less_def dec_align_def dec_common_def)

lemma transactions_accept:
  assumes "same_decisions t"
  shows "accepts t (transaction_cells d) \<longleftrightarrow> (\<exists>r. transaction_row now d = Inr r)"
proof (cases "types_accept t (transaction_cells d)")
  case True
  have checks: "tb_checks t = tb_checks transactions_table" using assms by (simp add: same_decisions_def)
  from True obtain x where x: "numeric_18_2 (td_amount d) = Some x"
    by (auto simp: transactions_types [OF assms])
  show ?thesis
    using True amount_check [OF x]
    by (auto simp: accepts_def transactions_types [OF assms] transaction_row_Inr checks transactions_table_def
        decision_cells [OF assms] x)
next
  case False
  then show ?thesis by (auto simp: accepts_def transactions_types [OF assms] transaction_row_Inr)
qed

lemma versions_accept:
  "(\<exists>t'. insert_version vt r = Inr t') \<longleftrightarrow>
     accepts rule_set_versions_table (version_cells r) \<and>
     \<not> list_ex (\<lambda>x. rv_rule_set_key x = rv_rule_set_key r \<and> rv_version x = rv_version r) vt"
  by (auto simp: insert_version_def version_cells_def schema_defs)

lemma outcome_fits: "length (outcome_value e) \<le> 16" "outcome_value e \<in> {''evaluated'', ''duplicate''}"
  by (cases e; simp add: outcome_value_def)+

lemma history_accepts:
  assumes "transaction_row now d = Inr r"
  shows "accepts transaction_history_table (history_cells (history_values now' d p e correlation)) \<longleftrightarrow>
    (\<exists>db'. insert_history (history_values now' d p e correlation) db = Inr db')"
  using assms outcome_fits [of e]
  by (auto simp: insert_history_def history_cells_def history_values_def schema_defs transaction_row_Inr Let_def
      split: option.splits)

text \<open>
  C23: the tables the migrations create, before as well as after revision 0002, accept exactly the rows
  that the statements of the program are shown to store: a decision by its column types and CHECK
  constraints, its audit row, and a rule-set version that is not there yet.
\<close>

theorem migrated_schema_agrees:
  assumes "s \<in> set migrated"
  shows "(\<exists>t. map_of s ''transactions'' = Some t \<and>
       (\<forall>now d. accepts t (transaction_cells d) \<longleftrightarrow> (\<exists>r. transaction_row now d = Inr r))) \<and>
    (\<exists>t. map_of s ''transaction_history'' = Some t \<and>
       (\<forall>now d r now' p e correlation db. transaction_row now d = Inr r \<longrightarrow>
          (accepts t (history_cells (history_values now' d p e correlation)) \<longleftrightarrow>
           (\<exists>db'. insert_history (history_values now' d p e correlation) db = Inr db')))) \<and>
    (\<exists>t. map_of s ''rule_set_versions'' = Some t \<and>
       (\<forall>vt r. (\<exists>vt'. insert_version vt r = Inr vt') \<longleftrightarrow>
          accepts t (version_cells r) \<and>
          \<not> list_ex (\<lambda>x. rv_rule_set_key x = rv_rule_set_key r \<and> rv_version x = rv_version r) vt))"
proof -
  obtain t where t: "map_of s ''transactions'' = Some t"
    using assms by (auto simp: migrated_def upgrade_0001_def upgrade_0002_def alter_table_def)
  show ?thesis
    using t transactions_accept [OF migrated_decisions [OF assms t]] migrated_other [OF assms] history_accepts
      versions_accept by (intro conjI exI [of _ t] exI [of _ transaction_history_table] exI [of _ rule_set_versions_table]) blast+
qed

theorem migrated_schema_agrees_witness:
  "\<exists>t. map_of (upgrade_0002 (upgrade_0001 [])) ''transactions'' = Some t \<and>
     accepts t (transaction_cells example_decision) \<and> \<not> accepts t (transaction_cells (example_decision\<lparr>td_is_fraud := True\<rparr>))"
proof -
  have "upgrade_0002 (upgrade_0001 []) \<in> set migrated" by (simp add: migrated_def)
  from migrated_schema_agrees [OF this] obtain t where
    t: "map_of (upgrade_0002 (upgrade_0001 [])) ''transactions'' = Some t"
      "\<And>now d. accepts t (transaction_cells d) \<longleftrightarrow> (\<exists>r. transaction_row now d = Inr r)" by blast
  have "\<exists>r. transaction_row 0 example_decision = Inr r"
    "\<not> (\<exists>r. transaction_row 0 (example_decision\<lparr>td_is_fraud := True\<rparr>) = Inr r)"
    by (auto simp: transaction_row_Inr example_decision_def numeric_18_2_def dec_align_def fits_def int32_def)
  with t show ?thesis by blast
qed

section \<open>The seeded rule set\<close>

text \<open>The frozen copy in the migration.\<close>

definition seeded_rule :: "string \<Rightarrow> string \<Rightarrow> int \<Rightarrow> json \<Rightarrow> json" where
  "seeded_rule code description score cond =
     JDict [(''code'', JStr code), (''description'', JStr description), (''score'', JInt score), (''condition'', cond)]"

definition DEFAULT_RULE_SET :: json where
  "DEFAULT_RULE_SET =
     JDict [(''velocity_window_seconds'', JInt 60), (''review_threshold'', JInt 30), (''reject_threshold'', JInt 75),
       (''rules'', JList
         [seeded_rule ''HIGH_VALUE_THRESHOLD'' ''A single transaction of R10,000.00 or more.'' 40
            (JDict [(''>='', JList [JDict [(''var'', JStr ''amount'')], JInt 10000])]),
          seeded_rule ''RISKY_CATEGORY_LIMIT'' ''More than R5,000.00 in a high-risk category (GAMBLING, CRYPTO).'' 50
            (JDict [(''and'', JList
               [JDict [(''in'', JList [JDict [(''var'', JStr ''category'')], JList [JStr ''GAMBLING'', JStr ''CRYPTO'']])],
                JDict [(''>'', JList [JDict [(''var'', JStr ''amount'')], JInt 5000])]])]),
          seeded_rule ''VELOCITY_COUNT_EXCEEDED'' ''More than 5 transactions by the same user within the velocity window.'' 40
            (JDict [(''>'', JList [JDict [(''+'', JList [JDict [(''var'', JStr ''velocity.prior_count'')], JInt 1])], JInt 5])]),
          seeded_rule ''VELOCITY_AMOUNT'' ''More than R50,000.00 spent by the same user within the velocity window.'' 50
            (JDict [(''>'', JList [JDict [(''+'', JList [JDict [(''var'', JStr ''velocity.prior_amount'')],
               JDict [(''var'', JStr ''amount'')]])], JInt 50000])]),
          seeded_rule ''FOREIGN_CURRENCY'' ''Not in ZAR: the amount thresholds above do not apply, so send it for review.'' 30
            (JDict [(''!='', JList [JDict [(''var'', JStr ''currency'')], JStr ''ZAR''])])])]"

text \<open>\<open>_content_hash\<close>: the canonical text is the one of \<open>definition_json_hash\<close>.\<close>

definition seed_hash :: "externals \<Rightarrow> string option" where
  "seed_hash ext = map_option (sha256 ext) (canonical (repr_float ext) DEFAULT_RULE_SET)"

definition seeded_versions :: "externals \<Rightarrow> int \<Rightarrow> version_table option" where
  "seeded_versions ext now =
     map_option (\<lambda>h. [\<lparr>rv_rule_set_key = ''fraud-default'', rv_version = 1, rv_definition = jsonb ext DEFAULT_RULE_SET,
         rv_content_hash = h,
         rv_description = ''Initial rules: high value, risky category, velocity count/amount, foreign currency.'',
         rv_created_by = ''migration:20261029_0001'', rv_created_at = now\<rparr>]) (seed_hash ext)"

lemma seed_is_default: "DEFAULT_RULE_SET = DEFAULT_RULE_SET_DEFINITION"
  by (simp add: DEFAULT_RULE_SET_def DEFAULT_RULE_SET_DEFINITION_def seeded_rule_def default_rule_def)

lemma seed_dumped: "DEFAULT_RULE_SET = model_dump default_definition"
  by code_simp

text \<open>
  C35: a freshly migrated database is ready to score: the seeded row fits its table, the active rule set
  under the default key is version 1, loads although \<open>JSONB\<close> reordered its keys, and has the rules of
  \<open>DEFAULT_RULE_SET_DEFINITION\<close>; the table is one that publishing continues.
\<close>

theorem seeded_rule_set_active:
  assumes "keeps_documents (jsonb ext)" "\<And>n. coerce_int ext (JInt n) = Some n" "\<And>x. length (sha256 ext x) = 64"
  shows "\<exists>t rs. seeded_versions ext now = Some t \<and> contiguous t \<and>
    list_all (\<lambda>r. accepts rule_set_versions_table (version_cells r)) t \<and>
    get_latest_rule_set ext t ''fraud-default'' = Inr rs \<and> rule_set_label rs = ''fraud-default@v1'' \<and>
    rs_definition rs = default_definition"
proof -
  have "json_plain DEFAULT_RULE_SET" by code_simp
  then obtain z where z: "canonical (repr_float ext) DEFAULT_RULE_SET = Some z"
    using canonical_total by (metis not_None_eq)
  let ?h = "sha256 ext z"
  obtain r where t: "seeded_versions ext now = Some [r]"
    and r: "rv_rule_set_key r = ''fraud-default''" "rv_version r = 1" "rv_definition r = jsonb ext DEFAULT_RULE_SET"
      "rv_content_hash r = ?h" "length (rv_description r) \<le> 500" "length (rv_created_by r) \<le> 255"
    by (simp add: seeded_versions_def seed_hash_def z)
  have sorted: "json_sort (rv_definition r) = json_sort (model_dump default_definition)"
    using assms(1) default_float_free by (simp add: keeps_documents_def r(3) seed_dumped)
  have "definition_json_hash (sha256 ext) (repr_float ext) (rv_definition r) = Some ?h"
    using same_canonical [OF sorted] z by (simp add: definition_json_hash_def seed_dumped)
  moreover have "\<exists>a. dry_run default_definition = Inr a" using default_parses by (simp add: parse_accepts)
  ultimately obtain rs where rs: "rule_set_from_record ext r = Inr rs" "rs_definition rs = default_definition"
      "rs_key rs = ''fraud-default''" "rs_version rs = 1"
    using reordered_definition [OF default_valid sorted assms(2)]
    by (simp add: rule_set_from_record_def load_accepts r)
  have ins: "insert_version [] r = Inr [r]"
    using assms(3) r by (simp add: insert_version_def int32_def)
  then have "accepts rule_set_versions_table (version_cells r)" using versions_accept [of "[]" r] by simp
  moreover have "contiguous [r]"
    using insert_version_contiguous [OF contiguous_empty ins] r by (simp add: current_version_def)
  moreover have "get_latest_rule_set ext [r] ''fraud-default'' = Inr rs"
    using rs(1) r by (simp add: get_latest_rule_set_def versions_of_def)
  moreover have "rule_set_label rs = ''fraud-default@v1''"
    using rs by (simp add: rule_set_label_def version_label_def) code_simp
  ultimately show ?thesis using t rs by auto
qed

text \<open>A stand-in for SHA-256 that gives texts of its length.\<close>

definition sized_externals :: externals where
  "sized_externals = example_externals\<lparr>sha256 := \<lambda>s. take 64 (s @ replicate 64 CHR ''0'')\<rparr>"

theorem seeded_rule_set_active_witness:
  "\<exists>t rs. seeded_versions sized_externals 0 = Some t \<and> get_latest_rule_set sized_externals t ''fraud-default'' = Inr rs \<and>
     rs_definition rs = default_definition"
proof -
  have "keeps_documents (jsonb sized_externals)" using example_keeps by (simp add: sized_externals_def)
  moreover have "coerce_int sized_externals (JInt n) = Some n" "length (sha256 sized_externals x) = 64" for n x
    by (simp_all add: sized_externals_def example_externals_def)
  ultimately show ?thesis using seeded_rule_set_active [of sized_externals 0] by blast
qed

end
