(* ===== verification/Errors.thy ===== *)
theory Errors
  imports Prelude
begin

text \<open>
  The error hierarchy and the failure classification of \<open>app/errors.py\<close>. An exception is what the
  classification and the dead-letter headers read of it: the classes of its method resolution order
  (so \<open>isinstance\<close> is membership), its text, the field errors of an invalid event, and, for an error
  wrapped by SQLAlchemy, the driver's exception and its cause. The classes of libraries are listed by
  name; which library class derives from which is part of each exception.
\<close>

section \<open>Exception classes\<close>

datatype exc_class =
    FraudDetectionError | TransientError | CorruptRuleSet | PermanentError
  | InvalidEvent | UnsupportedSchemaVersion | ConflictingDuplicate | InvalidRuleSet
  | RuleEvaluation | RuleSetNotFound | RuleSetVersionConflict | TransactionNotFound
  | PydanticValidationError
  | PyTimeoutError | PyConnectionError | PyOSError
  | PostgresConnectionError | CannotConnectNowError | TooManyConnectionsError | QueryCanceledError
  | RedisConnectionError | RedisTimeoutError
  | SqlAlchemyTimeoutError | DBAPIError | OperationalError | InterfaceError
  | OtherClass string

text \<open>The hierarchy of the service's own errors: each class and the one it derives from.\<close>

fun base_class :: "exc_class \<Rightarrow> exc_class option" where
  "base_class TransientError = Some FraudDetectionError"
| "base_class CorruptRuleSet = Some TransientError"
| "base_class PermanentError = Some FraudDetectionError"
| "base_class InvalidEvent = Some PermanentError"
| "base_class UnsupportedSchemaVersion = Some InvalidEvent"
| "base_class ConflictingDuplicate = Some PermanentError"
| "base_class InvalidRuleSet = Some PermanentError"
| "base_class RuleEvaluation = Some FraudDetectionError"
| "base_class RuleSetNotFound = Some FraudDetectionError"
| "base_class RuleSetVersionConflict = Some FraudDetectionError"
| "base_class TransactionNotFound = Some FraudDetectionError"
| "base_class _ = None"

fun class_depth :: "exc_class \<Rightarrow> nat" where
  "class_depth UnsupportedSchemaVersion = 3"
| "class_depth CorruptRuleSet = 2"
| "class_depth InvalidEvent = 2"
| "class_depth ConflictingDuplicate = 2"
| "class_depth InvalidRuleSet = 2"
| "class_depth FraudDetectionError = 0"
| "class_depth _ = 1"

function class_mro :: "exc_class \<Rightarrow> exc_class list" where
  "class_mro c = c # (case base_class c of None \<Rightarrow> [] | Some b \<Rightarrow> class_mro b)"
  by pat_completeness auto
termination
proof (relation "measure class_depth", goal_cases)
  case (2 c b)
  then show ?case by (cases c) auto
qed simp

declare class_mro.simps [simp del]

lemmas own_mro = class_mro.simps [of FraudDetectionError] class_mro.simps [of TransientError]
  class_mro.simps [of CorruptRuleSet] class_mro.simps [of PermanentError]
  class_mro.simps [of InvalidEvent] class_mro.simps [of UnsupportedSchemaVersion]
  class_mro.simps [of ConflictingDuplicate] class_mro.simps [of InvalidRuleSet]
  class_mro.simps [of RuleEvaluation] class_mro.simps [of RuleSetNotFound]
  class_mro.simps [of RuleSetVersionConflict] class_mro.simps [of TransactionNotFound]

section \<open>Exceptions\<close>

datatype py_exception =
  PyException (exc_mro: "exc_class list") (exc_name: string) (exc_text: string)
    (exc_details: "(string \<times> string) list") (connection_invalidated: bool)
    (exc_orig: "py_exception option") (exc_cause: "py_exception option")

definition own_error :: "exc_class \<Rightarrow> string \<Rightarrow> string \<Rightarrow> (string \<times> string) list \<Rightarrow> py_exception" where
  "own_error c name message details = PyException (class_mro c) name message details False None None"

definition plain_exception :: "exc_class list \<Rightarrow> string \<Rightarrow> string \<Rightarrow> py_exception" where
  "plain_exception mro name message = PyException mro name message [] False None None"

definition is_instance :: "py_exception \<Rightarrow> exc_class list \<Rightarrow> bool" where
  "is_instance e cs = list_ex (\<lambda>c. c \<in> set (exc_mro e)) cs"

section \<open>Classification\<close>

datatype failure_class = TRANSIENT | PERMANENT | UNEXPECTED

fun failure_value :: "failure_class \<Rightarrow> string" where
  "failure_value TRANSIENT = ''transient''"
| "failure_value PERMANENT = ''permanent''"
| "failure_value UNEXPECTED = ''unexpected''"

definition TRANSIENT_LIBRARY_ERRORS :: "exc_class list" where
  "TRANSIENT_LIBRARY_ERRORS =
     [PyTimeoutError, PyConnectionError, PyOSError,
      PostgresConnectionError, CannotConnectNowError, TooManyConnectionsError, QueryCanceledError,
      RedisConnectionError, RedisTimeoutError, SqlAlchemyTimeoutError]"

text \<open>The exceptions inspected: the wrapper, the driver's exception, and the cause of the latter.\<close>

definition candidates :: "py_exception \<Rightarrow> py_exception option list" where
  "candidates e =
     Some e # (if is_instance e [DBAPIError]
               then [exc_orig e, (case exc_orig e of None \<Rightarrow> None | Some orig \<Rightarrow> exc_cause orig)] else [])"

definition classify_failure :: "py_exception \<Rightarrow> failure_class" where
  "classify_failure e =
     (if is_instance e [TransientError, RuleSetNotFound] then TRANSIENT
      else if is_instance e [PermanentError, PydanticValidationError] then PERMANENT
      else if is_instance e [DBAPIError] \<and> connection_invalidated e then TRANSIENT
      else if list_ex (\<lambda>c. case c of None \<Rightarrow> False | Some x \<Rightarrow> is_instance x TRANSIENT_LIBRARY_ERRORS) (candidates e)
      then TRANSIENT
      else if is_instance e [OperationalError, InterfaceError] then TRANSIENT
      else UNEXPECTED)"

section \<open>What the classes mean\<close>

lemma own_errors_classified:
  "classify_failure (own_error c name message details) =
     (if c \<in> {TransientError, CorruptRuleSet, RuleSetNotFound} then TRANSIENT
      else if c \<in> {PermanentError, InvalidEvent, UnsupportedSchemaVersion, ConflictingDuplicate, InvalidRuleSet,
                   PydanticValidationError} then PERMANENT
      else if c \<in> set TRANSIENT_LIBRARY_ERRORS \<union> {OperationalError, InterfaceError} then TRANSIENT
      else UNEXPECTED)"
  by (cases c)
    (simp_all add: classify_failure_def own_error_def is_instance_def candidates_def
      TRANSIENT_LIBRARY_ERRORS_def class_mro.simps)

lemma plain_exceptions_classified:
  "classify_failure (plain_exception mro name message) =
     (if TransientError \<in> set mro \<or> RuleSetNotFound \<in> set mro then TRANSIENT
      else if PermanentError \<in> set mro \<or> PydanticValidationError \<in> set mro then PERMANENT
      else if \<exists>c \<in> set TRANSIENT_LIBRARY_ERRORS. c \<in> set mro then TRANSIENT
      else if OperationalError \<in> set mro \<or> InterfaceError \<in> set mro then TRANSIENT
      else UNEXPECTED)"
  by (simp add: classify_failure_def plain_exception_def is_instance_def candidates_def list_ex_iff)

text \<open>
  A driver error inside SQLAlchemy's wrapper: the wrapper is as transient as the driver's exception,
  its cause, or the loss of the connection.
\<close>

lemma wrapped_error_transient:
  assumes "DBAPIError \<in> set (exc_mro e)" "\<not> is_instance e [PermanentError, PydanticValidationError]"
    and "connection_invalidated e \<or>
      (\<exists>orig. exc_orig e = Some orig \<and>
         (is_instance orig TRANSIENT_LIBRARY_ERRORS \<or>
          (\<exists>c. exc_cause orig = Some c \<and> is_instance c TRANSIENT_LIBRARY_ERRORS)))"
  shows "classify_failure e = TRANSIENT"
  using assms by (auto simp: classify_failure_def candidates_def is_instance_def)

lemma permanent_iff:
  "classify_failure e = PERMANENT \<longleftrightarrow>
     is_instance e [PermanentError, PydanticValidationError] \<and> \<not> is_instance e [TransientError, RuleSetNotFound]"
  by (simp add: classify_failure_def)

end
