(* ===== verification/Dead_Letters.thy ===== *)
theory Dead_Letters
  imports Errors Rule_Sets
begin

text \<open>
  Dead letters (\<open>app/dlq.py\<close>) and their replay (\<open>scripts/replay_dlq.py\<close>). The Kafka topics the two write
  to are lists of records; what the producer and the broker do with a record is an input: the queue is
  full, the delivery is acknowledged or refused, or nothing is heard of it in time (it may have been
  written all the same). Bytes and text are lists of characters.
\<close>

section \<open>UTF-8\<close>

text \<open>Encoding of the characters of this model (code points below 256), and decoding with \<open>"replace"\<close>.\<close>

definition utf8_char :: "char \<Rightarrow> string" where
  "utf8_char c =
     (let n = (of_char c :: nat)
      in if n < 128 then [c] else [char_of (192 + n div 64), char_of (128 + n mod 64)])"

definition utf8_encode :: "string \<Rightarrow> string" where
  "utf8_encode s = concat (map utf8_char s)"

fun utf8_decode :: "string \<Rightarrow> string" where
  "utf8_decode [] = []"
| "utf8_decode [c] = [if (of_char c :: nat) < 128 then c else CHR ''?'']"
| "utf8_decode (c # d # s) =
     (let m = (of_char c :: nat); n = (of_char d :: nat)
      in if m < 128 then c # utf8_decode (d # s)
         else if (m = 194 \<or> m = 195) \<and> 128 \<le> n \<and> n < 192 then char_of ((m - 192) * 64 + (n - 128)) # utf8_decode s
         else CHR ''?'' # utf8_decode (d # s))"

section \<open>The dead letter\<close>

definition DLQ_SCHEMA_VERSION :: string where "DLQ_SCHEMA_VERSION = ''1''"
definition MAX_ERROR_MESSAGE_CHARS :: nat where "MAX_ERROR_MESSAGE_CHARS = 1024"

record dead_letter =
  dl_source_topic :: string
  dl_source_partition :: int
  dl_source_offset :: int
  dl_key :: "string option"
  dl_value :: "string option"
  dl_error :: py_exception
  dl_failure_class :: failure_class
  dl_attempts :: int
  dl_correlation_id :: "string option"

definition describe_error :: "py_exception \<Rightarrow> string" where
  "describe_error e =
     take MAX_ERROR_MESSAGE_CHARS
       (exc_text e @
        (if is_instance e [InvalidEvent] \<and> exc_details e \<noteq> []
         then '': '' @ join ''; '' (map (\<lambda>(f, m). f @ '': '' @ m) (exc_details e)) else []))"

definition build_dlq_headers :: "dead_letter \<Rightarrow> string \<Rightarrow> (string \<times> string) list" where
  "build_dlq_headers l failed_at =
     map (\<lambda>(name, v). (name, utf8_encode v))
       ([(''dlq.schema_version'', DLQ_SCHEMA_VERSION),
         (''dlq.error.class'', failure_value (dl_failure_class l)),
         (''dlq.error.type'', exc_name (dl_error l)),
         (''dlq.error.message'', describe_error (dl_error l)),
         (''dlq.source.topic'', dl_source_topic l),
         (''dlq.source.partition'', show_int (dl_source_partition l)),
         (''dlq.source.offset'', show_int (dl_source_offset l)),
         (''dlq.attempts'', show_int (dl_attempts l)),
         (''dlq.failed_at'', failed_at)] @
        (case dl_correlation_id l of
           None \<Rightarrow> [] | Some c \<Rightarrow> (if c = [] then [] else [(''correlation_id'', c)])))"

section \<open>Publishing\<close>

record kafka_record =
  kr_topic :: string
  kr_key :: "string option"
  kr_value :: "string option"
  kr_headers :: "(string \<times> string) list"

datatype broker_reply = QueueFull | Acknowledged | Refused string | Unheard bool

text \<open>What is on the broker afterwards, whatever the producer was told.\<close>

definition delivered :: "broker_reply \<Rightarrow> bool" where
  "delivered d = (case d of Acknowledged \<Rightarrow> True | Unheard written \<Rightarrow> written | _ \<Rightarrow> False)"

definition append_if :: "bool \<Rightarrow> kafka_record \<Rightarrow> kafka_record list \<Rightarrow> kafka_record list" where
  "append_if b r records = (if b then records @ [r] else records)"

definition transient_error :: "string \<Rightarrow> py_exception" where
  "transient_error message = own_error TransientError ''TransientError'' message []"

definition letter_record :: "string \<Rightarrow> dead_letter \<Rightarrow> string \<Rightarrow> kafka_record" where
  "letter_record topic l failed_at =
     \<lparr>kr_topic = topic, kr_key = dl_key l, kr_value = dl_value l, kr_headers = build_dlq_headers l failed_at\<rparr>"

definition publish_letter ::
    "string \<Rightarrow> string \<Rightarrow> broker_reply \<Rightarrow> dead_letter \<Rightarrow> kafka_record list \<Rightarrow> kafka_record list \<times> (py_exception + unit)" where
  "publish_letter topic failed_at d l records =
     (append_if (delivered d) (letter_record topic l failed_at) records,
      (case d of
         QueueFull \<Rightarrow> Inl (transient_error ''DLQ producer queue is full'')
       | Acknowledged \<Rightarrow> Inr ()
       | Refused err \<Rightarrow> Inl (transient_error (''DLQ delivery failed: '' @ err))
       | Unheard _ \<Rightarrow> Inl (transient_error ''DLQ delivery was not acknowledged in time'')))"

section \<open>Replay\<close>

text \<open>
  One message polled by \<open>replay_dlq.py\<close>. \<open>producer.flush\<close> returns the number of records still waiting,
  which is 0 both for an acknowledged and for a refused one; the script has no delivery callback.
\<close>

record replay_state =
  rp_replayed :: nat
  rp_committed :: int
  rp_topics :: "kafka_record list"

datatype replay_step = Continue | Stop

definition header :: "kafka_record \<Rightarrow> string \<Rightarrow> string option" where
  "header r name = map_option utf8_decode (map_of (rev (kr_headers r)) name)"

definition flush_leftover :: "broker_reply \<Rightarrow> nat" where
  "flush_leftover d = (case d of Unheard _ \<Rightarrow> 1 | _ \<Rightarrow> 0)"

definition replay_message ::
    "bool \<Rightarrow> int \<Rightarrow> kafka_record \<Rightarrow> broker_reply \<Rightarrow> replay_state \<Rightarrow> replay_state \<times> replay_step" where
  "replay_message listing offset r d st =
     (if listing then (st\<lparr>rp_replayed := rp_replayed st + 1\<rparr>, Continue)
      else
        (case header r ''dlq.source.topic'' of
           None \<Rightarrow> (st, Continue)
         | Some source_topic \<Rightarrow>
             if source_topic = [] then (st, Continue)
             else
               (let copy = \<lparr>kr_topic = source_topic, kr_key = kr_key r, kr_value = kr_value r, kr_headers = []\<rparr>;
                    st' = st\<lparr>rp_topics := append_if (delivered d) copy (rp_topics st)\<rparr>
                in if d = QueueFull then (st', Stop)
                   else if flush_leftover d \<noteq> 0 then (st', Stop)
                   else (st'\<lparr>rp_committed := offset + 1, rp_replayed := rp_replayed st + 1\<rparr>, Continue))))"

fun replay_dlq :: "bool \<Rightarrow> nat \<Rightarrow> (int \<times> kafka_record \<times> broker_reply) list \<Rightarrow> replay_state \<Rightarrow> replay_state" where
  "replay_dlq listing maximum [] st = st"
| "replay_dlq listing maximum ((offset, r, d) # polled) st =
     (if maximum \<le> rp_replayed st then st
      else (case replay_message listing offset r d st of
              (st', Stop) \<Rightarrow> st'
            | (st', Continue) \<Rightarrow> replay_dlq listing maximum polled st'))"

section \<open>Lemmas\<close>

lemma utf8_decode_char: "utf8_decode (utf8_char c @ s) = c # utf8_decode s"
proof (cases "(of_char c :: nat) < 128")
  case True
  then show ?thesis by (cases s) (simp_all add: utf8_char_def)
next
  case False
  define n where "n = (of_char c :: nat)"
  have n: "128 \<le> n" "n < 256" using False by (simp_all add: n_def)
  have "2 \<le> n div 64" "n div 64 < 4"
    using n by (simp_all add: less_eq_div_iff_mult_less_eq div_less_iff_less_mult)
  then have d: "n div 64 = 2 \<or> n div 64 = 3" by linarith
  have "n mod 64 < 64" by simp
  with d have lt: "192 + n div 64 < 256" "128 + n mod 64 < 256" by linarith+
  have code: "utf8_char c = [char_of (192 + n div 64), char_of (128 + n mod 64)]"
    using False by (simp add: utf8_char_def n_def Let_def)
  have nn: "n div 64 * 64 + n mod 64 = n" by simp
  have c: "char_of n = c" by (simp add: n_def)
  have m: "n mod 64 < 64" by simp
  from d show ?thesis
  proof
    assume 2: "n div 64 = 2"
    with nn have "char_of (128 + n mod 64) = c" by (simp add: c)
    moreover have "128 \<le> (of_char c :: nat)" "(of_char c :: nat) < 192"
      using 2 m n nn n_def by linarith+
    ultimately show ?thesis using 2 m by (simp add: code Let_def add.commute)
  next
    assume 3: "n div 64 = 3"
    with nn have "char_of (192 + n mod 64) = c" by (simp add: c)
    with 3 m show ?thesis by (simp add: code Let_def add.commute)
  qed
qed

lemma utf8_roundtrip [simp]: "utf8_decode (utf8_encode s) = s"
  by (induction s) (simp_all add: utf8_encode_def utf8_decode_char)

lemma describe_error_length: "length (describe_error e) \<le> 1024"
  by (simp add: describe_error_def MAX_ERROR_MESSAGE_CHARS_def)

lemma transient_error_class: "classify_failure (transient_error m) = TRANSIENT"
  by (simp add: transient_error_def own_errors_classified)

lemma headers_distinct: "distinct (map fst (build_dlq_headers l t))"
  by (auto simp: build_dlq_headers_def split: option.splits)

lemma map_of_rev: "distinct (map fst kvs) \<Longrightarrow> map_of (rev kvs) = map_of kvs"
  by (rule map_of_eqI) (auto simp: distinct_rev rev_map [symmetric] map_of_eq_Some_iff)

lemma letter_header:
  assumes "(name, v) \<in> set (build_dlq_headers l t)"
  shows "header (letter_record topic l t) name = Some (utf8_decode v)"
proof -
  have "map_of (build_dlq_headers l t) name = Some v"
    using assms headers_distinct [of l t] by (simp add: map_of_eq_Some_iff)
  then show ?thesis using headers_distinct [of l t] by (simp add: header_def letter_record_def map_of_rev)
qed

end
