(* ===== verification/Message_Handling.thy ===== *)
theory Message_Handling
  imports Dead_Letters Transactions
begin

text \<open>
  Handling one Kafka message (\<open>FraudWorker._handle\<close> and \<open>retry_delay\<close> in \<open>app/worker.py\<close>): process it,
  classify a failure, retry with backoff or dead-letter. Everything around the loop is a world of any
  type with the operations the loop calls; a call returns the world afterwards and what was returned or
  raised. The loop is a \<open>partial_function\<close>: its value is \<open>None\<close> if it never ends.

  Durations are rational numbers. What \<open>float\<close> arithmetic adds to that and matters here is its limit:
  an \<open>int\<close> that is multiplied by a \<open>float\<close> is converted first, and \<open>2 ** 1024\<close> cannot be.
\<close>

section \<open>Backoff\<close>

text \<open>\<open>jitter\<close> is the random number, between a half and one.\<close>

definition retry_delay :: "nat \<Rightarrow> rat \<Rightarrow> rat \<Rightarrow> rat \<Rightarrow> rat option" where
  "retry_delay attempt initial maximum jitter =
     (let exponent = attempt - 1
      in if 1024 \<le> exponent then None
         else Some (min maximum (initial * 2 ^ exponent) * jitter))"

section \<open>Messages and the world\<close>

record kafka_message =
  km_topic :: string
  km_partition :: int
  km_offset :: int
  km_timestamp :: "nat \<times> int"
  km_key :: "string option"
  km_value :: "string option"

definition provenance_of :: "kafka_message \<Rightarrow> message_provenance" where
  "provenance_of m =
     \<lparr>mp_topic = km_topic m, mp_partition = km_partition m, mp_offset = km_offset m,
      mp_timestamp_ms = (if fst (km_timestamp m) = 0 then None else Some (snd (km_timestamp m)))\<rparr>"

record 'w operations =
  op_process :: "string option \<Rightarrow> message_provenance \<Rightarrow> 'w \<Rightarrow> 'w \<times> (py_exception + record_result)"
  op_publish :: "dead_letter \<Rightarrow> 'w \<Rightarrow> 'w \<times> (py_exception + unit)"
  op_stopping :: "'w \<Rightarrow> bool"
  op_clock :: "'w \<Rightarrow> rat"
  op_jitter :: "'w \<Rightarrow> rat"
  op_correlation :: "'w \<Rightarrow> string option"
  op_clear_context :: "'w \<Rightarrow> 'w"
  op_wait :: "rat \<Rightarrow> 'w \<Rightarrow> 'w"

record retry_settings =
  max_unexpected_error_attempts :: nat
  retry_initial_backoff :: rat
  retry_max_backoff :: rat

section \<open>The loop\<close>

record handling =
  hs_pending_letter :: "dead_letter option"
  hs_unexpected_failures :: nat
  hs_attempt :: nat
  hs_failing_since :: "rat option"

text \<open>How \<open>_handle\<close> ends: \<open>True\<close> twice, \<open>False\<close>, or with the exception of \<open>retry_delay\<close>.\<close>

datatype handle_result =
    Processed record_result | DeadLettered dead_letter | Abandoned | TaskCrashed

definition new_letter :: "kafka_message \<Rightarrow> py_exception \<Rightarrow> nat \<Rightarrow> string option \<Rightarrow> dead_letter" where
  "new_letter m e attempt correlation =
     \<lparr>dl_source_topic = km_topic m, dl_source_partition = km_partition m, dl_source_offset = km_offset m,
      dl_key = km_key m, dl_value = km_value m, dl_error = e, dl_failure_class = classify_failure e,
      dl_attempts = int attempt, dl_correlation_id = correlation\<rparr>"

definition back_off ::
    "'w operations \<Rightarrow> retry_settings \<Rightarrow> handling \<Rightarrow> 'w \<Rightarrow> 'w \<times> (handle_result + handling)" where
  "back_off ops cfg h w =
     (case retry_delay (hs_attempt h) (retry_initial_backoff cfg) (retry_max_backoff cfg) (op_jitter ops w) of
        None \<Rightarrow> (w, Inl TaskCrashed)
      | Some delay \<Rightarrow> (op_wait ops delay w, Inr h))"

definition mark_failing :: "rat \<Rightarrow> handling \<Rightarrow> handling" where
  "mark_failing now h = (case hs_failing_since h of None \<Rightarrow> h\<lparr>hs_failing_since := Some now\<rparr> | Some _ \<Rightarrow> h)"

definition on_processing_failure ::
    "'w operations \<Rightarrow> retry_settings \<Rightarrow> kafka_message \<Rightarrow> py_exception \<Rightarrow> handling \<Rightarrow> 'w \<Rightarrow> 'w \<times> (handle_result + handling)" where
  "on_processing_failure ops cfg m e h w =
     (let failure = classify_failure e;
          h' = (if failure = UNEXPECTED then h\<lparr>hs_unexpected_failures := hs_unexpected_failures h + 1\<rparr> else h)
      in if failure = PERMANENT \<or>
            failure = UNEXPECTED \<and> max_unexpected_error_attempts cfg \<le> hs_unexpected_failures h'
         then (w, Inr (h'\<lparr>hs_pending_letter := Some (new_letter m e (hs_attempt h') (op_correlation ops w))\<rparr>))
         else back_off ops cfg h' w)"

text \<open>One pass of the loop.\<close>

definition handle_attempt ::
    "'w operations \<Rightarrow> retry_settings \<Rightarrow> kafka_message \<Rightarrow> handling \<Rightarrow> 'w \<Rightarrow> 'w \<times> (handle_result + handling)" where
  "handle_attempt ops cfg m h w =
     (let h = h\<lparr>hs_attempt := hs_attempt h + 1\<rparr>; w = op_clear_context ops w
      in case hs_pending_letter h of
           None \<Rightarrow>
             (case op_process ops (km_value m) (provenance_of m) w of
                (w', Inr r) \<Rightarrow> (w', Inl (Processed r))
              | (w', Inl e) \<Rightarrow> on_processing_failure ops cfg m e (mark_failing (op_clock ops w') h) w')
         | Some letter \<Rightarrow>
             (case op_publish ops letter w of
                (w', Inr _) \<Rightarrow> (w', Inl (DeadLettered letter))
              | (w', Inl e) \<Rightarrow> back_off ops cfg (mark_failing (op_clock ops w') h) w'))"

text \<open>\<open>while not state.stopping.is_set()\<close> around the passes.\<close>

partial_function (option) retry_loop ::
    "('w \<Rightarrow> bool) \<Rightarrow> ('h \<Rightarrow> 'w \<Rightarrow> 'w \<times> (handle_result + 'h)) \<Rightarrow> 'h \<Rightarrow> 'w \<Rightarrow> ('w \<times> handle_result) option" where
  "retry_loop stopping attempt h w =
     (if stopping w then Some (w, Abandoned)
      else (case attempt h w of
              (w', Inl r) \<Rightarrow> Some (w', r)
            | (w', Inr h') \<Rightarrow> retry_loop stopping attempt h' w'))"

definition handle_loop ::
    "'w operations \<Rightarrow> retry_settings \<Rightarrow> kafka_message \<Rightarrow> handling \<Rightarrow> 'w \<Rightarrow> ('w \<times> handle_result) option" where
  "handle_loop ops cfg m h w = retry_loop (op_stopping ops) (handle_attempt ops cfg m) h w"

definition first_attempt :: handling where
  "first_attempt = \<lparr>hs_pending_letter = None, hs_unexpected_failures = 0, hs_attempt = 0, hs_failing_since = None\<rparr>"

definition handle ::
    "'w operations \<Rightarrow> retry_settings \<Rightarrow> kafka_message \<Rightarrow> 'w \<Rightarrow> ('w \<times> handle_result) option" where
  "handle ops cfg m w = handle_loop ops cfg m first_attempt w"

text \<open>What \<open>_handle\<close> returns to the partition's task: \<open>True\<close>, \<open>False\<close>, or an exception.\<close>

fun handled :: "handle_result \<Rightarrow> bool option" where
  "handled (Processed _) = Some True"
| "handled (DeadLettered _) = Some True"
| "handled Abandoned = Some False"
| "handled TaskCrashed = None"

section \<open>The contract of handler and sink\<close>

text \<open>The letter a failure of the message is reported with, when the failure is judged final.\<close>

definition letter_for :: "retry_settings \<Rightarrow> kafka_message \<Rightarrow> dead_letter \<Rightarrow> bool" where
  "letter_for cfg m l \<longleftrightarrow>
     dl_source_topic l = km_topic m \<and> dl_source_partition l = km_partition m \<and>
     dl_source_offset l = km_offset m \<and> dl_key l = km_key m \<and> dl_value l = km_value m \<and>
     dl_failure_class l = classify_failure (dl_error l) \<and>
     (dl_failure_class l = PERMANENT \<or>
      dl_failure_class l = UNEXPECTED \<and> int (max_unexpected_error_attempts cfg) \<le> dl_attempts l)"

text \<open>
  \<open>MessageHandler\<close> and \<open>DeadLetterSink\<close>: a call that returns has settled the message for good
  (\<open>settled\<close> is what the provider means by it), from a world that is \<open>sound\<close>.
\<close>

locale message_services =
  fixes ops :: "'w operations" and sound :: "'w \<Rightarrow> bool"
    and processed :: "kafka_message \<Rightarrow> 'w \<Rightarrow> record_result \<Rightarrow> bool"
    and dead_lettered :: "dead_letter \<Rightarrow> 'w \<Rightarrow> bool"
  assumes process_sound: "sound w \<Longrightarrow> op_process ops v p w = (w', y) \<Longrightarrow> sound w'"
    and process_settles: "sound w \<Longrightarrow> op_process ops (km_value m) (provenance_of m) w = (w', Inr r) \<Longrightarrow> processed m w' r"
    and publish_sound: "sound w \<Longrightarrow> op_publish ops l w = (w', x) \<Longrightarrow> sound w'"
    and publish_settles: "sound w \<Longrightarrow> op_publish ops l w = (w', Inr ()) \<Longrightarrow> dead_lettered l w'"
    and clear_sound: "sound w \<Longrightarrow> sound (op_clear_context ops w)"
    and wait_sound: "sound w \<Longrightarrow> sound (op_wait ops delay w)"

section \<open>One attempt\<close>

definition attempt_ok :: "retry_settings \<Rightarrow> kafka_message \<Rightarrow> handling \<Rightarrow> bool" where
  "attempt_ok cfg m h \<longleftrightarrow>
     hs_unexpected_failures h \<le> hs_attempt h \<and>
     (case hs_pending_letter h of None \<Rightarrow> True | Some l \<Rightarrow> letter_for cfg m l)"

lemma mark_failing_simps [simp]:
  "hs_pending_letter (mark_failing now h) = hs_pending_letter h"
  "hs_unexpected_failures (mark_failing now h) = hs_unexpected_failures h"
  "hs_attempt (mark_failing now h) = hs_attempt h"
  by (simp_all add: mark_failing_def split: option.split)

lemma first_attempt_ok: "attempt_ok cfg m first_attempt"
  by (simp add: attempt_ok_def first_attempt_def)

lemma back_off_Inr: "back_off ops cfg h w = (w', Inr h') \<Longrightarrow> h' = h"
  by (auto simp: back_off_def split: option.splits)

lemma processing_failure_ok:
  assumes "attempt_ok cfg m h" "hs_unexpected_failures h < hs_attempt h" "hs_pending_letter h = None"
    and "on_processing_failure ops cfg m e h w = (w', Inr h')"
  shows "attempt_ok cfg m h'"
  using assms
  by (auto simp: on_processing_failure_def attempt_ok_def letter_for_def new_letter_def Let_def
      split: if_splits dest!: back_off_Inr)

lemma handle_attempt_ok:
  assumes "attempt_ok cfg m h" "handle_attempt ops cfg m h w = (w', Inr h')"
  shows "attempt_ok cfg m h'"
proof -
  let ?h = "h\<lparr>hs_attempt := hs_attempt h + 1\<rparr>"
  have h: "attempt_ok cfg m (mark_failing now ?h)" "hs_unexpected_failures ?h < hs_attempt ?h" for now
    using assms(1) by (simp_all add: attempt_ok_def split: option.splits)
  from assms(2) show ?thesis
    using h processing_failure_ok [of cfg m "mark_failing now ?h" for now]
    by (auto simp: handle_attempt_def Let_def split: option.splits prod.splits sum.splits dest!: back_off_Inr)
qed

end
