(* ===== verification/Handling_Facts.thy ===== *)
theory Handling_Facts
  imports Message_Handling
begin

text \<open>
  What the retry loop guarantees: the bounds of the backoff, how the loop ends for messages that fail
  permanently, unexpectedly or transiently, and that a message it reports as handled is settled.
\<close>

section \<open>Backoff\<close>



section \<open>The loop\<close>

lemma retry_loop_rule [consumes 1, case_names stopped ended repeated]:
  assumes "retry_loop stopping attempt h w = Some (w', res)"
    and "\<And>h w. stopping w \<Longrightarrow> P h w w Abandoned"
    and "\<And>h w w' r. \<not> stopping w \<Longrightarrow> attempt h w = (w', Inl r) \<Longrightarrow> P h w w' r"
    and "\<And>h w h1 w1 w' r. \<not> stopping w \<Longrightarrow> attempt h w = (w1, Inr h1) \<Longrightarrow> P h1 w1 w' r \<Longrightarrow> P h w w' r"
  shows "P h w w' res"
proof -
  define Q where "Q = (\<lambda>s a h w (y :: 'a \<times> handle_result). s = stopping \<longrightarrow> a = attempt \<longrightarrow> P h w (fst y) (snd y))"
  have "Q stopping attempt h w (w', res)"
  proof (rule retry_loop.raw_induct [OF _ assms(1)])
    fix loop s a h w y
    assume IH: "\<And>s a h w y. loop s a h w = Some y \<Longrightarrow> Q s a h w y"
      and step: "(if s w then Some (w, Abandoned)
        else case a h w of (w', Inl r) \<Rightarrow> Some (w', r) | (w', Inr h') \<Rightarrow> loop s a h' w') = Some y"
    show "Q s a h w y"
      unfolding Q_def
    proof (intro impI)
      assume eqs: "s = stopping" "a = attempt"
      obtain w1 x where x: "attempt h w = (w1, x)" by (rule prod.exhaust)
      consider "stopping w" | r where "\<not> stopping w" "x = Inl r" | h1 where "\<not> stopping w" "x = Inr h1"
        by (cases x) auto
      then show "P h w (fst y) (snd y)"
      proof cases
        case (3 h1)
        with step x have "loop stopping attempt h1 w1 = Some y" by (simp add: eqs)
        from IH [OF this] have "P h1 w1 (fst y) (snd y)" by (simp add: Q_def)
        with assms(4) [OF 3(1) x [unfolded 3(2)]] show ?thesis by blast
      qed (use step x assms(2,3) in \<open>auto simp: eqs\<close>)
    qed
  qed
  then show ?thesis by (simp add: Q_def)
qed

text \<open>A loop over a larger world runs as the loop over its part that the passes and the stopping depend on.\<close>

lemma retry_loop_part:
  assumes stop: "\<And>x. stopping' x = stopping (part x)"
    and pass: "\<And>h x. attempt h (part x) = map_prod part id (attempt' h x)"
  shows "retry_loop stopping attempt h (part x) = map_option (map_prod part id) (retry_loop stopping' attempt' h x)"
proof (cases "retry_loop stopping' attempt' h x")
  case (Some y)
  obtain x' r where y: "y = (x', r)" by (rule prod.exhaust)
  from Some [unfolded y] have "retry_loop stopping attempt h (part x) = Some (part x', r)"
    by (induction rule: retry_loop_rule) (subst retry_loop.simps, simp add: stop pass)+
  with Some y show ?thesis by simp
next
  have stop_eq: "stopping' = (\<lambda>x. stopping (part x))" by (rule ext) (rule stop)
  case None
  have "\<exists>x'. retry_loop stopping' attempt' h x = Some (x', r)"
    if "retry_loop stopping attempt h (part x) = Some (w', r)" for w' r
  proof -
    have "\<forall>x. w = part x \<longrightarrow> (\<exists>x'. retry_loop stopping' attempt' h x = Some (x', r))"
      if "retry_loop stopping attempt h w = Some (w', r)" for h w w' r
      using that
    proof (induction rule: retry_loop_rule)
      case (repeated h w h1 w1 w' r)
      then show ?case by (subst retry_loop.simps) (auto simp: stop_eq pass split: prod.splits sum.splits)
    qed (subst retry_loop.simps, auto simp: stop_eq pass split: prod.splits sum.splits)+
    with that show ?thesis by blast
  qed
  with None show ?thesis by (cases "retry_loop stopping attempt h (part x)") fastforce+
qed

lemma handle_loop_rule [consumes 1, case_names stopped ended repeated]:
  assumes "handle_loop ops cfg m h w = Some (w', res)"
    and "\<And>h w. op_stopping ops w \<Longrightarrow> P h w w Abandoned"
    and "\<And>h w w' r. \<not> op_stopping ops w \<Longrightarrow> handle_attempt ops cfg m h w = (w', Inl r) \<Longrightarrow> P h w w' r"
    and "\<And>h w h1 w1 w' r. \<not> op_stopping ops w \<Longrightarrow> handle_attempt ops cfg m h w = (w1, Inr h1) \<Longrightarrow>
      P h1 w1 w' r \<Longrightarrow> P h w w' r"
  shows "P h w w' res"
  using assms(1) unfolding handle_loop_def by (rule retry_loop_rule) (fact assms(2-4))+

lemma loop_step:
  "handle_loop ops cfg m h w =
     (if op_stopping ops w then Some (w, Abandoned)
      else (case handle_attempt ops cfg m h w of
              (w', Inl r) \<Rightarrow> Some (w', r)
            | (w', Inr h') \<Rightarrow> handle_loop ops cfg m h' w'))"
  unfolding handle_loop_def by (subst retry_loop.simps) simp

text \<open>What a result promises, given what \<open>processed\<close> and \<open>dead_lettered\<close> mean in the world.\<close>

definition settled ::
    "'w operations \<Rightarrow> (kafka_message \<Rightarrow> 'w \<Rightarrow> record_result \<Rightarrow> bool) \<Rightarrow> (dead_letter \<Rightarrow> 'w \<Rightarrow> bool) \<Rightarrow>
     retry_settings \<Rightarrow> kafka_message \<Rightarrow> 'w \<Rightarrow> handle_result \<Rightarrow> bool" where
  "settled ops processed dead_lettered cfg m w res \<longleftrightarrow>
     (case res of
        Processed r \<Rightarrow> processed m w r
      | DeadLettered l \<Rightarrow> letter_for cfg m l \<and> dead_lettered l w
      | Abandoned \<Rightarrow> op_stopping ops w
      | TaskCrashed \<Rightarrow> True)"

context message_services
begin

lemma back_off_sound: "sound w \<Longrightarrow> back_off ops cfg h w = (w', x) \<Longrightarrow> sound w'"
  by (auto simp: back_off_def wait_sound split: option.splits)

lemma failure_sound: "sound w \<Longrightarrow> on_processing_failure ops cfg m e h w = (w', x) \<Longrightarrow> sound w'"
  by (auto simp: on_processing_failure_def Let_def split: if_splits dest: back_off_sound)

lemma attempt_sound:
  assumes "sound w" "handle_attempt ops cfg m h w = (w', x)"
  shows "sound w'"
proof -
  have w: "sound (op_clear_context ops w)" by (rule clear_sound [OF assms(1)])
  show ?thesis
  proof (cases "hs_pending_letter h")
    case None
    obtain w1 y where y: "op_process ops (km_value m) (provenance_of m) (op_clear_context ops w) = (w1, y)"
      by (rule prod.exhaust)
    from process_sound [OF w y] assms(2) None y show ?thesis
      by (auto simp: handle_attempt_def Let_def split: sum.splits dest: failure_sound)
  next
    case (Some l)
    obtain w1 y where y: "op_publish ops l (op_clear_context ops w) = (w1, y)" by (rule prod.exhaust)
    from publish_sound [OF w y] assms(2) Some y show ?thesis
      by (auto simp: handle_attempt_def Let_def split: sum.splits dest: back_off_sound)
  qed
qed

lemma back_off_result: "back_off ops cfg h w = (w', Inl r) \<Longrightarrow> r = TaskCrashed"
  by (auto simp: back_off_def split: option.splits)

lemma attempt_settles:
  assumes "sound w" "attempt_ok cfg m h" "handle_attempt ops cfg m h w = (w', Inl res)"
  shows "settled ops processed dead_lettered cfg m w' res"
proof -
  have w: "sound (op_clear_context ops w)" by (rule clear_sound [OF assms(1)])
  show ?thesis
  proof (cases "hs_pending_letter h")
    case None
    with assms(3) process_settles [OF w] show ?thesis
      by (auto simp: handle_attempt_def Let_def settled_def on_processing_failure_def
          split: sum.splits prod.splits if_splits dest!: back_off_result)
  next
    case (Some l)
    with assms(2) have "letter_for cfg m l" by (simp add: attempt_ok_def)
    with Some assms(3) publish_settles [OF w] show ?thesis
      by (auto simp: handle_attempt_def Let_def settled_def split: sum.splits prod.splits dest!: back_off_result)
  qed
qed

lemma loop_settles:
  "handle_loop ops cfg m h w = Some (w', res) \<Longrightarrow> sound w \<Longrightarrow> attempt_ok cfg m h \<Longrightarrow>
     sound w' \<and> settled ops processed dead_lettered cfg m w' res"
  by (induction rule: handle_loop_rule)
    (auto simp: settled_def [of _ _ _ _ _ _ Abandoned] intro: attempt_sound attempt_settles handle_attempt_ok)

lemma handle_settles:
  "handle ops cfg m w = Some (w', res) \<Longrightarrow> sound w \<Longrightarrow> sound w' \<and> settled ops processed dead_lettered cfg m w' res"
  using loop_settles [OF _ _ first_attempt_ok] by (simp add: handle_def)

end

section \<open>Outages\<close>

lemma transient_attempt:
  assumes "hs_pending_letter h = None" "classify_failure e = TRANSIENT"
    and "op_process ops (km_value m) (provenance_of m) (op_clear_context ops w) = (v, Inl e)"
  shows "\<exists>h'. hs_pending_letter h' = None \<and> hs_attempt h' = hs_attempt h + 1 \<and>
    handle_attempt ops cfg m h w = back_off ops cfg h' v"
  using assms
  by (intro exI [of _ "mark_failing (op_clock ops v) (h\<lparr>hs_attempt := hs_attempt h + 1\<rparr>)"])
    (simp add: handle_attempt_def on_processing_failure_def Let_def)

lemma back_off_early:
  "hs_attempt h \<le> 1024 \<Longrightarrow> \<exists>d. back_off ops cfg h w = (op_wait ops d w, Inr h)"
  by (auto simp: back_off_def retry_delay_def Let_def)

lemma back_off_late: "1024 < hs_attempt h \<Longrightarrow> back_off ops cfg h w = (w, Inl TaskCrashed)"
  by (simp add: back_off_def retry_delay_def Let_def)

text \<open>The worlds that \<open>n\<close> transient failures in a row lead through, without a request to stop.\<close>

definition outage :: "'w operations \<Rightarrow> kafka_message \<Rightarrow> nat \<Rightarrow> (nat \<Rightarrow> 'w) \<Rightarrow> bool" where
  "outage ops m n ws \<longleftrightarrow>
     (\<forall>i < n. \<not> op_stopping ops (ws i) \<and>
        (\<exists>v e. op_process ops (km_value m) (provenance_of m) (op_clear_context ops (ws i)) = (v, Inl e) \<and>
           classify_failure e = TRANSIENT \<and> (\<forall>d. op_wait ops d v = ws (Suc i))))"

lemma outage_step:
  assumes "outage ops m n ws" "hs_attempt h < n" "hs_pending_letter h = None"
  obtains (retry) h' where "hs_attempt h < 1024" "hs_pending_letter h' = None" "hs_attempt h' = hs_attempt h + 1"
      "handle_loop ops cfg m h (ws (hs_attempt h)) = handle_loop ops cfg m h' (ws (hs_attempt h'))"
  | (crash) w' where "1024 \<le> hs_attempt h"
      "handle_loop ops cfg m h (ws (hs_attempt h)) = Some (w', TaskCrashed)"
proof -
  let ?w = "ws (hs_attempt h)"
  from assms(1,2) obtain v e where go: "\<not> op_stopping ops ?w"
    and e: "op_process ops (km_value m) (provenance_of m) (op_clear_context ops ?w) = (v, Inl e)"
      "classify_failure e = TRANSIENT" "\<And>d. op_wait ops d v = ws (Suc (hs_attempt h))"
    by (auto simp: outage_def)
  from transient_attempt [OF assms(3) e(2,1)] obtain h' where h': "hs_pending_letter h' = None"
    "hs_attempt h' = hs_attempt h + 1" "handle_attempt ops cfg m h ?w = back_off ops cfg h' v" by blast
  show ?thesis
  proof (cases "hs_attempt h < 1024")
    case True
    with h'(2) obtain d where "back_off ops cfg h' v = (op_wait ops d v, Inr h')"
      using back_off_early [of h' ops cfg v] by auto
    with go h'(2,3) e(3) have "handle_loop ops cfg m h ?w = handle_loop ops cfg m h' (ws (hs_attempt h'))"
      by (subst loop_step) simp
    with retry True h'(1,2) show ?thesis by blast
  next
    case False
    with h'(2) have "back_off ops cfg h' v = (v, Inl TaskCrashed)" by (intro back_off_late) simp
    with go h'(3) have "handle_loop ops cfg m h ?w = Some (v, TaskCrashed)" by (subst loop_step) simp
    with crash False show ?thesis by simp
  qed
qed

lemma outage_survived:
  assumes "outage ops m n ws" "\<not> op_stopping ops (ws n)"
    and "op_process ops (km_value m) (provenance_of m) (op_clear_context ops (ws n)) = (w', Inr r)"
    and "n \<le> 1024" "hs_attempt h \<le> n" "hs_pending_letter h = None"
  shows "handle_loop ops cfg m h (ws (hs_attempt h)) = Some (w', Processed r)"
  using assms(5,6)
proof (induction "n - hs_attempt h" arbitrary: h)
  case 0
  then have "hs_attempt h = n" by simp
  with assms(2,3) 0(3) show ?case by (subst loop_step) (simp add: handle_attempt_def Let_def)
next
  case (Suc k)
  then have "hs_attempt h < n" by simp
  from assms(1) this Suc(4) show ?case
  proof (cases rule: outage_step [where cfg = cfg])
    case (retry h')
    with Suc(1) [of h'] Suc(2) show ?thesis by simp
  next
    case (crash w'')
    with \<open>hs_attempt h < n\<close> assms(4) show ?thesis by simp
  qed
qed

lemma outage_crashes:
  assumes "outage ops m n ws" "1024 < n" "hs_attempt h \<le> 1024" "hs_pending_letter h = None"
  shows "\<exists>w'. handle_loop ops cfg m h (ws (hs_attempt h)) = Some (w', TaskCrashed)"
  using assms(3,4)
proof (induction "1024 - hs_attempt h" arbitrary: h rule: less_induct)
  case less
  with assms(2) have "hs_attempt h < n" by simp
  from assms(1) this less(3) show ?case
  proof (cases rule: outage_step [where cfg = cfg])
    case (retry h')
    with less(1) [of h'] less(2) show ?thesis by simp
  qed blast
qed

text \<open>
  C13: what an outage does to a message. While its dependencies fail transiently, a message is retried
  and never dead-lettered; if they recover within 1024 attempts the message is processed; but the
  1025th failure ends the task of the partition with an exception, so the retries are not indefinite.
\<close>

theorem outage_tolerance:
  assumes "outage ops m n ws" "\<not> op_stopping ops (ws n)"
    and "op_process ops (km_value m) (provenance_of m) (op_clear_context ops (ws n)) = (w', Inr r)"
  shows "if n \<le> 1024 then handle ops cfg m (ws 0) = Some (w', Processed r)
    else \<exists>v. handle ops cfg m (ws 0) = Some (v, TaskCrashed)"
  using outage_survived [OF assms, of first_attempt] outage_crashes [OF assms(1), of first_attempt]
  by (simp add: handle_def first_attempt_def)

section \<open>Poison messages\<close>

lemma poison_loop:
  assumes "\<And>w. \<not> op_stopping ops w"
    and "\<And>w. \<exists>w' e. op_process ops (km_value m) (provenance_of m) w = (w', Inl e) \<and> classify_failure e \<noteq> TRANSIENT"
    and "\<And>l w. \<exists>w'. op_publish ops l w = (w', Inr ())"
    and "max_unexpected_error_attempts cfg \<le> 1024"
    and "hs_pending_letter h = None" "hs_unexpected_failures h = hs_attempt h"
    and "hs_attempt h < max_unexpected_error_attempts cfg"
  shows "\<exists>w' l. handle_loop ops cfg m h w = Some (w', DeadLettered l) \<and>
    dl_attempts l \<le> int (max_unexpected_error_attempts cfg)"
  using assms(5-7)
proof (induction "max_unexpected_error_attempts cfg - hs_attempt h" arbitrary: h w rule: less_induct)
  case less
  obtain v e where e: "op_process ops (km_value m) (provenance_of m) (op_clear_context ops w) = (v, Inl e)"
    "classify_failure e \<noteq> TRANSIENT" using assms(2) by blast
  define h1 where "h1 = mark_failing (op_clock ops v) (h\<lparr>hs_attempt := hs_attempt h + 1\<rparr>)"
  have h1: "hs_pending_letter h1 = None" "hs_attempt h1 = hs_attempt h + 1" "hs_unexpected_failures h1 = hs_attempt h"
    using less(2,3) by (simp_all add: h1_def)
  have att: "handle_attempt ops cfg m h w = on_processing_failure ops cfg m e h1 v"
    using less(2) e(1) by (simp add: handle_attempt_def h1_def Let_def)
  show ?case
  proof (cases "classify_failure e = PERMANENT \<or> max_unexpected_error_attempts cfg \<le> hs_attempt h + 1")
    case True
    let ?l = "new_letter m e (hs_attempt h + 1) (op_correlation ops v)"
    from True e(2) h1 have "\<exists>h2. handle_attempt ops cfg m h w = (v, Inr h2) \<and> hs_pending_letter h2 = Some ?l"
      unfolding att by (cases "classify_failure e") (auto simp: on_processing_failure_def Let_def)
    then obtain h2 where h2: "handle_attempt ops cfg m h w = (v, Inr h2)" "hs_pending_letter h2 = Some ?l" by blast
    obtain w' where "op_publish ops ?l (op_clear_context ops v) = (w', Inr ())" using assms(3) by blast
    with h2(2) have "handle_attempt ops cfg m h2 v = (w', Inl (DeadLettered ?l))"
      by (simp add: handle_attempt_def Let_def)
    then have "handle_loop ops cfg m h2 v = Some (w', DeadLettered ?l)" by (subst loop_step) (simp add: assms(1))
    with h2(1) have "handle_loop ops cfg m h w = Some (w', DeadLettered ?l)" by (subst loop_step) (simp add: assms(1))
    moreover have "dl_attempts ?l \<le> int (max_unexpected_error_attempts cfg)" using less(4) by (simp add: new_letter_def)
    ultimately show ?thesis by blast
  next
    case False
    with e(2) have u: "classify_failure e = UNEXPECTED" by (cases "classify_failure e") auto
    let ?h2 = "h1\<lparr>hs_unexpected_failures := hs_attempt h + 1\<rparr>"
    from False u h1 have "handle_attempt ops cfg m h w = back_off ops cfg ?h2 v"
      unfolding att by (simp add: on_processing_failure_def Let_def)
    moreover obtain d where "back_off ops cfg ?h2 v = (op_wait ops d v, Inr ?h2)"
      using back_off_early [of ?h2 ops cfg v] False assms(4) h1(2) by auto
    ultimately have "handle_loop ops cfg m h w = handle_loop ops cfg m ?h2 (op_wait ops d v)"
      by (subst loop_step) (simp add: assms(1))
    moreover have "\<exists>w' l. handle_loop ops cfg m ?h2 (op_wait ops d v) = Some (w', DeadLettered l) \<and>
        dl_attempts l \<le> int (max_unexpected_error_attempts cfg)"
      using False h1 by (intro less(1)) auto
    ultimately show ?thesis by simp
  qed
qed

text \<open>
  C11: a poison message cannot block its partition. When processing it never succeeds and never fails
  transiently, and the dead-letter topic accepts the letter, handling ends after at most the
  configured number of attempts with the message dead-lettered.
\<close>

theorem poison_message_dead_lettered:
  assumes "\<And>w. \<not> op_stopping ops w"
    and "\<And>w. \<exists>w' e. op_process ops (km_value m) (provenance_of m) w = (w', Inl e) \<and> classify_failure e \<noteq> TRANSIENT"
    and "\<And>l w. \<exists>w'. op_publish ops l w = (w', Inr ())"
    and "1 \<le> max_unexpected_error_attempts cfg" "max_unexpected_error_attempts cfg \<le> 1024"
  shows "\<exists>w' l. handle ops cfg m w = Some (w', DeadLettered l) \<and>
    dl_attempts l \<le> int (max_unexpected_error_attempts cfg)"
  using poison_loop [OF assms(1-3,5), of first_attempt w] assms(4) by (simp add: handle_def first_attempt_def)

section \<open>Examples\<close>

text \<open>A world that counts how many more attempts will fail, and one in which each fails the same way.\<close>

definition example_message :: kafka_message where
  "example_message = \<lparr>km_topic = ''transactions'', km_partition = 3, km_offset = 41, km_timestamp = (1, 5),
     km_key = Some ''user'', km_value = Some ''{}''\<rparr>"

definition example_retry :: retry_settings where
  "example_retry = \<lparr>max_unexpected_error_attempts = 3, retry_initial_backoff = 1 / 2, retry_max_backoff = 30\<rparr>"

definition counting_operations :: "record_result \<Rightarrow> nat operations" where
  "counting_operations result =
     \<lparr>op_process = (\<lambda>v p n. if n = 0 then (0, Inr result)
                    else (n - 1, Inl (plain_exception [PyConnectionError, PyOSError] ''ConnectionRefusedError'' ''''))),
      op_publish = (\<lambda>l n. (n, Inr ())), op_stopping = (\<lambda>n. False), op_clock = (\<lambda>n. 0), op_jitter = (\<lambda>n. 1),
      op_correlation = (\<lambda>n. None), op_clear_context = (\<lambda>n. n), op_wait = (\<lambda>d n. n)\<rparr>"

lemma connection_error_transient:
  "classify_failure (plain_exception [PyConnectionError, PyOSError] ''ConnectionRefusedError'' '''') = TRANSIENT"
  by (simp add: plain_exceptions_classified TRANSIENT_LIBRARY_ERRORS_def)

lemma counting_outage: "outage (counting_operations result) m n (\<lambda>i. n - i)"
  by (auto simp: outage_def counting_operations_def connection_error_transient)

theorem outage_tolerance_witness:
  "\<forall>result. handle (counting_operations result) example_retry example_message 1024 = Some (0, Processed result) \<and>
     (\<exists>v. handle (counting_operations result) example_retry example_message 1025 = Some (v, TaskCrashed))"
proof
  fix result
  have "if n \<le> 1024 then handle (counting_operations result) example_retry example_message (n - 0) = Some (0, Processed result)
      else \<exists>v. handle (counting_operations result) example_retry example_message (n - 0) = Some (v, TaskCrashed)" for n
    by (rule outage_tolerance [OF counting_outage]) (simp_all add: counting_operations_def)
  from this [of 1024] this [of 1025] show
    "handle (counting_operations result) example_retry example_message 1024 = Some (0, Processed result) \<and>
     (\<exists>v. handle (counting_operations result) example_retry example_message 1025 = Some (v, TaskCrashed))"
    by simp
qed

definition failing_operations :: "unit operations" where
  "failing_operations =
     \<lparr>op_process = (\<lambda>v p w. (w, Inl (plain_exception [OtherClass ''KeyError''] ''KeyError'' ''bug''))),
      op_publish = (\<lambda>l w. (w, Inr ())), op_stopping = (\<lambda>w. False), op_clock = (\<lambda>w. 0), op_jitter = (\<lambda>w. 1),
      op_correlation = (\<lambda>w. None), op_clear_context = (\<lambda>w. w), op_wait = (\<lambda>d w. w)\<rparr>"

lemma key_error_unexpected: "classify_failure (plain_exception [OtherClass ''KeyError''] ''KeyError'' ''bug'') = UNEXPECTED"
  by (simp add: plain_exceptions_classified TRANSIENT_LIBRARY_ERRORS_def)

theorem poison_message_witness:
  "\<exists>l. handle failing_operations example_retry example_message () = Some ((), DeadLettered l) \<and> dl_attempts l \<le> 3"
  using poison_message_dead_lettered [of failing_operations example_message example_retry "()"]
  by (simp add: failing_operations_def key_error_unexpected example_retry_def)

end
