(* ===== verification/Events.thy ===== *)
theory Events
  imports Scoring Transaction_Facts Errors
begin

text \<open>
  The \<open>TransactionCreated\<close> event (\<open>app/events.py\<close>): the constraints its fields declare, the model, and
  \<open>parse_transaction_event\<close>, which turns the bytes of a Kafka message into an event or an error.

  The record \<open>event_externals\<close> gathers what the repository does not define: the decoder of JSON text
  and pydantic's conversions of a JSON value into a UUID, a finite \<open>Decimal\<close>, an aware \<open>datetime\<close> (an
  instant in microseconds), an \<open>int\<close>, a \<open>bool\<close>, and the comparison with \<open>Literal[1]\<close>. The length,
  pattern, sign and digit constraints are written out. A pattern is matched by pydantic before the
  value is upper-cased; accepted values are ASCII.
\<close>

section \<open>Characters and texts\<close>

definition is_space :: "char \<Rightarrow> bool" where
  "is_space c \<longleftrightarrow> (let n = (of_char c :: nat) in 9 \<le> n \<and> n \<le> 13 \<or> n = 32 \<or> n = 133 \<or> n = 160)"

definition strip_whitespace :: "string \<Rightarrow> string" where
  "strip_whitespace s = rev (dropWhile is_space (rev (dropWhile is_space s)))"

definition is_lower :: "char \<Rightarrow> bool" where
  "is_lower c \<longleftrightarrow> (97 :: nat) \<le> of_char c \<and> (of_char c :: nat) \<le> 122"

definition is_letter :: "char \<Rightarrow> bool" where
  "is_letter c \<longleftrightarrow> is_upper c \<or> is_lower c"

definition upper_char :: "char \<Rightarrow> char" where
  "upper_char c = (if is_lower c then char_of ((of_char c :: nat) - 32) else c)"

definition to_upper :: "string \<Rightarrow> string" where
  "to_upper s = map upper_char s"

section \<open>Field types\<close>

text \<open>
  \<open>StringConstraints\<close>: strip, check the length and that every character belongs to the pattern's class
  (the patterns are all of the form \<open>^[class]+$\<close> or \<open>^[class]{n}$\<close>), then upper-case.
\<close>

fun constrained :: "bool \<Rightarrow> nat \<Rightarrow> nat \<Rightarrow> (char \<Rightarrow> bool) \<Rightarrow> json \<Rightarrow> string checked" where
  "constrained normalise lo hi allowed (JStr s) =
     (let t = (if normalise then strip_whitespace s else s)
      in if length t < lo then Inl [([], StringTooShort)]
         else if hi < length t then Inl [([], StringTooLong)]
         else if \<not> list_all allowed t then Inl [([], PatternMismatch)]
         else Inr (if normalise then to_upper t else t))"
| "constrained normalise lo hi allowed _ = Inl [([], WrongJsonType)]"

definition category_char :: "char \<Rightarrow> bool" where
  "category_char c \<longleftrightarrow> is_letter c \<or> is_digit c \<or> c \<in> {CHR ''_'', CHR ''-''}"

definition correlation_char :: "char \<Rightarrow> bool" where
  "correlation_char c \<longleftrightarrow> is_letter c \<or> is_digit c \<or> c \<in> {CHR ''.'', CHR ''_'', CHR '':'', CHR ''-''}"

definition channel_char :: "char \<Rightarrow> bool" where
  "channel_char c \<longleftrightarrow> is_letter c \<or> c = CHR ''_''"

definition Category :: "json \<Rightarrow> string checked" where
  "Category = constrained True 1 64 category_char"
definition CorrelationId :: "json \<Rightarrow> string checked" where
  "CorrelationId = constrained False 1 128 correlation_char"
definition Channel :: "json \<Rightarrow> string checked" where
  "Channel = constrained True 2 32 channel_char"

text \<open>Two patterns fix the length themselves, so a wrong length is a mismatch.\<close>

fun exact_letters :: "nat \<Rightarrow> json \<Rightarrow> string checked" where
  "exact_letters n (JStr s) =
     (let t = strip_whitespace s
      in if length t = n \<and> list_all is_letter t then Inr (to_upper t) else Inl [([], PatternMismatch)])"
| "exact_letters n _ = Inl [([], WrongJsonType)]"

definition CurrencyCode :: "json \<Rightarrow> string checked" where "CurrencyCode = exact_letters 3"
definition CountryCode :: "json \<Rightarrow> string checked" where "CountryCode = exact_letters 2"

section \<open>Decimals\<close>

record event_externals =
  json_loads :: "string \<Rightarrow> json option option"
  to_uuid :: "json \<Rightarrow> uuid option"
  to_finite_decimal :: "json \<Rightarrow> decimal option"
  to_aware_datetime :: "json \<Rightarrow> int option"
  to_integer :: "json \<Rightarrow> int option"
  to_bool :: "json \<Rightarrow> bool option"
  is_literal_1 :: "json \<Rightarrow> bool"

text \<open>
  \<open>max_digits\<close> and \<open>decimal_places\<close>, which count neither a zero before the point nor trailing zeros
  after it: the value is a multiple of \<open>10 ^ - places\<close> with at most \<open>digits - places\<close> whole digits.
\<close>

definition decimal_places_ok :: "nat \<Rightarrow> decimal \<Rightarrow> bool" where
  "decimal_places_ok places d \<longleftrightarrow>
     - int places \<le> expo d \<or> coeff d mod 10 ^ nat (- int places - expo d) = 0"

definition whole_digits_ok :: "nat \<Rightarrow> decimal \<Rightarrow> bool" where
  "whole_digits_ok n d \<longleftrightarrow> dec_less (Dec \<bar>coeff d\<bar> (expo d)) (Dec 1 (int n))"

text \<open>\<open>_reject_float\<close> runs before the conversion; then come the sign (\<open>gt=0\<close> or \<open>ge=0\<close>) and the digits.\<close>

fun check_decimal :: "event_externals \<Rightarrow> bool \<Rightarrow> nat \<Rightarrow> nat \<Rightarrow> json \<Rightarrow> decimal checked" where
  "check_decimal px positive digits places (JFloat f) = Inl [([], BinaryFloat)]"
| "check_decimal px positive digits places v =
     (case to_finite_decimal px v of
        None \<Rightarrow> Inl [([], WrongJsonType)]
      | Some d \<Rightarrow>
          if \<not> decimal_places_ok places d then Inl [([], TooManyDecimals)]
          else if \<not> whole_digits_ok (digits - places) d then Inl [([], TooManyDigits)]
          else if coeff d < 0 \<or> positive \<and> coeff d = 0 then Inl [([], TooSmall)]
          else Inr d)"

definition Money :: "event_externals \<Rightarrow> json \<Rightarrow> decimal checked" where
  "Money px = check_decimal px True 18 2"

section \<open>The models\<close>

record enrichment =
  en_distance_from_last_tx_km :: "decimal option"
  en_minutes_since_last_tx :: "int option"
  en_user_historical_avg_spend :: "decimal option"
  en_is_new_merchant_for_user :: "bool option"
  en_is_travel_itinerary_active :: "bool option"

record transaction_created =
  ev_transaction_id :: uuid
  ev_user_id :: uuid
  ev_amount :: decimal
  ev_currency :: string
  ev_category :: string
  ev_occurred_at :: int
  ev_channel :: "string option"
  ev_country :: "string option"
  ev_correlation_id :: "string option"
  ev_enrichment :: "enrichment option"

text \<open>A field declared \<open>T | None = None\<close>: absent and \<open>null\<close> both give \<open>None\<close>.\<close>

definition optional_field :: "(string \<times> json) list \<Rightarrow> string \<Rightarrow> (json \<Rightarrow> 'a checked) \<Rightarrow> 'a option checked" where
  "optional_field kvs name check =
     (case map_of kvs name of
        None \<Rightarrow> Inr None
      | Some v \<Rightarrow> if v = JNull then Inr None
                  else (case located name (check v) of Inl es \<Rightarrow> Inl es | Inr x \<Rightarrow> Inr (Some x)))"

definition converted :: "(json \<Rightarrow> 'a option) \<Rightarrow> problem \<Rightarrow> json \<Rightarrow> 'a checked" where
  "converted f p v = err_of_option [([], p)] (f v)"

fun check_enrichment :: "event_externals \<Rightarrow> json \<Rightarrow> enrichment checked" where
  "check_enrichment px (JDict kvs) =
     err_bind
       (both (optional_field kvs ''distance_from_last_tx_km'' (check_decimal px False 12 3))
         (both (optional_field kvs ''minutes_since_last_tx'' (check_int (to_integer px) 0 None))
           (both (optional_field kvs ''user_historical_avg_spend'' (check_decimal px False 18 2))
             (both (optional_field kvs ''is_new_merchant_for_user'' (converted (to_bool px) WrongJsonType))
               (optional_field kvs ''is_travel_itinerary_active'' (converted (to_bool px) WrongJsonType))))))
       (\<lambda>(distance, minutes, spend, new, travel).
          Inr \<lparr>en_distance_from_last_tx_km = distance, en_minutes_since_last_tx = minutes,
               en_user_historical_avg_spend = spend, en_is_new_merchant_for_user = new,
               en_is_travel_itinerary_active = travel\<rparr>)"
| "check_enrichment px _ = Inl [([], WrongJsonType)]"

definition check_literal :: "(json \<Rightarrow> bool) \<Rightarrow> json \<Rightarrow> unit checked" where
  "check_literal p v = err_guard (p v) [([], WrongLiteral)]"

text \<open>
  \<open>datetime\<close> holds the years 1 to 9999. An aware one near either end can be a valid value whose UTC
  time is not: \<open>astimezone(UTC)\<close> then raises \<open>OverflowError\<close>, which is not a validation error.
\<close>

definition MIN_DATETIME :: int where "MIN_DATETIME = - 62135596800000000"
definition MAX_DATETIME :: int where "MAX_DATETIME = 253402300799999999"

definition datetime_ok :: "int \<Rightarrow> bool" where
  "datetime_ok t \<longleftrightarrow> MIN_DATETIME \<le> t \<and> t \<le> MAX_DATETIME"

definition timezone_overflows :: "event_externals \<Rightarrow> (string \<times> json) list \<Rightarrow> bool" where
  "timezone_overflows px kvs =
     (case map_of kvs ''occurred_at'' of
        None \<Rightarrow> False
      | Some v \<Rightarrow> (case to_aware_datetime px v of None \<Rightarrow> False | Some t \<Rightarrow> \<not> datetime_ok t))"

text \<open>\<open>TransactionCreatedV1.model_validate\<close>: every field is checked, unknown ones are ignored.\<close>

definition check_event :: "event_externals \<Rightarrow> (string \<times> json) list \<Rightarrow> transaction_created checked" where
  "check_event px kvs =
     err_bind
       (both (model_field kvs ''schema_version'' (check_literal (is_literal_1 px)))
         (both (model_field kvs ''event_type'' (check_literal (\<lambda>v. v = JStr ''TransactionCreated'')))
           (both (model_field kvs ''transaction_id'' (converted (to_uuid px) WrongJsonType))
             (both (model_field kvs ''user_id'' (converted (to_uuid px) WrongJsonType))
               (both (model_field kvs ''amount'' (Money px))
                 (both (model_field kvs ''currency'' CurrencyCode)
                   (both (model_field kvs ''category'' Category)
                     (both (model_field kvs ''occurred_at'' (converted (to_aware_datetime px) NotADateTime))
                       (both (optional_field kvs ''channel'' Channel)
                         (both (optional_field kvs ''country'' CountryCode)
                           (both (optional_field kvs ''correlation_id'' CorrelationId)
                             (optional_field kvs ''enrichment'' (check_enrichment px)))))))))))))
       (\<lambda>(_, _, tid, uid, amount, currency, category, occurred_at, channel, country, correlation, enr).
          Inr \<lparr>ev_transaction_id = tid, ev_user_id = uid, ev_amount = amount, ev_currency = currency,
               ev_category = category, ev_occurred_at = occurred_at, ev_channel = channel,
               ev_country = country, ev_correlation_id = correlation, ev_enrichment = enr\<rparr>)"

section \<open>Parsing a message\<close>

definition MAX_EVENT_BYTES :: nat where "MAX_EVENT_BYTES = 64 * 1024"

text \<open>Evaluation compares as integers, which are binary.\<close>

lemma max_event_bytes_code [code_unfold]: "MAX_EVENT_BYTES < n \<longleftrightarrow> 65536 < int n"
  by (simp add: MAX_EVENT_BYTES_def)

text \<open>
  The first five are \<open>InvalidEventError\<close>s; the last three are exceptions that \<open>parse_transaction_event\<close>
  does not catch: what \<open>json.loads\<close> raises besides its two documented errors (\<open>RecursionError\<close>,
  \<open>ValueError\<close> for an integer literal of thousands of digits), the \<open>TypeError\<close> of looking up an
  unhashable value in a set, and the \<open>OverflowError\<close> above.
\<close>

datatype event_error =
    EmptyPayload | OversizedPayload | PayloadNotJson | NotAnObject | FailedValidation "field_error list"
  | UnsupportedVersion
  | LoadsCrashed | UnhashableVersion | TimezoneOverflow

text \<open>\<open>version not in SUPPORTED_SCHEMA_VERSIONS\<close>: membership in \<open>frozenset({1})\<close> is by hash and equality.\<close>

fun version_supported :: "json option \<Rightarrow> event_error + bool" where
  "version_supported (Some (JList _)) = Inl UnhashableVersion"
| "version_supported (Some (JDict _)) = Inl UnhashableVersion"
| "version_supported (Some (JInt n)) = Inr (n = 1)"
| "version_supported (Some (JBool b)) = Inr b"
| "version_supported (Some (JDec d)) = Inr (dec_eq d (Dec 1 0))"
| "version_supported (Some (JFloat (FNum d))) = Inr (dec_eq d (Dec 1 0))"
| "version_supported _ = Inr False"

text \<open>\<open>json_loads\<close> gives \<open>None\<close> for an exception, \<open>Some None\<close> for one of the two caught ones.\<close>

definition parse_transaction_event :: "event_externals \<Rightarrow> string option \<Rightarrow> event_error + transaction_created" where
  "parse_transaction_event px raw =
     (case raw of
        None \<Rightarrow> Inl EmptyPayload
      | Some bytes \<Rightarrow>
          if length bytes = 0 then Inl EmptyPayload
          else if MAX_EVENT_BYTES < length bytes then Inl OversizedPayload
          else
            (case json_loads px bytes of
               None \<Rightarrow> Inl LoadsCrashed
             | Some None \<Rightarrow> Inl PayloadNotJson
             | Some (Some (JDict kvs)) \<Rightarrow>
                 err_bind (version_supported (map_of kvs ''schema_version''))
                   (\<lambda>supported.
                      if \<not> supported then Inl UnsupportedVersion
                      else if timezone_overflows px kvs then Inl TimezoneOverflow
                      else (case check_event px kvs of
                              Inl es \<Rightarrow> Inl (FailedValidation es)
                            | Inr e \<Rightarrow> Inr e))
             | Some (Some _) \<Rightarrow> Inl NotAnObject))"

end
