(* ===== verification/Event_Facts.thy ===== *)
theory Event_Facts
  imports Events
begin

text \<open>
  What a parsed event satisfies, whatever the bytes of the message, and what parsing reports for a
  message that is not an event.
\<close>

section \<open>Texts\<close>

lemma of_char_upper: "is_lower c \<Longrightarrow> (of_char (upper_char c) :: nat) = of_char c - 32"
  by (auto simp: upper_char_def is_lower_def intro!: mod_less)

lemma upper_char_letter: "is_letter c \<Longrightarrow> is_upper (upper_char c)"
  using of_char_upper [of c] by (auto simp: is_letter_def is_upper_def is_lower_def upper_char_def)

lemma upper_char_other: "\<not> is_lower c \<Longrightarrow> upper_char c = c"
  by (simp add: upper_char_def)

lemma digit_not_lower: "is_digit c \<Longrightarrow> \<not> is_lower c"
  by (simp add: is_digit_def is_lower_def)

lemma punctuation_not_lower [simp]: "\<not> is_lower CHR ''_''" "\<not> is_lower CHR ''-''"
  by (simp_all add: is_lower_def)

lemma length_to_upper [simp]: "length (to_upper s) = length s"
  by (simp add: to_upper_def)

lemma to_upper_letters: "list_all is_letter s \<Longrightarrow> list_all is_upper (to_upper s)"
  by (simp add: to_upper_def list_all_iff upper_char_letter)

lemma to_upper_all:
  "list_all p s \<Longrightarrow> (\<And>c. p c \<Longrightarrow> q (upper_char c)) \<Longrightarrow> list_all q (to_upper s)"
  by (simp add: to_upper_def list_all_iff)

definition category_ok :: "string \<Rightarrow> bool" where
  "category_ok s \<longleftrightarrow> 1 \<le> length s \<and> length s \<le> 64 \<and>
     list_all (\<lambda>c. is_upper c \<or> is_digit c \<or> c \<in> {CHR ''_'', CHR ''-''}) s"

definition channel_ok :: "string \<Rightarrow> bool" where
  "channel_ok s \<longleftrightarrow> 2 \<le> length s \<and> length s \<le> 32 \<and> list_all (\<lambda>c. is_upper c \<or> c = CHR ''_'') s"

definition letters_ok :: "nat \<Rightarrow> string \<Rightarrow> bool" where
  "letters_ok n s \<longleftrightarrow> length s = n \<and> list_all is_upper s"

definition correlation_ok :: "string \<Rightarrow> bool" where
  "correlation_ok s \<longleftrightarrow> 1 \<le> length s \<and> length s \<le> 128 \<and> list_all correlation_char s"

lemma constrained_Inr:
  "constrained normalise lo hi allowed v = Inr t \<longleftrightarrow>
     (\<exists>s u. v = JStr s \<and> u = (if normalise then strip_whitespace s else s) \<and> lo \<le> length u \<and> length u \<le> hi \<and>
        list_all allowed u \<and> t = (if normalise then to_upper u else u))"
  by (cases v) (auto simp: Let_def)

lemma exact_letters_Inr:
  "exact_letters n v = Inr t \<longleftrightarrow>
     (\<exists>s. v = JStr s \<and> length (strip_whitespace s) = n \<and> list_all is_letter (strip_whitespace s) \<and>
        t = to_upper (strip_whitespace s))"
  by (cases v) (auto simp: Let_def)

lemma Category_ok: "Category v = Inr t \<Longrightarrow> category_ok t"
  unfolding Category_def constrained_Inr category_ok_def
  by (auto simp: category_char_def upper_char_letter upper_char_other digit_not_lower elim!: to_upper_all)

lemma Channel_ok: "Channel v = Inr t \<Longrightarrow> channel_ok t"
  unfolding Channel_def constrained_Inr channel_ok_def
  by (auto simp: channel_char_def upper_char_letter upper_char_other elim!: to_upper_all)

lemma letters_accepted: "exact_letters n v = Inr t \<Longrightarrow> letters_ok n t"
  by (auto simp: exact_letters_Inr letters_ok_def to_upper_letters)

lemma CorrelationId_ok: "CorrelationId v = Inr t \<Longrightarrow> correlation_ok t"
  by (auto simp: CorrelationId_def constrained_Inr correlation_ok_def)

section \<open>Amounts\<close>

definition decimal_ok :: "nat \<Rightarrow> nat \<Rightarrow> decimal \<Rightarrow> bool" where
  "decimal_ok digits places d \<longleftrightarrow>
     0 \<le> coeff d \<and> decimal_places_ok places d \<and> whole_digits_ok (digits - places) d"

lemma check_decimal_ok:
  "check_decimal px positive digits places v = Inr d \<Longrightarrow> decimal_ok digits places d \<and> (positive \<longrightarrow> 0 < coeff d)"
  by (cases v) (auto simp: decimal_ok_def split: option.splits if_splits)

lemma rounding_exact: "0 < (p :: int) \<Longrightarrow> (2 * (q * p) + p) div (2 * p) = q"
proof -
  assume p: "0 < p"
  have "(2 * (q * p) + p) div (2 * p) = (p + q * (2 * p)) div (2 * p)" by (simp add: algebra_simps)
  also have "\<dots> = q + p div (2 * p)" using p by simp
  also have "p div (2 * p) = 0" using p by (simp add: div_pos_pos_trivial)
  finally show ?thesis by simp
qed

lemma money_exact:
  assumes "decimal_places_ok 2 d" "whole_digits_ok 16 d"
  shows "\<exists>c. numeric_18_2 d = Some (Dec c (- 2)) \<and> dec_val (Dec c (- 2)) = dec_val d"
proof -
  let ?c = "if - 2 \<le> expo d then dec_align d (- 2)
            else sgn (coeff d) * ((2 * \<bar>coeff d\<bar> + 10 ^ nat (- 2 - expo d)) div (2 * 10 ^ nat (- 2 - expo d)))"
  have val: "dec_val (Dec ?c (- 2)) = dec_val d"
  proof (cases "- 2 \<le> expo d")
    case True
    then show ?thesis using dec_align_val [of "- 2" d] by (simp add: dec_val_Dec)
  next
    case False
    define n where "n = nat (- 2 - expo d)"
    from False have e: "(- 2 :: int) = int n + expo d" by (simp add: n_def)
    from assms(1) False obtain q where q: "coeff d = q * 10 ^ n"
      by (auto simp: decimal_places_ok_def n_def mult.commute elim!: dvdE [OF dvd_eq_mod_eq_0 [THEN iffD2]])
    have "\<bar>coeff d\<bar> = \<bar>q\<bar> * 10 ^ n" by (simp add: q abs_mult)
    then have "?c = sgn (coeff d) * \<bar>q\<bar>" using False rounding_exact [of "10 ^ n" "\<bar>q\<bar>"] by (simp add: n_def)
    also have "\<dots> = q" by (simp add: q sgn_mult mult_sgn_abs)
    finally have "dec_val (Dec ?c (- 2)) = of_int q * 10 powi (int n + expo d)" by (simp add: dec_val_Dec e)
    also have "\<dots> = dec_val d" by (simp add: powi10_shift dec_val_def q)
    finally show ?thesis .
  qed
  have "dec_val (Dec \<bar>coeff d\<bar> (expo d)) = \<bar>dec_val d\<bar>" by (simp add: dec_val_def abs_mult)
  with assms(2) have "\<bar>dec_val d\<bar> < 10 ^ 16"
    by (simp add: whole_digits_ok_def dec_less_iff dec_val_Dec)
  then have "\<bar>rat_of_int ?c\<bar> < 10 ^ 18"
    by (simp only: val [symmetric] dec_val_Dec) (simp add: abs_mult power_int_minus field_simps)
  then have "rat_of_int \<bar>?c\<bar> < rat_of_int (10 ^ 18)" by (simp only: of_int_abs of_int_power of_int_numeral)
  then have "\<bar>?c\<bar> < 10 ^ 18" by (simp only: of_int_less_iff)
  then show ?thesis using val by (auto simp: numeric_18_2_def Let_def split: if_splits)
qed

section \<open>Well-formed events\<close>

definition option_ok :: "('a \<Rightarrow> bool) \<Rightarrow> 'a option \<Rightarrow> bool" where
  "option_ok p v \<longleftrightarrow> (case v of None \<Rightarrow> True | Some x \<Rightarrow> p x)"

definition enrichment_ok :: "enrichment \<Rightarrow> bool" where
  "enrichment_ok e \<longleftrightarrow>
     option_ok (decimal_ok 12 3) (en_distance_from_last_tx_km e) \<and>
     option_ok (\<lambda>n. 0 \<le> n) (en_minutes_since_last_tx e) \<and>
     option_ok (decimal_ok 18 2) (en_user_historical_avg_spend e)"

definition event_ok :: "transaction_created \<Rightarrow> bool" where
  "event_ok e \<longleftrightarrow>
     0 < coeff (ev_amount e) \<and> decimal_ok 18 2 (ev_amount e) \<and> letters_ok 3 (ev_currency e) \<and>
     category_ok (ev_category e) \<and> datetime_ok (ev_occurred_at e) \<and>
     option_ok channel_ok (ev_channel e) \<and> option_ok (letters_ok 2) (ev_country e) \<and>
     option_ok correlation_ok (ev_correlation_id e) \<and> option_ok enrichment_ok (ev_enrichment e)"

lemma optional_field_ok:
  assumes "optional_field kvs name check = Inr x" "\<And>v y. check v = Inr y \<Longrightarrow> p y"
  shows "option_ok p x"
  using assms by (auto simp: optional_field_def option_ok_def split: option.splits if_splits sum.splits)

lemma check_enrichment_ok: "check_enrichment px v = Inr e \<Longrightarrow> enrichment_ok e"
  by (cases v) (auto simp: enrichment_ok_def elim!: optional_field_ok dest: check_decimal_ok)

lemma check_event_ok:
  assumes "check_event px kvs = Inr e" "\<not> timezone_overflows px kvs"
  shows "event_ok e"
  using assms
  by (auto simp: check_event_def event_ok_def Money_def CurrencyCode_def CountryCode_def converted_def
      timezone_overflows_def Category_ok
      intro: letters_accepted elim!: optional_field_ok
      dest: check_decimal_ok Channel_ok CorrelationId_ok check_enrichment_ok)

lemma parse_Inr:
  "parse_transaction_event px raw = Inr e \<longleftrightarrow>
     (\<exists>bytes kvs. raw = Some bytes \<and> 0 < length bytes \<and> length bytes \<le> MAX_EVENT_BYTES \<and>
        json_loads px bytes = Some (Some (JDict kvs)) \<and>
        version_supported (map_of kvs ''schema_version'') = Inr True \<and>
        \<not> timezone_overflows px kvs \<and> check_event px kvs = Inr e)"
  by (auto simp: parse_transaction_event_def split: option.splits json.splits sum.splits)

end
