(* ===== verification/Rule_Cache.thy ===== *)
theory Rule_Cache
  imports Rule_Store_Facts
begin

text \<open>
  The provider of the active rule set (\<open>app/cache.py\<close>): an in-process copy, then Redis, then PostgreSQL.
  Redis is an external service: a read either fails or returns what it holds, and a write either fails
  or replaces the entry and its expiry. An entry is modelled as the JSON document it encodes. The
  text of a \<open>datetime\<close> and Python's \<open>int()\<close> are the parameters \<open>conversions\<close>. Times are seconds.
\<close>

section \<open>Cache entries\<close>

record conversions =
  isoformat :: "int \<Rightarrow> string"
  fromisoformat :: "string \<Rightarrow> int option"
  to_int :: "json \<Rightarrow> int option"

definition CACHE_ENTRY_SCHEMA :: int where "CACHE_ENTRY_SCHEMA = 1"

definition rule_set_cache_key :: "string \<Rightarrow> string" where
  "rule_set_cache_key key = ''fraud:rule-sets:'' @ key @ '':active''"

definition serialise :: "conversions \<Rightarrow> rule_set \<Rightarrow> json" where
  "serialise conv rs =
     JDict [(''schema'', JInt CACHE_ENTRY_SCHEMA),
            (''key'', JStr (rs_key rs)),
            (''version'', JInt (rs_version rs)),
            (''definition'', model_dump (rs_definition rs)),
            (''content_hash'', JStr (rs_content_hash rs)),
            (''description'', JStr (rs_description rs)),
            (''created_by'', JStr (rs_created_by rs)),
            (''created_at'', JStr (isoformat conv (rs_created_at rs)))]"

text \<open>\<open>entry.get("schema") == 1\<close>: \<open>1.0\<close> and \<open>True\<close> are equal to 1 in Python.\<close>

fun is_schema :: "json \<Rightarrow> bool" where
  "is_schema (JInt n) = (n = CACHE_ENTRY_SCHEMA)"
| "is_schema (JBool b) = b"
| "is_schema (JFloat (FNum d)) = dec_eq d (Dec CACHE_ENTRY_SCHEMA 0)"
| "is_schema _ = False"

datatype cache_error = EntryKeyError | EntryTypeError | EntryValueError | EntryCorrupt corrupt

fun text_field :: "(string \<times> json) list \<Rightarrow> string \<Rightarrow> cache_error + string" where
  "text_field kvs name =
     (case map_of kvs name of None \<Rightarrow> Inl EntryKeyError | Some (JStr s) \<Rightarrow> Inr s | Some _ \<Rightarrow> Inl EntryTypeError)"

text \<open>
  \<open>_deserialise\<close>: \<open>None\<close> for an entry of another schema, an exception for a damaged one. (Only this code
  writes entries; a text field that holds something else than text is an error here.)
\<close>

fun deserialise :: "externals \<Rightarrow> conversions \<Rightarrow> json \<Rightarrow> cache_error + rule_set option" where
  "deserialise ext conv (JDict entry) =
     (if \<not> (case map_of entry ''schema'' of None \<Rightarrow> False | Some s \<Rightarrow> is_schema s) then Inr None
      else
        err_bind (text_field entry ''key'') (\<lambda>key.
        err_bind (err_bind (err_of_option EntryKeyError (map_of entry ''version''))
                    (\<lambda>v. err_of_option EntryValueError (to_int conv v))) (\<lambda>version.
        err_bind (err_of_option EntryKeyError (map_of entry ''definition'')) (\<lambda>raw.
        err_bind (text_field entry ''content_hash'') (\<lambda>h.
        err_bind (case load_stored_definition (sha256 ext) (repr_float ext) (coerce_int ext) raw h
                          (version_label key version) of
                     Inl e \<Rightarrow> Inl (EntryCorrupt e) | Inr d \<Rightarrow> Inr d) (\<lambda>d.
        err_bind (text_field entry ''description'') (\<lambda>description.
        err_bind (text_field entry ''created_by'') (\<lambda>by.
        err_bind (text_field entry ''created_at'') (\<lambda>t.
        err_bind (err_of_option EntryValueError (fromisoformat conv t)) (\<lambda>created_at.
          Inr (Some \<lparr>rs_key = key, rs_version = version, rs_definition = d, rs_content_hash = h,
                     rs_description = description, rs_created_by = by, rs_created_at = created_at\<rparr>)))))))))))"
| "deserialise ext conv _ = Inl EntryTypeError"

section \<open>The provider\<close>

text \<open>What a read of the Redis entry gives: the client failed, no entry, or the text of an entry.\<close>

datatype redis_reply = RedisFailed | NoEntry | NotJson | Entry json

definition read_redis :: "externals \<Rightarrow> conversions \<Rightarrow> redis_reply \<Rightarrow> rule_set option" where
  "read_redis ext conv reply =
     (case reply of
        Entry j \<Rightarrow> (case deserialise ext conv j of Inr r \<Rightarrow> r | Inl _ \<Rightarrow> None)
      | _ \<Rightarrow> None)"

datatype load_error = LoadFailed store_error | DatabaseUnavailable

record provider =
  p_key :: string
  p_local_ttl :: int
  p_redis_ttl :: int
  p_cached :: "rule_set option"
  p_cached_at :: int

definition new_provider :: "string \<Rightarrow> int \<Rightarrow> int \<Rightarrow> provider" where
  "new_provider key local_ttl redis_ttl =
     \<lparr>p_key = key, p_local_ttl = local_ttl, p_redis_ttl = redis_ttl, p_cached = None, p_cached_at = 0\<rparr>"

text \<open>
  \<open>get_active\<close>: the two readings of the clock, the reply of Redis and the answer of the database are
  arguments. The result holds the provider afterwards, what is returned or raised, and the rule set
  to be written to Redis, if any.
\<close>

definition get_active ::
    "externals \<Rightarrow> conversions \<Rightarrow> int \<Rightarrow> int \<Rightarrow> redis_reply \<Rightarrow> load_error + rule_set \<Rightarrow> provider \<Rightarrow>
     provider \<times> (load_error + rule_set) \<times> rule_set option" where
  "get_active ext conv now now' reply database p =
     (if (case p_cached p of None \<Rightarrow> False | Some _ \<Rightarrow> now - p_cached_at p < p_local_ttl p)
      then (p, Inr (the (p_cached p)), None)
      else
        case read_redis ext conv reply of
          Some rs \<Rightarrow> (p\<lparr>p_cached := Some rs, p_cached_at := now'\<rparr>, Inr rs, None)
        | None \<Rightarrow>
            (case database of
               Inl (LoadFailed (CorruptRuleSetError e)) \<Rightarrow>
                 (p\<lparr>p_cached := None\<rparr>, Inl (LoadFailed (CorruptRuleSetError e)), None)
             | Inl e \<Rightarrow> (p, Inl e, None)
             | Inr rs \<Rightarrow> (p\<lparr>p_cached := Some rs, p_cached_at := now'\<rparr>, Inr rs, Some rs)))"

text \<open>The answer of the database, when it can be reached.\<close>

definition query_latest :: "externals \<Rightarrow> bool \<Rightarrow> version_table \<Rightarrow> string \<Rightarrow> load_error + rule_set" where
  "query_latest ext up t key =
     (if \<not> up then Inl DatabaseUnavailable
      else case get_latest_rule_set ext t key of Inl e \<Rightarrow> Inl (LoadFailed e) | Inr rs \<Rightarrow> Inr rs)"

text \<open>Redis as this code uses it: one entry per key, with the time it expires.\<close>

type_synonym redis_entry = "(json \<times> int) option"

definition redis_get :: "bool \<Rightarrow> int \<Rightarrow> redis_entry \<Rightarrow> redis_reply" where
  "redis_get up now entry =
     (if \<not> up then RedisFailed
      else case entry of
             None \<Rightarrow> NoEntry
           | Some (j, expires) \<Rightarrow> if now < expires then Entry j else NoEntry)"

text \<open>\<open>write_rule_set_cache\<close>: a failed write is only logged, and reported as \<open>False\<close>.\<close>

definition write_rule_set_cache :: "conversions \<Rightarrow> bool \<Rightarrow> int \<Rightarrow> rule_set \<Rightarrow> int \<Rightarrow> redis_entry \<Rightarrow> redis_entry \<times> bool" where
  "write_rule_set_cache conv up now rs ttl entry =
     (if up then (Some (serialise conv rs, now + ttl), True) else (entry, False))"

section \<open>The provider in time\<close>

text \<open>
  \<open>hist\<close> gives the table of versions at each time. A step lets time pass, lets the provider answer a
  request (with Redis and the database each reachable or not), lets a publisher overwrite the entry,
  or lets Redis lose the entry. A version reaches Redis and the in-process copy some time after it was
  read or committed, at most \<open>delay\<close> seconds; in between, another version may have become active.
\<close>

record cache_state =
  c_now :: int
  c_entry :: redis_entry
  c_provider :: provider
  c_answer :: "rule_set option"

definition active_at :: "externals \<Rightarrow> (int \<Rightarrow> version_table) \<Rightarrow> string \<Rightarrow> int \<Rightarrow> rule_set \<Rightarrow> bool" where
  "active_at ext hist key t rs \<longleftrightarrow> get_latest_rule_set ext (hist t) key = Inr rs"

inductive cache_step ::
    "externals \<Rightarrow> conversions \<Rightarrow> (int \<Rightarrow> version_table) \<Rightarrow> int \<Rightarrow> cache_state \<Rightarrow> cache_state \<Rightarrow> bool"
  for ext conv hist delay where
  tick: "c_now s \<le> t \<Longrightarrow> cache_step ext conv hist delay s (s\<lparr>c_now := t, c_answer := None\<rparr>)"
| answer: "c_now s - delay \<le> t \<Longrightarrow> t \<le> c_now s \<Longrightarrow>
     get_active ext conv (c_now s) (c_now s) (redis_get redis_up (c_now s) (c_entry s))
       (query_latest ext database_up (hist t) (p_key (c_provider s))) (c_provider s) = (p, Inr rs, stored) \<Longrightarrow>
     entry = (case stored of None \<Rightarrow> c_entry s
              | Some w \<Rightarrow> fst (write_rule_set_cache conv redis_up' (c_now s) w (p_redis_ttl p) (c_entry s))) \<Longrightarrow>
     cache_step ext conv hist delay s (s\<lparr>c_entry := entry, c_provider := p, c_answer := Some rs\<rparr>)"
| refuse: "c_now s - delay \<le> t \<Longrightarrow> t \<le> c_now s \<Longrightarrow>
     get_active ext conv (c_now s) (c_now s) (redis_get redis_up (c_now s) (c_entry s))
       (query_latest ext database_up (hist t) (p_key (c_provider s))) (c_provider s) = (p, Inl e, stored) \<Longrightarrow>
     cache_step ext conv hist delay s (s\<lparr>c_provider := p, c_answer := None\<rparr>)"
| publish: "c_now s - delay \<le> t \<Longrightarrow> t \<le> c_now s \<Longrightarrow>
     active_at ext hist (p_key (c_provider s)) t rs \<Longrightarrow>
     cache_step ext conv hist delay s
       (s\<lparr>c_entry := fst (write_rule_set_cache conv up (c_now s) rs (p_redis_ttl (c_provider s)) (c_entry s)),
          c_answer := None\<rparr>)"
| lose: "cache_step ext conv hist delay s (s\<lparr>c_entry := None, c_answer := None\<rparr>)"

inductive cache_reachable ::
    "externals \<Rightarrow> conversions \<Rightarrow> (int \<Rightarrow> version_table) \<Rightarrow> int \<Rightarrow> cache_state \<Rightarrow> cache_state \<Rightarrow> bool"
  for ext conv hist delay s where
  cache_start: "cache_reachable ext conv hist delay s s"
| cache_next: "cache_reachable ext conv hist delay s s' \<Longrightarrow> cache_step ext conv hist delay s' s'' \<Longrightarrow>
     cache_reachable ext conv hist delay s s''"

section \<open>What the provider promises\<close>

text \<open>
  The contract of \<open>ActiveRuleSetSource\<close> in \<open>app/processing.py\<close>, which the scoring of transactions relies
  on: whatever a source returns is a checked rule set.
\<close>

locale active_rule_set_source =
  fixes active :: "'s \<Rightarrow> 's \<times> ('e + rule_set)"
    and source_ok :: "'s \<Rightarrow> bool"
  assumes source_keeps: "source_ok s \<Longrightarrow> source_ok (fst (active s))"
    and source_checked: "source_ok s \<Longrightarrow> active s = (s', Inr rs) \<Longrightarrow> valid_definition (rs_definition rs)"

end
