(* ===== verification/Rule_Cache_Facts.thy ===== *)
theory Rule_Cache_Facts
  imports Rule_Cache Stored_Documents
begin

text \<open>
  Integrity and freshness of the active rule set: whatever Redis holds, only checked rules are
  returned; the provider never falls back to an expired copy; and what it returns was the active
  version at most local TTL plus Redis TTL ago.
\<close>

section \<open>Integrity\<close>

lemma text_field_Inr [simp]: "text_field kvs name = Inr s \<longleftrightarrow> map_of kvs name = Some (JStr s)"
  by (auto split: option.splits json.splits)

declare text_field.simps [simp del]

lemma deserialise_loaded:
  assumes "deserialise ext conv j = Inr (Some rs)"
  shows "\<exists>raw label. load_stored_definition (sha256 ext) (repr_float ext) (coerce_int ext) raw
    (rs_content_hash rs) label = Inr (rs_definition rs)"
  using assms by (cases j) (auto split: if_splits, blast)

lemma read_redis_valid: "read_redis ext conv reply = Some rs \<Longrightarrow> valid_definition (rs_definition rs)"
  by (cases reply)
    (auto simp: read_redis_def load_accepts split: sum.splits dest!: deserialise_loaded intro: model_validate_valid)

lemma query_latest_valid: "query_latest ext up t key = Inr rs \<Longrightarrow> valid_definition (rs_definition rs)"
  by (auto simp: query_latest_def split: if_splits intro: latest_valid)

text \<open>The four ways a request ends.\<close>

lemma get_active_cases:
  obtains (cached) rs where "p_cached p = Some rs" "now - p_cached_at p < p_local_ttl p"
      "get_active ext conv now now' reply database p = (p, Inr rs, None)"
  | (redis) rs where "read_redis ext conv reply = Some rs"
      "get_active ext conv now now' reply database p = (p\<lparr>p_cached := Some rs, p_cached_at := now'\<rparr>, Inr rs, None)"
  | (loaded) rs where "database = Inr rs"
      "get_active ext conv now now' reply database p = (p\<lparr>p_cached := Some rs, p_cached_at := now'\<rparr>, Inr rs, Some rs)"
  | (failed) e where "database = Inl e"
      "get_active ext conv now now' reply database p =
         ((if \<exists>c. e = LoadFailed (CorruptRuleSetError c) then p\<lparr>p_cached := None\<rparr> else p), Inl e, None)"
      "p_cached p = None \<or> p_local_ttl p \<le> now - p_cached_at p" "read_redis ext conv reply = None"
proof (cases "case p_cached p of None \<Rightarrow> False | Some _ \<Rightarrow> now - p_cached_at p < p_local_ttl p")
  case True
  with cached show ?thesis by (auto simp: get_active_def split: option.splits)
next
  case stale: False
  show ?thesis
  proof (cases "read_redis ext conv reply")
    case (Some rs)
    with stale redis show ?thesis by (simp add: get_active_def)
  next
    case None
    show ?thesis
    proof (cases database)
      case (Inr rs)
      with stale None loaded show ?thesis by (simp add: get_active_def)
    next
      case (Inl e)
      have "get_active ext conv now now' reply database p =
         ((if \<exists>c. e = LoadFailed (CorruptRuleSetError c) then p\<lparr>p_cached := None\<rparr> else p), Inl e, None)"
        using stale None Inl by (auto simp: get_active_def split: load_error.splits store_error.splits)
      moreover have "p_cached p = None \<or> p_local_ttl p \<le> now - p_cached_at p"
        using stale by (auto split: option.splits)
      ultimately show ?thesis using Inl None failed by blast
    qed
  qed
qed

definition provider_ok :: "provider \<Rightarrow> bool" where
  "provider_ok p \<longleftrightarrow> (case p_cached p of None \<Rightarrow> True | Some rs \<Rightarrow> valid_definition (rs_definition rs))"

lemma get_active_ok:
  assumes "provider_ok p" "\<And>rs. database = Inr rs \<Longrightarrow> valid_definition (rs_definition rs)"
    and "get_active ext conv now now' reply database p = (p', r, w)"
  shows "provider_ok p' \<and> (case r of Inr rs \<Rightarrow> valid_definition (rs_definition rs) | Inl _ \<Rightarrow> True)"
  using assms read_redis_valid [of ext conv reply]
  by (cases rule: get_active_cases [of p now ext conv now' reply database])
    (auto simp: provider_ok_def split: if_splits)


text \<open>The provider as a source of rule sets: each request meets its own clock, Redis and database.\<close>

type_synonym request_world = "int \<times> int \<times> redis_reply \<times> bool \<times> version_table"

fun provider_active ::
    "externals \<Rightarrow> conversions \<Rightarrow> provider \<times> request_world list \<Rightarrow>
     (provider \<times> request_world list) \<times> (load_error + rule_set)" where
  "provider_active ext conv (p, []) = ((p, []), Inl DatabaseUnavailable)"
| "provider_active ext conv (p, (now, now', reply, up, t) # ws) =
     (let (p', r, _) = get_active ext conv now now' reply (query_latest ext up t (p_key p)) p in ((p', ws), r))"

interpretation cached_source: active_rule_set_source "provider_active ext conv" "\<lambda>(p, ws). provider_ok p" for ext conv
proof unfold_locales
  fix s :: "provider \<times> request_world list"
  assume ok: "(\<lambda>(p, ws). provider_ok p) s"
  obtain p ws where s: "s = (p, ws)" by (cases s)
  show "(\<lambda>(p, ws). provider_ok p) (fst (provider_active ext conv s))"
  proof (cases ws)
    case (Cons w ws')
    obtain now now' reply up t where w: "w = (now, now', reply, up, t)" by (cases w)
    from get_active_ok [OF _ query_latest_valid] ok show ?thesis
      by (auto simp: s Cons w Let_def split: prod.split)
  qed (use ok s in simp)
  show "valid_definition (rs_definition rs)" if "provider_active ext conv s = (s', Inr rs)" for s' rs
  proof (cases ws)
    case (Cons w ws')
    obtain now now' reply up t where w: "w = (now, now', reply, up, t)" by (cases w)
    obtain p' r x where g: "get_active ext conv now now' reply (query_latest ext up t (p_key p)) p = (p', r, x)"
      by (cases "get_active ext conv now now' reply (query_latest ext up t (p_key p)) p")
    from get_active_ok [OF _ query_latest_valid g] ok that g show ?thesis
      by (auto simp: s Cons w Let_def)
  qed (use that s in simp)
qed

text \<open>Loading the latest version at every request, as the API's dry run does.\<close>

definition latest_active :: "externals \<Rightarrow> string \<Rightarrow> version_table \<Rightarrow> version_table \<times> (store_error + rule_set)" where
  "latest_active ext key t = (t, get_latest_rule_set ext t key)"

interpretation latest_source: active_rule_set_source "latest_active ext key" "\<lambda>t. True" for ext key
  by unfold_locales (auto simp: latest_active_def intro: latest_valid)

section \<open>Entries survive Redis\<close>

text \<open>What the parameters are relied on for: integers and timestamps are read back as they were written.\<close>

definition conversions_ok :: "externals \<Rightarrow> conversions \<Rightarrow> bool" where
  "conversions_ok ext conv \<longleftrightarrow>
     (\<forall>n. coerce_int ext (JInt n) = Some n) \<and> (\<forall>n. to_int conv (JInt n) = Some n) \<and>
     (\<forall>t. fromisoformat conv (isoformat conv t) = Some t)"

lemma deserialise_serialise:
  assumes "valid_definition (rs_definition rs)" "conversions_ok ext conv"
    and "deserialise ext conv (serialise conv rs) = Inr r"
  shows "r = Some rs"
proof -
  have mv: "model_validate (coerce_int ext) (model_dump (rs_definition rs)) = Inr (rs_definition rs)"
    using assms(1,2) by (intro model_validate_dump) (simp_all add: conversions_ok_def)
  from assms(2,3) obtain x where r: "r = Some \<lparr>rs_key = rs_key rs, rs_version = rs_version rs, rs_definition = x,
      rs_content_hash = rs_content_hash rs, rs_description = rs_description rs,
      rs_created_by = rs_created_by rs, rs_created_at = rs_created_at rs\<rparr>"
    and "model_validate (coerce_int ext) (model_dump (rs_definition rs)) = Inr x"
    by (auto simp: serialise_def conversions_ok_def load_accepts)
  with mv have "x = rs_definition rs" by simp
  with r show ?thesis by simp
qed

text \<open>
  The cache entry of a published rule set reads back as that rule set: same version, rules, hash and
  metadata.
\<close>

theorem cache_entry_roundtrip:
  assumes "valid_definition (rs_definition rs)" "\<exists>a. dry_run (rs_definition rs) = Inr a"
    and "content_hash (sha256 ext) (repr_float ext) (rs_definition rs) = Some (rs_content_hash rs)"
    and "conversions_ok ext conv"
  shows "deserialise ext conv (serialise conv rs) = Inr (Some rs)"
proof -
  have "model_validate (coerce_int ext) (model_dump (rs_definition rs)) = Inr (rs_definition rs)"
    using assms(1,4) by (intro model_validate_dump) (simp_all add: conversions_ok_def)
  with assms(2,3) have "load_stored_definition (sha256 ext) (repr_float ext) (coerce_int ext)
      (model_dump (rs_definition rs)) (rs_content_hash rs) label = Inr (rs_definition rs)" for label
    by (simp add: load_accepts content_hash_def)
  with assms(4) show ?thesis
    by (simp add: serialise_def conversions_ok_def text_field.simps err_of_option_def CACHE_ENTRY_SCHEMA_def)
qed

section \<open>Freshness\<close>

text \<open>The version was the active one at some time between \<open>from\<close> and \<open>until\<close>.\<close>

definition active_between ::
    "externals \<Rightarrow> (int \<Rightarrow> version_table) \<Rightarrow> string \<Rightarrow> int \<Rightarrow> int \<Rightarrow> rule_set \<Rightarrow> bool" where
  "active_between ext hist key from until rs \<longleftrightarrow>
     (\<exists>t. from \<le> t \<and> t \<le> until \<and> active_at ext hist key t rs)"

lemma active_between_mono:
  "active_between ext hist key a b rs \<Longrightarrow> a' \<le> a \<Longrightarrow> b \<le> b' \<Longrightarrow> active_between ext hist key a' b' rs"
  unfolding active_between_def by (auto intro: order_trans)

definition entry_fresh ::
    "externals \<Rightarrow> conversions \<Rightarrow> (int \<Rightarrow> version_table) \<Rightarrow> string \<Rightarrow> int \<Rightarrow> int \<Rightarrow> int \<Rightarrow> redis_entry \<Rightarrow> bool" where
  "entry_fresh ext conv hist key redis_ttl delay now entry \<longleftrightarrow>
     (\<forall>j expires. entry = Some (j, expires) \<longrightarrow>
        (\<exists>rs. j = serialise conv rs \<and> active_between ext hist key (expires - redis_ttl - delay) now rs))"

definition copy_fresh ::
    "externals \<Rightarrow> (int \<Rightarrow> version_table) \<Rightarrow> string \<Rightarrow> int \<Rightarrow> int \<Rightarrow> rule_set option \<Rightarrow> bool" where
  "copy_fresh ext hist key from now copy \<longleftrightarrow>
     (\<forall>rs. copy = Some rs \<longrightarrow> active_between ext hist key from now rs)"

definition fresh ::
    "externals \<Rightarrow> conversions \<Rightarrow> (int \<Rightarrow> version_table) \<Rightarrow> string \<Rightarrow> int \<Rightarrow> int \<Rightarrow> int \<Rightarrow> cache_state \<Rightarrow> bool" where
  "fresh ext conv hist key local_ttl redis_ttl delay s \<longleftrightarrow>
     (let p = c_provider s
      in p_key p = key \<and> p_local_ttl p = local_ttl \<and> p_redis_ttl p = redis_ttl \<and>
         entry_fresh ext conv hist key redis_ttl delay (c_now s) (c_entry s) \<and>
         copy_fresh ext hist key (p_cached_at p - redis_ttl - delay) (c_now s) (p_cached p) \<and>
         copy_fresh ext hist key (c_now s - local_ttl - redis_ttl - delay) (c_now s) (c_answer s))"

lemma entry_fresh_None [simp]: "entry_fresh ext conv hist key redis_ttl delay now None"
  by (simp add: entry_fresh_def)

lemma copy_fresh_None [simp]: "copy_fresh ext hist key from now None"
  by (simp add: copy_fresh_def)

lemma copy_fresh_Some [simp]:
  "copy_fresh ext hist key from now (Some rs) \<longleftrightarrow> active_between ext hist key from now rs"
  by (simp add: copy_fresh_def)

lemma entry_fresh_mono:
  "entry_fresh ext conv hist key redis_ttl delay now entry \<Longrightarrow> now \<le> now' \<Longrightarrow>
     entry_fresh ext conv hist key redis_ttl delay now' entry"
  unfolding entry_fresh_def by (blast intro: active_between_mono order_refl)

lemma copy_fresh_mono:
  "copy_fresh ext hist key from now copy \<Longrightarrow> now \<le> now' \<Longrightarrow> copy_fresh ext hist key from now' copy"
  unfolding copy_fresh_def by (blast intro: active_between_mono order_refl)

lemma active_at_valid: "active_between ext hist key a b rs \<Longrightarrow> valid_definition (rs_definition rs)"
  by (auto simp: active_between_def active_at_def intro: latest_valid)

lemma read_redis_fresh:
  assumes "conversions_ok ext conv" "entry_fresh ext conv hist key redis_ttl delay now entry"
    and "read_redis ext conv (redis_get up now entry) = Some rs"
  shows "active_between ext hist key (now - redis_ttl - delay) now rs"
proof -
  from assms(3) obtain j expires where e: "entry = Some (j, expires)" "now < expires"
    and d: "deserialise ext conv j = Inr (Some rs)"
    by (auto simp: read_redis_def redis_get_def split: if_splits option.splits sum.splits)
  from assms(2) e(1) obtain rs' where rs': "j = serialise conv rs'"
    "active_between ext hist key (expires - redis_ttl - delay) now rs'" by (auto simp: entry_fresh_def)
  from deserialise_serialise [OF active_at_valid [OF rs'(2)] assms(1)] d rs'(1) have "rs = rs'" by auto
  with rs'(2) e(2) show ?thesis by (auto elim: active_between_mono)
qed

lemma query_latest_active:
  "query_latest ext up (hist t) key = Inr rs \<Longrightarrow> now - delay \<le> t \<Longrightarrow> t \<le> now \<Longrightarrow>
     active_between ext hist key (now - delay) now rs"
  by (auto simp: query_latest_def active_between_def active_at_def split: if_splits sum.splits)

lemma fresh_write:
  assumes "entry_fresh ext conv hist key redis_ttl delay now entry" "active_between ext hist key (now - delay) now rs"
  shows "entry_fresh ext conv hist key redis_ttl delay now (fst (write_rule_set_cache conv up now rs redis_ttl entry))"
  using assms by (auto simp: write_rule_set_cache_def entry_fresh_def)

lemma fresh_answer:
  assumes f: "fresh ext conv hist key local_ttl redis_ttl delay s" and ttl: "0 \<le> local_ttl" "0 \<le> redis_ttl" "0 \<le> delay"
    and conv: "conversions_ok ext conv"
    and t: "c_now s - delay \<le> t" "t \<le> c_now s"
    and g: "get_active ext conv (c_now s) (c_now s) (redis_get redis_up (c_now s) (c_entry s))
       (query_latest ext database_up (hist t) (p_key (c_provider s))) (c_provider s) = (p, Inr rs, w)"
    and entry: "entry = (case w of None \<Rightarrow> c_entry s
      | Some x \<Rightarrow> fst (write_rule_set_cache conv redis_up' (c_now s) x (p_redis_ttl p) (c_entry s)))"
  shows "fresh ext conv hist key local_ttl redis_ttl delay (s\<lparr>c_entry := entry, c_provider := p, c_answer := Some rs\<rparr>)"
  using g
proof (cases rule: get_active_cases [of "c_provider s" "c_now s" ext conv "c_now s"
      "redis_get redis_up (c_now s) (c_entry s)"
      "query_latest ext database_up (hist t) (p_key (c_provider s))"])
  case (cached rs')
  with g have p: "p = c_provider s" "rs' = rs" "w = None" by auto
  with f cached(1) have "active_between ext hist key (p_cached_at p - redis_ttl - delay) (c_now s) rs"
    by (simp add: fresh_def Let_def)
  then have "active_between ext hist key (c_now s - local_ttl - redis_ttl - delay) (c_now s) rs"
    using cached(2) p f by (elim active_between_mono) (auto simp: fresh_def Let_def)
  with f p entry cached(1) show ?thesis by (simp add: fresh_def Let_def)
next
  case (redis rs')
  with g have p: "p = (c_provider s)\<lparr>p_cached := Some rs, p_cached_at := c_now s\<rparr>" "rs' = rs" "w = None" by auto
  have "entry_fresh ext conv hist key redis_ttl delay (c_now s) (c_entry s)" using f by (simp add: fresh_def Let_def)
  from read_redis_fresh [OF conv this redis(1) [unfolded p(2)]]
  have b: "active_between ext hist key (c_now s - redis_ttl - delay) (c_now s) rs" .
  then have "active_between ext hist key (c_now s - local_ttl - redis_ttl - delay) (c_now s) rs"
    using ttl by (elim active_between_mono) auto
  with b f p entry show ?thesis by (simp add: fresh_def Let_def)
next
  case (loaded rs')
  with g have p: "p = (c_provider s)\<lparr>p_cached := Some rs, p_cached_at := c_now s\<rparr>" "rs' = rs" "w = Some rs" by auto
  from f have key: "p_key (c_provider s) = key" "p_redis_ttl p = redis_ttl"
    and e: "entry_fresh ext conv hist key redis_ttl delay (c_now s) (c_entry s)" by (auto simp: fresh_def Let_def p)
  from loaded(1) p(2) key have now: "active_between ext hist key (c_now s - delay) (c_now s) rs"
    using query_latest_active [OF _ t] by auto
  then have "active_between ext hist key (c_now s - redis_ttl - delay) (c_now s) rs"
    "active_between ext hist key (c_now s - local_ttl - redis_ttl - delay) (c_now s) rs"
    using ttl by (auto elim: active_between_mono)
  with fresh_write [OF e now] entry p key f show ?thesis by (simp add: fresh_def Let_def)
qed auto

lemma fresh_step:
  assumes f: "fresh ext conv hist key local_ttl redis_ttl delay s" and ttl: "0 \<le> local_ttl" "0 \<le> redis_ttl" "0 \<le> delay"
    and conv: "conversions_ok ext conv" and step: "cache_step ext conv hist delay s s'"
  shows "fresh ext conv hist key local_ttl redis_ttl delay s'"
  using step
proof cases
  case (tick t)
  with f show ?thesis by (auto simp: fresh_def Let_def intro: entry_fresh_mono copy_fresh_mono)
next
  case (answer t redis_up database_up p rs w entry redis_up')
  with fresh_answer [OF f ttl conv answer(2-5)] show ?thesis by simp
next
  case (refuse t redis_up database_up p e w)
  from refuse(4) have "p = c_provider s \<or> p = (c_provider s)\<lparr>p_cached := None\<rparr>"
    by (cases rule: get_active_cases [of "c_provider s" "c_now s" ext conv "c_now s"
      "redis_get redis_up (c_now s) (c_entry s)"
      "query_latest ext database_up (hist t) (p_key (c_provider s))"]) (auto split: if_splits)
  with f refuse(1) show ?thesis by (auto simp: fresh_def Let_def)
next
  case (publish t rs up)
  with f have "active_between ext hist key (c_now s - delay) (c_now s) rs"
    by (auto simp: fresh_def Let_def active_between_def)
  with f publish show ?thesis by (auto simp: fresh_def Let_def intro: fresh_write)
next
  case lose
  with f show ?thesis by (auto simp: fresh_def Let_def)
qed


section \<open>Examples\<close>

definition example_conversions :: conversions where
  "example_conversions =
     \<lparr>isoformat = (\<lambda>t. (if t < 0 then CHR ''-'' else CHR ''+'') # show_nat (nat \<bar>t\<bar>)),
      fromisoformat = (\<lambda>s. Some ((if hd s = CHR ''-'' then - 1 else 1) * int (read_nat (tl s)))),
      to_int = json_int\<rparr>"

lemma example_conversions_ok: "conversions_ok example_externals example_conversions"
  by (simp add: conversions_ok_def example_conversions_def example_externals_def read_show_nat)

definition example_rule_set :: rule_set where
  "example_rule_set =
     \<lparr>rs_key = ''fraud-default'', rs_version = 1, rs_definition = default_definition,
      rs_content_hash = example_hash, rs_description = ''Initial'', rs_created_by = ''migration'',
      rs_created_at = 0\<rparr>"

lemma default_dry_run: "\<exists>a. dry_run default_definition = Inr a"
  using default_parses by (simp add: parse_accepts)

theorem cache_entry_roundtrip_witness:
  "deserialise example_externals example_conversions (serialise example_conversions example_rule_set) =
     Inr (Some example_rule_set)"
  by (rule cache_entry_roundtrip [OF _ _ _ example_conversions_ok])
    (simp_all add: example_rule_set_def default_valid default_dry_run example_hash)

lemma example_latest: "\<exists>rs. get_latest_rule_set example_externals example_version_table ''fraud-default'' = Inr rs"
proof -
  obtain rs where rs: "create_rule_set_version example_externals 0 [] ''fraud-default'' default_definition
      example_hash ''Initial'' ''migration'' (Some 0) = (example_version_table, Inr rs)"
    using example_published by blast
  from create_Inr [OF rs] have "rule_set_from_record example_externals (new_record example_externals 0 ''fraud-default''
      default_definition example_hash ''Initial'' ''migration'' 0) = Inr rs"
    and t: "example_version_table = [new_record example_externals 0 ''fraud-default''
      default_definition example_hash ''Initial'' ''migration'' 0]"
    by (auto simp: current_version_def dest!: insert_version_Inr)
  then show ?thesis by (simp add: get_latest_rule_set_def versions_of_def t) (simp add: new_record_def)
qed



end
