(* ===== verification/Processing.thy ===== *)
theory Processing
  imports Event_Facts Rule_Cache_Facts
begin

text \<open>
  Scoring a message (\<open>app/processing.py\<close>): \<open>score_transaction\<close> and \<open>TransactionProcessor.process\<close>. The
  source of the active rule set is any function that meets the contract \<open>active_rule_set_source\<close>. The
  database is the tables of \<open>Transactions\<close>; it can fail with an exception before a statement, or after
  the commit of the decision when the connection breaks then.
\<close>

section \<open>Enrichment as a dictionary\<close>

definition entry_of :: "string \<Rightarrow> ('a \<Rightarrow> json) \<Rightarrow> 'a option \<Rightarrow> (string \<times> json) list" where
  "entry_of name f v = (case v of None \<Rightarrow> [] | Some x \<Rightarrow> [(name, f x)])"

text \<open>\<open>model_dump(exclude_none=True)\<close>, with \<open>mode="json"\<close> when decimals become text.\<close>

definition dump_enrichment :: "(decimal \<Rightarrow> json) \<Rightarrow> enrichment \<Rightarrow> (string \<times> json) list" where
  "dump_enrichment number e =
     entry_of ''distance_from_last_tx_km'' number (en_distance_from_last_tx_km e) @
     entry_of ''minutes_since_last_tx'' JInt (en_minutes_since_last_tx e) @
     entry_of ''user_historical_avg_spend'' number (en_user_historical_avg_spend e) @
     entry_of ''is_new_merchant_for_user'' JBool (en_is_new_merchant_for_user e) @
     entry_of ''is_travel_itinerary_active'' JBool (en_is_travel_itinerary_active e)"

text \<open>\<open>str\<close> of a \<open>Decimal\<close>: plain notation unless the exponent is positive or very small.\<close>

definition show_decimal :: "decimal \<Rightarrow> string" where
  "show_decimal d =
     (let digits = show_nat (nat \<bar>coeff d\<bar>);
          left = expo d + int (length digits);
          dot = (if expo d \<le> 0 \<and> left > - 6 then left else 1);
          body = (if dot \<le> 0 then ''0.'' @ replicate (nat (- dot)) CHR ''0'' @ digits
                  else if int (length digits) \<le> dot
                  then digits @ replicate (nat dot - length digits) CHR ''0''
                  else take (nat dot) digits @ ''.'' @ drop (nat dot) digits);
          exponent = (if left = dot then []
                      else CHR ''E'' # (if 0 \<le> left - dot then ''+'' else []) @ show_int (left - dot))
      in (if coeff d < 0 then ''-'' else []) @ body @ exponent)"

text \<open>\<open>str\<close> of a \<open>UUID\<close>: 32 hexadecimal digits in five groups.\<close>

definition show_uuid :: "uuid \<Rightarrow> string" where
  "show_uuid u =
     (let digits = map (\<lambda>i. hex_digit (u div 16 ^ i mod 16)) (rev [0..<32])
      in join ''-'' [take 8 digits, take 4 (drop 8 digits), take 4 (drop 12 digits), take 4 (drop 16 digits), drop 20 digits])"

section \<open>Scoring one transaction\<close>

record score_request =
  rq_transaction_id :: "uuid option"
  rq_user_id :: uuid
  rq_occurred_at :: int
  rq_amount :: decimal
  rq_currency :: string
  rq_category :: string
  rq_channel :: "string option"
  rq_country :: "string option"
  rq_enrichment :: "(string \<times> json) list option"

record score =
  sc_assessment :: assessment
  sc_prior_count :: int
  sc_prior_amount :: decimal

datatype scoring_error = WindowOverflow | VelocityFailed py_exception | EvaluationFailed eval_error

definition window_start :: "rule_set \<Rightarrow> int \<Rightarrow> int" where
  "window_start rs occurred_at = occurred_at - 1000000 * velocity_window_seconds (rs_definition rs)"

definition velocity_context :: "tx_tables \<Rightarrow> rule_set \<Rightarrow> score_request \<Rightarrow> int \<times> decimal" where
  "velocity_context db rs rq =
     get_velocity_aggregates db (rq_user_id rq) (window_start rs (rq_occurred_at rq)) (rq_occurred_at rq)
       (case rq_transaction_id rq of None \<Rightarrow> 0 | Some i \<Rightarrow> i) (rq_currency rq)"

definition context_of :: "score_request \<Rightarrow> int \<times> decimal \<Rightarrow> evaluation_context" where
  "context_of rq = (\<lambda>(prior_count, prior_amount).
     \<lparr>ctx_amount = rq_amount rq, ctx_currency = rq_currency rq, ctx_category = rq_category rq,
      ctx_prior_count = prior_count, ctx_prior_amount = prior_amount,
      ctx_channel = rq_channel rq, ctx_country = rq_country rq,
      ctx_enrichment = (case rq_enrichment rq of None \<Rightarrow> [] | Some kvs \<Rightarrow> kvs)\<rparr>)"

definition score_transaction ::
    "py_exception option \<Rightarrow> tx_tables \<Rightarrow> rule_set \<Rightarrow> score_request \<Rightarrow> scoring_error + score" where
  "score_transaction outage db rs rq =
     (if window_start rs (rq_occurred_at rq) < MIN_DATETIME then Inl WindowOverflow
      else
        case outage of
          Some x \<Rightarrow> Inl (VelocityFailed x)
        | None \<Rightarrow>
            (let prior = velocity_context db rs rq
             in case evaluate_rule_set (rs_definition rs) (context_of rq prior) of
                  Inl e \<Rightarrow> Inl (EvaluationFailed e)
                | Inr a \<Rightarrow> Inr \<lparr>sc_assessment = a, sc_prior_count = fst prior, sc_prior_amount = snd prior\<rparr>))"

section \<open>Processing a message\<close>

definition request_of :: "transaction_created \<Rightarrow> score_request" where
  "request_of ev =
     \<lparr>rq_transaction_id = Some (ev_transaction_id ev), rq_user_id = ev_user_id ev,
      rq_occurred_at = ev_occurred_at ev, rq_amount = ev_amount ev, rq_currency = ev_currency ev,
      rq_category = ev_category ev, rq_channel = ev_channel ev, rq_country = ev_country ev,
      rq_enrichment = map_option (dump_enrichment JDec) (ev_enrichment ev)\<rparr>"

definition decision_of :: "transaction_created \<Rightarrow> rule_set \<Rightarrow> assessment \<Rightarrow> transaction_decision" where
  "decision_of ev rs a =
     \<lparr>td_transaction_id = ev_transaction_id ev, td_user_id = ev_user_id ev, td_amount = ev_amount ev,
      td_currency = ev_currency ev, td_category = ev_category ev, td_occurred_at = ev_occurred_at ev,
      td_risk_score = risk_score a, td_verdict = verdict_value (assessed_verdict a),
      td_is_fraud = is_fraud a, td_triggered_rules = triggered_rules a,
      td_rules_version = rule_set_label rs, td_rules_hash = rs_content_hash rs,
      td_correlation_id = ev_correlation_id ev, td_channel = ev_channel ev, td_country = ev_country ev,
      td_enrichment = map_option (dump_enrichment (\<lambda>d. JStr (show_decimal d))) (ev_enrichment ev)\<rparr>"

text \<open>
  What the message meets: the time, and an exception of the database when reading the velocity or when
  recording the decision; the latter with a flag that tells whether the commit took effect.
\<close>

record conditions =
  c_time :: int
  c_velocity_outage :: "py_exception option"
  c_record_outage :: "(bool \<times> py_exception) option"

datatype 'e process_error =
    BadEvent event_error
  | NoRuleSet 'e
  | ScoringFailed scoring_error
  | RecordFailed db_error
  | DatabaseFailed py_exception

definition record_step ::
    "conditions \<Rightarrow> tx_tables \<Rightarrow> transaction_decision \<Rightarrow> message_provenance \<Rightarrow>
     tx_tables \<times> ('e process_error + record_result)" where
  "record_step c db d p =
     (case c_record_outage c of
        Some (committed, x) \<Rightarrow>
          ((if committed then fst (record_decision (c_time c) db d p) else db), Inl (DatabaseFailed x))
      | None \<Rightarrow>
          (case record_decision (c_time c) db d p of
             (db', Inl e) \<Rightarrow> (db', Inl (RecordFailed e))
           | (db', Inr r) \<Rightarrow> (db', Inr r)))"

definition process ::
    "event_externals \<Rightarrow> ('s \<Rightarrow> 's \<times> ('e + rule_set)) \<Rightarrow> conditions \<Rightarrow> string option \<Rightarrow> message_provenance \<Rightarrow>
     's \<times> tx_tables \<Rightarrow> ('s \<times> tx_tables) \<times> ('e process_error + record_result)" where
  "process px active c payload p = (\<lambda>(s, db).
     case parse_transaction_event px payload of
       Inl e \<Rightarrow> ((s, db), Inl (BadEvent e))
     | Inr ev \<Rightarrow>
         (case active s of
            (s', Inl e) \<Rightarrow> ((s', db), Inl (NoRuleSet e))
          | (s', Inr rs) \<Rightarrow>
              (case score_transaction (c_velocity_outage c) db rs (request_of ev) of
                 Inl e \<Rightarrow> ((s', db), Inl (ScoringFailed e))
               | Inr sc \<Rightarrow>
                   (let (db', r) = record_step c db (decision_of ev rs (sc_assessment sc)) p
                    in ((s', db'), r)))))"

section \<open>The exceptions the worker sees\<close>

fun event_exception :: "event_error \<Rightarrow> py_exception" where
  "event_exception EmptyPayload = own_error InvalidEvent ''InvalidEventError'' ''Event payload is empty'' []"
| "event_exception OversizedPayload =
     own_error InvalidEvent ''InvalidEventError'' (''Event payload exceeds '' @ show_nat MAX_EVENT_BYTES @ '' bytes'') []"
| "event_exception PayloadNotJson = own_error InvalidEvent ''InvalidEventError'' ''Event payload is not valid JSON'' []"
| "event_exception NotAnObject =
     own_error InvalidEvent ''InvalidEventError'' ''Event payload must be a JSON object'' []"
| "event_exception (FailedValidation es) =
     own_error InvalidEvent ''InvalidEventError'' ''Event failed schema validation''
       (map (\<lambda>(loc, _). (if loc = [] then ''event'' else join ''.'' loc, ''invalid'')) es)"
| "event_exception UnsupportedVersion =
     own_error UnsupportedSchemaVersion ''UnsupportedSchemaVersionError'' ''Unsupported event schema version''
       [(''schema_version'', ''supported versions: [1]'')]"
| "event_exception LoadsCrashed = plain_exception [OtherClass ''ValueError''] ''ValueError'' ''''"
| "event_exception UnhashableVersion = plain_exception [OtherClass ''TypeError''] ''TypeError'' ''unhashable type''"
| "event_exception TimezoneOverflow = plain_exception [OtherClass ''OverflowError''] ''OverflowError'' ''date value out of range''"

fun load_exception :: "load_error \<Rightarrow> py_exception" where
  "load_exception (LoadFailed (CorruptRuleSetError c)) =
     own_error CorruptRuleSet ''CorruptRuleSetError'' (''Stored rule set '' @ fst c @ '' is not usable'') []"
| "load_exception (LoadFailed RuleSetNotFoundError) =
     own_error RuleSetNotFound ''RuleSetNotFoundError'' ''No rule set exists'' []"
| "load_exception (LoadFailed RuleSetVersionConflictError) =
     own_error RuleSetVersionConflict ''RuleSetVersionConflictError'' '''' []"
| "load_exception (LoadFailed StoreValueError) = plain_exception [OtherClass ''ValueError''] ''ValueError'' ''''"
| "load_exception (LoadFailed StoreDataError) = plain_exception [DBAPIError, OtherClass ''DataError''] ''DataError'' ''''"
| "load_exception DatabaseUnavailable = plain_exception [PyConnectionError, PyOSError] ''ConnectionRefusedError'' ''''"

fun scoring_exception :: "scoring_error \<Rightarrow> py_exception" where
  "scoring_exception WindowOverflow =
     plain_exception [OtherClass ''OverflowError''] ''OverflowError'' ''date value out of range''"
| "scoring_exception (VelocityFailed x) = x"
| "scoring_exception (EvaluationFailed (RuleEvaluationError r)) =
     own_error RuleEvaluation ''RuleEvaluationError'' ''Rule could not be evaluated'' []"
| "scoring_exception (EvaluationFailed e) = plain_exception [OtherClass ''Exception''] ''Exception'' ''''"

fun record_exception :: "db_error \<Rightarrow> py_exception" where
  "record_exception ConflictingDuplicateError =
     own_error ConflictingDuplicate ''ConflictingDuplicateError''
       ''transaction_id already recorded with different user, amount, currency, category or occurred_at'' []"
| "record_exception DataError = plain_exception [DBAPIError, OtherClass ''DataError''] ''DataError'' ''''"
| "record_exception IntegrityError = plain_exception [DBAPIError, OtherClass ''IntegrityError''] ''IntegrityError'' ''''"
| "record_exception ValueError = plain_exception [OtherClass ''ValueError''] ''ValueError'' ''''"

definition process_exception :: "('e \<Rightarrow> py_exception) \<Rightarrow> 'e process_error \<Rightarrow> py_exception" where
  "process_exception source_exception e =
     (case e of
        BadEvent x \<Rightarrow> event_exception x
      | NoRuleSet x \<Rightarrow> source_exception x
      | ScoringFailed x \<Rightarrow> scoring_exception x
      | RecordFailed x \<Rightarrow> record_exception x
      | DatabaseFailed x \<Rightarrow> x)"

end
