(* ===== verification/Processing_Facts.thy ===== *)
theory Processing_Facts
  imports Processing
begin

text \<open>
  The guarantees of processing a message: the decision that is stored is the one the active rules give
  for the event and its velocity, it fits its columns, handling the message again changes nothing, and
  every failure is classified by whether the message or a dependency is at fault.
\<close>

section \<open>From event to context and row\<close>

lemma entry_of_features:
  "(\<And>x. v = Some x \<Longrightarrow> feature_ok name (f x)) \<Longrightarrow> list_all (\<lambda>(n, j). feature_ok n j) (entry_of name f v)"
  by (auto simp: entry_of_def split: option.splits)

lemma enrichment_features: "list_all (\<lambda>(n, j). feature_ok n j) (dump_enrichment JDec e)"
  unfolding dump_enrichment_def list_all_append
  by (intro conjI entry_of_features) (simp_all add: feature_ok_def)

lemma request_context_ok: "context_ok (context_of (request_of ev) prior)"
  by (auto simp: context_ok_def context_of_def request_of_def enrichment_features split: option.splits prod.splits)

lemma decision_row:
  assumes ev: "event_ok ev" and d: "valid_definition (rs_definition rs)"
    and a: "evaluate_rule_set (rs_definition rs) c = Inr a"
    and label: "length (rule_set_label rs) \<le> 128" "length (rs_content_hash rs) \<le> 64"
  shows "\<exists>row. transaction_row now (decision_of ev rs a) = Inr row"
proof -
  from ev have "decimal_places_ok 2 (ev_amount ev)" "whole_digits_ok 16 (ev_amount ev)" and pos: "0 < coeff (ev_amount ev)"
    by (auto simp: event_ok_def decimal_ok_def)
  from money_exact [OF this(1,2)] obtain x where x: "numeric_18_2 (ev_amount ev) = Some (Dec x (- 2))"
    "dec_val (Dec x (- 2)) = dec_val (ev_amount ev)" by blast
  from pos have "0 < dec_val (ev_amount ev)" by (simp add: dec_val_def)
  with x(2) have "0 < dec_val (Dec x (- 2))" by simp
  then have "0 < x" by (simp add: dec_val_Dec zero_less_mult_iff power_int_minus)
  from a obtain vars where "as_variables c = Inr vars" by (auto simp: evaluate_rule_set_Inr)
  from a have score: "risk_score a = sum_list (map (\<lambda>(code, s, cond). s) (filter (fires vars) (compiled (rs_definition rs))))"
    if "as_variables c = Inr vars" for vars using that by (auto simp: evaluate_rule_set_Inr)
  have "0 \<le> risk_score a" "risk_score a \<le> 50000"
    using score_bounds [OF d] score [OF \<open>as_variables c = Inr vars\<close>] by auto
  with ev x(1) \<open>0 < x\<close> label show ?thesis
    by (cases "assessed_verdict a")
      (auto simp: transaction_row_Inr decision_of_def event_ok_def letters_ok_def category_ok_def channel_ok_def
        correlation_ok_def option_ok_def fits_def int32_def is_fraud_def split: option.splits)
qed

lemma decision_amount:
  assumes "event_ok ev" "numeric_18_2 (ev_amount ev) = Some x"
  shows "dec_val x = dec_val (ev_amount ev)"
  using money_exact [of "ev_amount ev"] assms by (auto simp: event_ok_def decimal_ok_def)

section \<open>The steps of a run\<close>

lemma process_cases:
  fixes active :: "'s \<Rightarrow> 's \<times> ('e + rule_set)"
  obtains (bad_event) e where "parse_transaction_event px payload = Inl e"
      "process px active c payload p (s, db) = ((s, db), Inl (BadEvent e))"
  | (no_rules) ev s' e where "parse_transaction_event px payload = Inr ev" "active s = (s', Inl e)"
      "process px active c payload p (s, db) = ((s', db), Inl (NoRuleSet e))"
  | (not_scored) ev s' rs e where "parse_transaction_event px payload = Inr ev" "active s = (s', Inr rs)"
      "score_transaction (c_velocity_outage c) db rs (request_of ev) = Inl e"
      "process px active c payload p (s, db) = ((s', db), Inl (ScoringFailed e))"
  | (scored) ev s' rs sc db' r where "parse_transaction_event px payload = Inr ev" "active s = (s', Inr rs)"
      "score_transaction (c_velocity_outage c) db rs (request_of ev) = Inr sc"
      "record_step c db (decision_of ev rs (sc_assessment sc)) p = (db', r)"
      "process px active c payload p (s, db) = ((s', db'), r)"
proof (cases "parse_transaction_event px payload")
  case (Inl e)
  with bad_event show ?thesis by (simp add: process_def)
next
  case (Inr ev)
  obtain s' m where m: "active s = (s', m)" by (cases "active s")
  show ?thesis
  proof (cases m)
    case (Inl e)
    with Inr m no_rules show ?thesis by (simp add: process_def)
  next
    case rs: (Inr rs)
    show ?thesis
    proof (cases "score_transaction (c_velocity_outage c) db rs (request_of ev)")
      case (Inl e)
      with Inr m rs not_scored show ?thesis by (simp add: process_def)
    next
      case sc: (Inr sc)
      obtain db' and r :: "'e process_error + record_result" where
        "record_step c db (decision_of ev rs (sc_assessment sc)) p = (db', r)"
        by (rule prod.exhaust)
      with Inr m rs sc scored show ?thesis by (simp add: process_def)
    qed
  qed
qed

lemma score_transaction_Inr:
  "score_transaction outage db rs rq = Inr sc \<longleftrightarrow>
     outage = None \<and> MIN_DATETIME \<le> window_start rs (rq_occurred_at rq) \<and>
     (\<exists>a. evaluate_rule_set (rs_definition rs) (context_of rq (velocity_context db rs rq)) = Inr a \<and>
        sc = \<lparr>sc_assessment = a, sc_prior_count = fst (velocity_context db rs rq),
              sc_prior_amount = snd (velocity_context db rs rq)\<rparr>)"
  by (auto simp: score_transaction_def Let_def split: option.splits sum.splits)

lemma score_transaction_Inl:
  "score_transaction outage db rs rq = Inl e \<longleftrightarrow>
     (if window_start rs (rq_occurred_at rq) < MIN_DATETIME then e = WindowOverflow
      else case outage of Some x \<Rightarrow> e = VelocityFailed x
           | None \<Rightarrow> \<exists>x. evaluate_rule_set (rs_definition rs) (context_of rq (velocity_context db rs rq)) = Inl x \<and>
               e = EvaluationFailed x)"
  by (auto simp: score_transaction_def Let_def split: option.splits sum.splits)

lemma record_step_Inr:
  "record_step c db d p = (db', Inr res) \<longleftrightarrow> c_record_outage c = None \<and> record_decision (c_time c) db d p = (db', Inr res)"
  by (auto simp: record_step_def split: option.splits prod.splits sum.splits)

lemma record_step_tables:
  "record_step c db d p = (db', r) \<Longrightarrow> db' = db \<or> db' = fst (record_decision (c_time c) db d p)"
  by (auto simp: record_step_def split: option.splits prod.splits sum.splits if_splits)

lemma parsed_event_ok: "parse_transaction_event px payload = Inr ev \<Longrightarrow> event_ok ev"
  by (auto simp: parse_Inr dest: check_event_ok)


section \<open>The decision\<close>

text \<open>What the active rules decide about an event, given the velocity the tables show.\<close>

definition decides :: "tx_tables \<Rightarrow> rule_set \<Rightarrow> transaction_created \<Rightarrow> transaction_decision \<Rightarrow> bool" where
  "decides db rs ev d \<longleftrightarrow>
     (\<exists>vars. as_variables (context_of (request_of ev) (velocity_context db rs (request_of ev))) = Inr vars \<and>
        (let fired = filter (fires vars) (compiled (rs_definition rs));
             score = sum_list (map (\<lambda>(code, s, cond). s) fired)
         in td_triggered_rules d = map fst fired \<and> td_risk_score d = score \<and>
            td_verdict d = (if reject_threshold (rs_definition rs) \<le> score then ''REJECTED''
                            else if review_threshold (rs_definition rs) \<le> score then ''REVIEW'' else ''APPROVED'') \<and>
            td_is_fraud d = (review_threshold (rs_definition rs) \<le> score)) \<and>
        td_transaction_id d = ev_transaction_id ev \<and> td_user_id d = ev_user_id ev \<and>
        td_amount d = ev_amount ev \<and> td_currency d = ev_currency ev \<and> td_category d = ev_category ev \<and>
        td_occurred_at d = ev_occurred_at ev \<and> td_rules_version d = rule_set_label rs \<and>
        td_rules_hash d = rs_content_hash rs)"

lemma decision_of_decides:
  assumes "valid_definition (rs_definition rs)"
    and "evaluate_rule_set (rs_definition rs) (context_of (request_of ev) (velocity_context db rs (request_of ev))) = Inr a"
  shows "decides db rs ev (decision_of ev rs a)"
proof -
  from assms(2) obtain vars where
    "as_variables (context_of (request_of ev) (velocity_context db rs (request_of ev))) = Inr vars"
    "triggered_rules a = map fst (filter (fires vars) (compiled (rs_definition rs)))"
    "risk_score a = sum_list (map (\<lambda>(code, s, cond). s) (filter (fires vars) (compiled (rs_definition rs))))"
    "assessed_verdict a = verdict_for (rs_definition rs) (risk_score a)"
    by (auto simp: evaluate_rule_set_Inr)
  with assms(1) show ?thesis
    by (auto simp: decides_def Let_def decision_of_def is_fraud_def verdict_for_def valid_definition_def)
qed

context active_rule_set_source
begin

lemma evaluated_decides:
  assumes "source_ok s" "process px active c payload p (s, db) = ((s', db'), Inr res)"
  shows "\<exists>ev rs. parse_transaction_event px payload = Inr ev \<and> event_ok ev \<and>
    active s = (s', Inr rs) \<and> valid_definition (rs_definition rs) \<and>
    (rr_outcome res = EVALUATED \<longrightarrow>
       decides db rs ev (rr_decision res) \<and>
       (\<exists>r. get_transaction db' (ev_transaction_id ev) = Some r \<and>
          (\<exists>a. tr_decision r = (rr_decision res)\<lparr>td_amount := a\<rparr> \<and> dec_val a = dec_val (ev_amount ev))))"
  using assms(2)
proof (cases rule: process_cases [of px payload active c p s db])
  case (scored ev s'' rs sc db'' r)
  with assms(2) have eq: "s'' = s'" "db'' = db'" "r = Inr res" by auto
  have ok: "event_ok ev" by (rule parsed_event_ok [OF scored(1)])
  have valid: "valid_definition (rs_definition rs)" by (rule source_checked [OF assms(1) scored(2)])
  from scored(3) obtain a where a: "sc_assessment sc = a"
    "evaluate_rule_set (rs_definition rs) (context_of (request_of ev) (velocity_context db rs (request_of ev))) = Inr a"
    by (auto simp: score_transaction_Inr)
  have rec: "record_decision (c_time c) db (decision_of ev rs a) p = (db', Inr res)"
    using scored(4) by (simp add: eq a(1) record_step_Inr)
  have id: "td_transaction_id (decision_of ev rs a) = ev_transaction_id ev" by (simp add: decision_of_def)
  from record_decision_stored [OF rec] obtain r' where r': "get_transaction db' (ev_transaction_id ev) = Some r'"
    "rr_outcome res = EVALUATED \<Longrightarrow> rr_decision res = decision_of ev rs a"
    by (auto simp: id get_transaction_def)
  have "decides db rs ev (rr_decision res) \<and>
       (\<exists>r. get_transaction db' (ev_transaction_id ev) = Some r \<and>
          (\<exists>x. tr_decision r = (rr_decision res)\<lparr>td_amount := x\<rparr> \<and> dec_val x = dec_val (ev_amount ev)))"
    if ev: "rr_outcome res = EVALUATED"
    using rec
  proof (cases rule: record_decision_cases [of "c_time c" db "decision_of ev rs a" p])
    case (stored row db3)
    with rec have "db3 = db'" by simp
    with stored(4) have "transactions db' = transactions db @ [row]" by (auto dest: insert_history_Inr)
    with stored(2,3) have "get_transaction db' (ev_transaction_id ev) = Some row"
      by (simp add: get_transaction_def find_transaction_def find_append id transaction_row_id)
    with stored(3) r'(2) [OF ev] decision_of_decides [OF valid a(2)] decision_amount [OF ok] show ?thesis
      by (auto simp: transaction_row_Inr decision_of_def)
  qed (use ev rec in auto)
  with scored(1,2) ok valid show ?thesis by (auto simp: eq)
qed auto

end

text \<open>
  C2: processing a message end to end. When the worker evaluates a message, whatever it contains and
  whatever the caches and the database answer, the message is a well-formed event and the decision is
  the one the checked active rule set gives for it: exactly the rules that are true of the transaction
  and of its velocity in the tables fired, the score is the sum of theirs, verdict and fraud flag
  follow the thresholds, and the row stored for the transaction is this decision, with the amount
  exact, stamped with version and hash of the rule set.
\<close>

theorem message_decided:
  assumes "provider_ok pr"
    and "process px (provider_active ext conv) c payload p ((pr, ws), db) = ((src, db'), Inr res)"
  shows "\<exists>ev rs. parse_transaction_event px payload = Inr ev \<and> event_ok ev \<and>
    provider_active ext conv (pr, ws) = (src, Inr rs) \<and> valid_definition (rs_definition rs) \<and>
    (rr_outcome res = EVALUATED \<longrightarrow>
       decides db rs ev (rr_decision res) \<and>
       (\<exists>r. get_transaction db' (ev_transaction_id ev) = Some r \<and>
          (\<exists>a. tr_decision r = (rr_decision res)\<lparr>td_amount := a\<rparr> \<and> dec_val a = dec_val (ev_amount ev))))"
  using cached_source.evaluated_decides [OF _ assms(2)] assms(1) by simp

section \<open>Handling a message again\<close>

lemma same_event_decisions:
  assumes "event_ok ev" "record_decision now db (decision_of ev rs a) p = (db', Inr res)"
    and "find_transaction db' (ev_transaction_id ev) = Some r"
  shows "same_transaction (tr_decision r) (decision_of ev rs' a')"
proof -
  have id: "td_transaction_id (decision_of ev rs a) = ev_transaction_id ev" by (simp add: decision_of_def)
  have "same_transaction (tr_decision r) (decision_of ev rs a)"
    using assms(2)
  proof (cases rule: record_decision_cases [of now db "decision_of ev rs a" p])
    case (stored row db3)
    with assms(2) have "db3 = db'" by simp
    with stored(4) have "transactions db' = transactions db @ [row]" by (auto dest: insert_history_Inr)
    with stored(2,3) assms(3) have "r = row"
      by (simp add: find_transaction_def find_append id transaction_row_id)
    with stored(3) decision_amount [OF assms(1)] show ?thesis
      by (auto simp: transaction_row_Inr same_transaction_def decision_of_def dec_eq_iff)
  next
    case (repeated r' row db3)
    with assms(2) have "db3 = db'" by simp
    with repeated(5) have "transactions db' = transactions db" by (auto dest: insert_history_Inr)
    with repeated(2) assms(3) have "r = r'" by (simp add: find_transaction_def id)
    with repeated(4) show ?thesis by simp
  qed (use assms(2) in auto)
  then show ?thesis by (simp add: same_transaction_def decision_of_def)
qed

lemma recorded_again:
  assumes ok: "tables_ok db" and ev: "event_ok ev"
    and first: "record_decision now db (decision_of ev rs a) p = (db', Inr res)"
  shows "fst (record_decision now' db' (decision_of ev rs' a') p) = db' \<and>
    (\<forall>res'. snd (record_decision now' db' (decision_of ev rs' a') p) = Inr res' \<longrightarrow>
       rr_outcome res' = DUPLICATE \<and>
       map_option tr_decision (get_transaction db' (ev_transaction_id ev)) = Some (rr_decision res'))"
proof -
  have id: "td_transaction_id (decision_of ev rs a) = ev_transaction_id ev"
    "td_transaction_id (decision_of ev rs' a') = ev_transaction_id ev" by (simp_all add: decision_of_def)
  from record_decision_stored [OF first] obtain r where r: "find_transaction db' (ev_transaction_id ev) = Some r"
    by (auto simp: id)
  note same = same_event_decisions [OF ev first r, of rs' a']
  show ?thesis
  proof (cases "transaction_row now' (decision_of ev rs' a')")
    case (Inl e)
    then show ?thesis by (simp add: record_decision_def record_work_def)
  next
    case (Inr row)
    have "record_decision now' db' (decision_of ev rs' a') p =
        (db', Inr \<lparr>rr_outcome = DUPLICATE, rr_decision = tr_decision r\<rparr>)"
      using record_decision_again [OF ok first _ _ same Inr] r by (simp add: id get_transaction_def)
    with r show ?thesis by (simp add: get_transaction_def)
  qed
qed


text \<open>
  C4: processing is idempotent. Once handling a message returned, or had any effect on the tables even
  though the worker saw an exception (a connection lost while committing), handling it again, at any
  later time, with any other active rule set and any failure, changes nothing, and can only return the
  decision stored first, as a duplicate.
\<close>

theorem redelivered_message_harmless:
  assumes "tables_ok db"
    and "process px active c payload p (s, db) = ((s', db'), r)" "db' \<noteq> db \<or> (\<exists>res. r = Inr res)"
    and "process px active' c' payload p (s2, db') = ((s2', db2), r2)"
  shows "db2 = db' \<and>
    (\<forall>res. r2 = Inr res \<longrightarrow>
       rr_outcome res = DUPLICATE \<and>
       (\<exists>ev. parse_transaction_event px payload = Inr ev \<and>
          map_option tr_decision (get_transaction db' (ev_transaction_id ev)) = Some (rr_decision res)))"
proof -
  from assms(2,3) obtain ev rs a res where ev: "parse_transaction_event px payload = Inr ev"
    and first: "record_decision (c_time c) db (decision_of ev rs a) p = (db', Inr res)"
  proof (cases rule: process_cases [of px payload active c p s db])
    case (scored ev s'' rs sc db'' r')
    with assms(2) have eq: "db'' = db'" "r' = r" by auto
    have "\<exists>res. record_decision (c_time c) db (decision_of ev rs (sc_assessment sc)) p = (db', Inr res)"
      using scored(4) assms(3)
      by (cases rule: record_decision_cases [of "c_time c" db "decision_of ev rs (sc_assessment sc)" p])
        (auto simp: eq record_step_def split: option.splits prod.splits if_splits)
    with scored(1) that show ?thesis by blast
  qed (use assms(2,3) in auto)
  note ok = parsed_event_ok [OF ev]
  from assms(4) show ?thesis
  proof (cases rule: process_cases [of px payload active' c' p s2 db'])
    case (scored ev' s'' rs' sc db'' r')
    with assms(4) ev have eq: "db'' = db2" "r' = r2" "ev' = ev" by auto
    note again = recorded_again [OF assms(1) ok first, of "c_time c'" rs' "sc_assessment sc"]
    from record_step_tables [OF scored(4)] again have "db2 = db'" by (auto simp: eq)
    moreover have "\<exists>d. snd (record_decision (c_time c') db' (decision_of ev rs' (sc_assessment sc)) p) = Inr d \<and> d = res'"
      if "r2 = Inr res'" for res'
      using scored(4) that by (simp add: eq record_step_Inr)
    ultimately show ?thesis using again ev by fastforce
  qed (use assms(4) in auto)
qed

section \<open>Failures\<close>

definition describes :: "transaction_created \<Rightarrow> transaction_decision \<Rightarrow> bool" where
  "describes ev d \<longleftrightarrow>
     td_user_id d = ev_user_id ev \<and> dec_eq (td_amount d) (ev_amount ev) \<and> td_currency d = ev_currency ev \<and>
     td_category d = ev_category ev \<and> td_occurred_at d = ev_occurred_at ev"

lemma same_transaction_describes: "same_transaction d (decision_of ev rs a) \<longleftrightarrow> describes ev d"
  by (simp add: same_transaction_def describes_def decision_of_def)

lemma insert_history_Inl:
  assumes "numeric_18_2 (td_amount d) = Some x" "fits 128 c"
    and "insert_history (history_values now d p outcome c) db = Inl e"
  shows "e = DataError \<and> \<not> provenance_fits p"
  using assms by (auto simp: insert_history_def history_values_def provenance_fits_def split: if_splits)

lemma record_decision_errors:
  assumes ok: "tables_ok db" and ev: "event_ok ev" and d: "valid_definition (rs_definition rs)"
    and a: "evaluate_rule_set (rs_definition rs) c = Inr a"
    and err: "record_decision now db (decision_of ev rs a) p = (db', Inl e)"
  shows "db' = db \<and>
    (e = ConflictingDuplicateError \<and>
       (\<exists>r. get_transaction db (ev_transaction_id ev) = Some r \<and> \<not> describes ev (tr_decision r)) \<or>
     e = DataError \<and> (128 < length (rule_set_label rs) \<or> 64 < length (rs_content_hash rs) \<or> \<not> provenance_fits p))"
proof -
  let ?d = "decision_of ev rs a"
  have id: "td_transaction_id ?d = ev_transaction_id ev" by (simp add: decision_of_def)
  have c: "fits 128 (td_correlation_id ?d)"
    using ev by (auto simp: event_ok_def decision_of_def fits_def option_ok_def correlation_ok_def split: option.splits)
  from err have db: "db' = db" by (cases rule: record_decision_cases [of now db ?d p]) auto
  from err have work: "record_work now db ?d p = Inl e"
    by (auto simp: record_decision_def in_transaction_def split: sum.splits)
  show ?thesis
  proof (cases "transaction_row now ?d")
    case (Inr row)
    then obtain x where x: "numeric_18_2 (td_amount ?d) = Some x" by (auto simp: transaction_row_Inr)
    show ?thesis
    proof (cases "find_transaction db (ev_transaction_id ev)")
      case None
      with work Inr have "insert_history (history_values now ?d p EVALUATED (td_correlation_id ?d))
          (db\<lparr>transactions := transactions db @ [row]\<rparr>) = Inl e"
        by (simp add: record_work_def id)
      from insert_history_Inl [OF x c this] db show ?thesis by simp
    next
      case (Some r)
      show ?thesis
      proof (cases "describes ev (tr_decision r)")
        case True
        with work Inr Some have "insert_history (history_values now (tr_decision r) p DUPLICATE (td_correlation_id ?d)) db = Inl e"
          by (simp add: record_work_def id decision_from_record_def same_transaction_describes Let_def)
        from insert_history_Inl [OF tables_ok_amount [OF ok Some] c this] db show ?thesis by simp
      next
        case False
        with work Inr Some have "e = ConflictingDuplicateError"
          by (simp add: record_work_def id decision_from_record_def same_transaction_describes)
        with False Some db show ?thesis by (simp add: get_transaction_def)
      qed
    qed
  next
    case (Inl e')
    with decision_row [OF ev d a, of now] have long: "128 < length (rule_set_label rs) \<or> 64 < length (rs_content_hash rs)"
      by (metis not_less sum.distinct(1))
    from money_exact [of "ev_amount ev"] ev obtain x where "numeric_18_2 (ev_amount ev) = Some x"
      by (auto simp: event_ok_def decimal_ok_def)
    with long Inl have "e' = DataError" by (auto simp: transaction_row_def decision_of_def split: if_splits)
    with Inl work have "e = DataError" by (simp add: record_work_def)
    with long db show ?thesis by blast
  qed
qed


lemma event_failure_class:
  "classify_failure (event_exception e) =
     (if e \<in> {LoadsCrashed, UnhashableVersion, TimezoneOverflow} then UNEXPECTED else PERMANENT)"
  by (cases e)
    (simp_all add: own_errors_classified plain_exceptions_classified TRANSIENT_LIBRARY_ERRORS_def)

lemma load_failure_class:
  assumes "provider_ok pr" "provider_active ext conv (pr, ws) = (src, Inl e)"
  shows "classify_failure (load_exception e) = TRANSIENT"
proof (cases ws)
  case Nil
  with assms(2) have "e = DatabaseUnavailable" by simp
  then show ?thesis
    by (simp add: plain_exceptions_classified TRANSIENT_LIBRARY_ERRORS_def)
next
  case (Cons w ws')
  obtain now now' reply up t where w: "w = (now, now', reply, up, t)" by (cases w)
  obtain p' r x where g: "get_active ext conv now now' reply (query_latest ext up t (p_key pr)) pr = (p', r, x)"
    by (rule prod_cases3)
  with assms(2) have "r = Inl e" by (simp add: Cons w)
  with g have "query_latest ext up t (p_key pr) = Inl e"
    by (cases rule: get_active_cases [of pr now ext conv now' reply "query_latest ext up t (p_key pr)"])
      (auto split: if_splits)
  then have "e = DatabaseUnavailable \<or> e = LoadFailed RuleSetNotFoundError \<or> (\<exists>c. e = LoadFailed (CorruptRuleSetError c))"
    by (auto simp: query_latest_def get_latest_rule_set_def rule_set_from_record_def
        split: if_splits list.splits sum.splits)
  then show ?thesis
    by (auto simp: own_errors_classified plain_exceptions_classified TRANSIENT_LIBRARY_ERRORS_def)
qed

lemma scoring_failure_class:
  "\<not> (\<exists>x. e = VelocityFailed x) \<Longrightarrow> classify_failure (scoring_exception e) = UNEXPECTED"
  by (cases e rule: scoring_exception.cases)
    (simp_all add: own_errors_classified plain_exceptions_classified TRANSIENT_LIBRARY_ERRORS_def)

lemma record_failure_class:
  "classify_failure (record_exception e) = (if e = ConflictingDuplicateError then PERMANENT else UNEXPECTED)"
  by (cases e)
    (simp_all add: own_errors_classified plain_exceptions_classified TRANSIENT_LIBRARY_ERRORS_def)

text \<open>The failures of each kind, in terms of the message and its dependencies.\<close>

definition message_fault :: "event_externals \<Rightarrow> tx_tables \<Rightarrow> string option \<Rightarrow> bool" where
  "message_fault px db payload \<longleftrightarrow>
     (case parse_transaction_event px payload of
        Inl e \<Rightarrow> e \<notin> {LoadsCrashed, UnhashableVersion, TimezoneOverflow}
      | Inr ev \<Rightarrow> (case get_transaction db (ev_transaction_id ev) of
                     None \<Rightarrow> False | Some r \<Rightarrow> \<not> describes ev (tr_decision r)))"

definition dependency_fault :: "conditions \<Rightarrow> 's \<times> (load_error + rule_set) \<Rightarrow> bool" where
  "dependency_fault c answer \<longleftrightarrow>
     (\<exists>e. snd answer = Inl e) \<or> c_velocity_outage c \<noteq> None \<or> c_record_outage c \<noteq> None"

definition other_fault :: "event_externals \<Rightarrow> string option \<Rightarrow> message_provenance \<Rightarrow> 's \<times> (load_error + rule_set) \<Rightarrow> bool" where
  "other_fault px payload p answer \<longleftrightarrow>
     (case parse_transaction_event px payload of
        Inl e \<Rightarrow> e \<in> {LoadsCrashed, UnhashableVersion, TimezoneOverflow}
      | Inr ev \<Rightarrow>
          \<not> provenance_fits p \<or>
          (\<exists>rs. snd answer = Inr rs \<and>
             (window_start rs (ev_occurred_at ev) < MIN_DATETIME \<or>
              (\<exists>code op prior. evaluate_rule_set (rs_definition rs) (context_of (request_of ev) prior) =
                  Inl (RuleEvaluationError (InRule code (ArithmeticFailed op)))) \<or>
              128 < length (rule_set_label rs) \<or> 64 < length (rs_content_hash rs))))"

text \<open>Scoring fails because of the velocity query, or with a window before year 1 or an overflow.\<close>

lemma scoring_fault:
  assumes "score_transaction outage db rs (request_of ev) = Inl x" "valid_definition (rs_definition rs)"
    and "\<not> (\<exists>y. x = VelocityFailed y)"
  shows "window_start rs (ev_occurred_at ev) < MIN_DATETIME \<or>
    (\<exists>code op prior. evaluate_rule_set (rs_definition rs) (context_of (request_of ev) prior) =
       Inl (RuleEvaluationError (InRule code (ArithmeticFailed op))))"
proof -
  let ?prior = "velocity_context db rs (request_of ev)"
  have occ: "rq_occurred_at (request_of ev) = ev_occurred_at ev" by (simp add: request_of_def)
  show ?thesis
  proof (cases "evaluate_rule_set (rs_definition rs) (context_of (request_of ev) ?prior)")
    case (Inl y)
    with scoring_result [OF assms(2) request_context_ok [of ev ?prior]] show ?thesis
      by (elim disjE exE conjE) (simp, blast)
  next
    case (Inr a)
    with assms(1,3) show ?thesis by (auto simp: score_transaction_Inl occ split: if_splits option.splits)
  qed
qed

text \<open>The failures of a message that was read, with the rule set known.\<close>

lemma scoring_classified:
  assumes "parse_transaction_event px payload = Inr ev" "snd answer = Inr rs" "valid_definition (rs_definition rs)"
    and "score_transaction (c_velocity_outage c) db rs (request_of ev) = Inl x"
    and "\<And>x. c_velocity_outage c = Some x \<Longrightarrow> classify_failure x = TRANSIENT"
  shows "case classify_failure (process_exception load_exception (ScoringFailed x)) of
      PERMANENT \<Rightarrow> message_fault px db payload
    | TRANSIENT \<Rightarrow> dependency_fault c answer
    | UNEXPECTED \<Rightarrow> other_fault px payload p answer"
proof (cases "\<exists>y. x = VelocityFailed y")
  case True
  then obtain y where y: "x = VelocityFailed y" by blast
  with assms(4) have "c_velocity_outage c = Some y"
    by (auto simp: score_transaction_Inl split: if_splits option.splits)
  with assms(5) show ?thesis by (simp add: y process_exception_def dependency_fault_def)
next
  case False
  from scoring_fault [OF assms(4,3) this] show ?thesis
    using assms(1,2) scoring_failure_class [OF False] by (auto simp: process_exception_def other_fault_def)
qed

lemma recording_classified:
  assumes "tables_ok db" "parse_transaction_event px payload = Inr ev" "snd answer = Inr rs"
    and "valid_definition (rs_definition rs)" "score_transaction outage db rs (request_of ev) = Inr sc"
    and "record_decision (c_time c) db (decision_of ev rs (sc_assessment sc)) p = (db', Inl x)"
  shows "db' = db \<and>
    (case classify_failure (process_exception load_exception (RecordFailed x)) of
       PERMANENT \<Rightarrow> message_fault px db payload
     | TRANSIENT \<Rightarrow> dependency_fault c answer
     | UNEXPECTED \<Rightarrow> other_fault px payload p answer)"
proof -
  from assms(5) have "evaluate_rule_set (rs_definition rs) (context_of (request_of ev) (velocity_context db rs (request_of ev))) =
      Inr (sc_assessment sc)" by (auto simp: score_transaction_Inr)
  from record_decision_errors [OF assms(1) parsed_event_ok [OF assms(2)] assms(4) this assms(6)] assms(2,3)
  show ?thesis by (auto simp: process_exception_def record_failure_class message_fault_def other_fault_def)
qed


text \<open>
  A schema version that is a list or an object is looked up in a set before it is compared, which
  raises \<open>TypeError\<close>: the event is retried and logged as an unexpected error instead of being
  dead-lettered at once like every other unsupported version.
\<close>

theorem unhashable_version_retried:
  assumes "0 < length bytes" "length bytes \<le> MAX_EVENT_BYTES"
    and "json_loads px bytes = Some (Some (JDict [(''schema_version'', JList [])]))"
  shows "process px active c (Some bytes) p (s, db) = ((s, db), Inl (BadEvent UnhashableVersion)) \<and>
    classify_failure (process_exception f (BadEvent UnhashableVersion)) = UNEXPECTED"
  using assms
  by (simp add: process_def parse_transaction_event_def process_exception_def event_failure_class
      del: event_exception.simps)

end
