(* ===== verification/Processing_Examples.thy ===== *)
theory Processing_Examples
  imports Processing_Facts
begin

text \<open>
  A message processed with the default rule set, to show that the hypotheses of the theorems about
  processing can be met: a first delivery, its redelivery with the database failing after the commit,
  and a message that is not an event.
\<close>

definition example_document :: json where
  "example_document =
     JDict [(''schema_version'', JInt 1), (''event_type'', JStr ''TransactionCreated''),
            (''transaction_id'', JStr ''17''), (''user_id'', JStr ''4''), (''amount'', JDec (Dec 1500050 (- 2))),
            (''currency'', JStr '' zar''), (''category'', JStr ''Crypto''), (''occurred_at'', JStr ''1000''),
            (''channel'', JStr ''online''), (''merchant'', JStr ''x''),
            (''enrichment'', JDict [(''minutes_since_last_tx'', JInt 45), (''is_new_merchant_for_user'', JBool True)])]"

text \<open>A decoder that knows two texts, and conversions that read a number from a decimal text.\<close>

definition example_px :: event_externals where
  "example_px =
     \<lparr>json_loads = (\<lambda>s. if s = ''{}'' then Some (Some example_document) else Some None),
      to_uuid = (\<lambda>v. case v of JStr s \<Rightarrow> Some (read_nat s) | _ \<Rightarrow> None),
      to_finite_decimal = (\<lambda>v. case v of JDec d \<Rightarrow> Some d | JInt n \<Rightarrow> Some (Dec n 0) | _ \<Rightarrow> None),
      to_aware_datetime = (\<lambda>v. case v of JStr s \<Rightarrow> Some (int (read_nat s)) | _ \<Rightarrow> None),
      to_integer = (\<lambda>v. case v of JInt n \<Rightarrow> Some n | _ \<Rightarrow> None),
      to_bool = (\<lambda>v. case v of JBool b \<Rightarrow> Some b | _ \<Rightarrow> None),
      is_literal_1 = (\<lambda>v. v = JInt 1)\<rparr>"

definition cached_rule_set :: rule_set where
  "cached_rule_set =
     \<lparr>rs_key = ''fraud-default'', rs_version = 1, rs_definition = default_definition,
      rs_content_hash = ''00'', rs_description = ''Initial'', rs_created_by = ''migration'', rs_created_at = 0\<rparr>"

definition example_provider :: provider where
  "example_provider =
     (new_provider ''fraud-default'' 5 60)\<lparr>p_cached := Some cached_rule_set\<rparr>"

lemma example_provider_ok: "provider_ok example_provider"
  by (simp add: provider_ok_def example_provider_def new_provider_def cached_rule_set_def default_valid)

text \<open>A request that finds Redis and the database down; the in-process copy is two seconds old.\<close>

definition example_world :: request_world where
  "example_world = (2, 2, RedisFailed, False, [])"

definition calm :: conditions where
  "calm = \<lparr>c_time = 7, c_velocity_outage = None, c_record_outage = None\<rparr>"

definition lost_commit :: conditions where
  "lost_commit = \<lparr>c_time = 9, c_velocity_outage = None,
     c_record_outage = Some (True, plain_exception [PyConnectionError, PyOSError] ''ConnectionResetError'' '''')\<rparr>"

definition example_run ::
    "conditions \<Rightarrow> string \<Rightarrow> tx_tables \<Rightarrow>
     ((provider \<times> request_world list) \<times> tx_tables) \<times> (load_error process_error + record_result)" where
  "example_run c payload db =
     process example_px (provider_active example_externals example_conversions) c (Some payload) example_provenance
       ((example_provider, [example_world]), db)"

lemma example_first:
  obtains src db res where "example_run calm ''{}'' no_rows = ((src, db), Inr res)"
    "rr_outcome res = EVALUATED" "td_risk_score (rr_decision res) = 90"
    "td_verdict (rr_decision res) = ''REJECTED''"
proof -
  have "case snd (example_run calm ''{}'' no_rows) of
      Inr res \<Rightarrow> rr_outcome res = EVALUATED \<and> td_risk_score (rr_decision res) = 90 \<and>
        td_verdict (rr_decision res) = ''REJECTED''
    | Inl _ \<Rightarrow> False"
    by code_simp
  then show ?thesis
    using that by (cases "example_run calm ''{}'' no_rows") (auto split: sum.splits)
qed

theorem message_decided_witness:
  "\<exists>src db res ev rs. example_run calm ''{}'' no_rows = ((src, db), Inr res) \<and> event_ok ev \<and>
     decides no_rows rs ev (rr_decision res) \<and> td_verdict (rr_decision res) = ''REJECTED''"
proof -
  obtain src db res where run: "example_run calm ''{}'' no_rows = ((src, db), Inr res)"
    and res: "rr_outcome res = EVALUATED" "td_verdict (rr_decision res) = ''REJECTED''"
    by (rule example_first)
  from message_decided [OF example_provider_ok run [unfolded example_run_def]] run res show ?thesis by blast
qed

text \<open>The first delivery, then the same message again while the connection is lost in the commit.\<close>

theorem redelivered_message_witness:
  "\<exists>src db res. example_run calm ''{}'' no_rows = ((src, db), Inr res) \<and>
     snd (fst (example_run lost_commit ''{}'' db)) = db"
proof -
  obtain src db res where run: "example_run calm ''{}'' no_rows = ((src, db), Inr res)"
    by (rule example_first)
  obtain src2 db2 r2 where again: "example_run lost_commit ''{}'' db = ((src2, db2), r2)"
    by (metis prod.exhaust)
  from redelivered_message_harmless [OF no_rows_ok run [unfolded example_run_def] _ again [unfolded example_run_def]]
  show ?thesis using run again by auto
qed


end
