(* ===== verification/Worker_Services.thy ===== *)
theory Worker_Services
  imports Handling_Facts Processing_Examples
begin

text \<open>
  The retry loop on the real services: the transaction processor with its rule-set provider and tables,
  and the dead-letter publisher. A \<open>world\<close> holds their state together with what the environment will
  do: the conditions of the coming attempts, the deliveries of the coming letters, the requests to
  stop and the random numbers. The interpretation of \<open>message_services\<close> shows that a message reported
  as handled is stored or dead-lettered.
\<close>

section \<open>The world\<close>

record world =
  wd_source :: "provider \<times> request_world list"
  wd_tables :: tx_tables
  wd_dlq :: "kafka_record list"
  wd_correlation :: "string option"
  wd_clock :: rat
  wd_conditions :: "conditions list"
  wd_deliveries :: "(string \<times> broker_reply) list"
  wd_stops :: "bool list"
  wd_jitter :: "rat list"

definition next_of :: "'a \<Rightarrow> 'a list \<Rightarrow> 'a" where
  "next_of fallback xs = (case xs of [] \<Rightarrow> fallback | x # _ \<Rightarrow> x)"

text \<open>\<open>bind_correlation_id(event.correlation_id or str(event.transaction_id))\<close>\<close>

definition bound_correlation :: "event_externals \<Rightarrow> string option \<Rightarrow> string option \<Rightarrow> string option" where
  "bound_correlation px payload before =
     (case parse_transaction_event px payload of
        Inl _ \<Rightarrow> before
      | Inr ev \<Rightarrow> Some (case ev_correlation_id ev of None \<Rightarrow> show_uuid (ev_transaction_id ev) | Some c \<Rightarrow> c))"

definition worker_process ::
    "event_externals \<Rightarrow> externals \<Rightarrow> conversions \<Rightarrow> string option \<Rightarrow> message_provenance \<Rightarrow> world \<Rightarrow>
     world \<times> (py_exception + record_result)" where
  "worker_process px ext conv payload p w =
     (let ((src, db), r) =
            process px (provider_active ext conv)
              (next_of \<lparr>c_time = 0, c_velocity_outage = None, c_record_outage = None\<rparr> (wd_conditions w))
              payload p (wd_source w, wd_tables w)
      in (w\<lparr>wd_source := src, wd_tables := db, wd_conditions := tl (wd_conditions w),
            wd_correlation := bound_correlation px payload (wd_correlation w), wd_stops := tl (wd_stops w)\<rparr>,
          case r of Inl e \<Rightarrow> Inl (process_exception load_exception e) | Inr res \<Rightarrow> Inr res))"

definition worker_publish :: "string \<Rightarrow> dead_letter \<Rightarrow> world \<Rightarrow> world \<times> (py_exception + unit)" where
  "worker_publish dlq_topic l w =
     (let (failed_at, d) = next_of ('''', Acknowledged) (wd_deliveries w);
          (records, r) = publish_letter dlq_topic failed_at d l (wd_dlq w)
      in (w\<lparr>wd_dlq := records, wd_deliveries := tl (wd_deliveries w), wd_stops := tl (wd_stops w)\<rparr>, r))"

definition worker_operations ::
    "event_externals \<Rightarrow> externals \<Rightarrow> conversions \<Rightarrow> string \<Rightarrow> world operations" where
  "worker_operations px ext conv dlq_topic =
     \<lparr>op_process = worker_process px ext conv, op_publish = worker_publish dlq_topic,
      op_stopping = (\<lambda>w. next_of False (wd_stops w)), op_clock = wd_clock,
      op_jitter = (\<lambda>w. next_of 1 (wd_jitter w)), op_correlation = wd_correlation,
      op_clear_context = (\<lambda>w. w\<lparr>wd_correlation := None\<rparr>),
      op_wait = (\<lambda>d w. w\<lparr>wd_clock := wd_clock w + d, wd_stops := tl (wd_stops w), wd_jitter := tl (wd_jitter w)\<rparr>)\<rparr>"

section \<open>What handled means\<close>

definition world_ok :: "world \<Rightarrow> bool" where
  "world_ok w \<longleftrightarrow> provider_ok (fst (wd_source w)) \<and> tables_ok (wd_tables w)"

text \<open>The decision about the message's transaction is stored, and the message has its audit row.\<close>

definition stored_and_audited :: "event_externals \<Rightarrow> kafka_message \<Rightarrow> world \<Rightarrow> record_result \<Rightarrow> bool" where
  "stored_and_audited px m w r \<longleftrightarrow>
     (\<exists>ev row. parse_transaction_event px (km_value m) = Inr ev \<and>
        get_transaction (wd_tables w) (ev_transaction_id ev) = Some row \<and> describes ev (tr_decision row) \<and>
        (km_topic m, km_partition m, km_offset m) \<in> history_source ` set (transaction_history (wd_tables w)))"

text \<open>The dead-letter topic holds the original bytes, and headers with the place they came from.\<close>

definition in_dead_letter_topic :: "string \<Rightarrow> dead_letter \<Rightarrow> world \<Rightarrow> bool" where
  "in_dead_letter_topic dlq_topic l w \<longleftrightarrow>
     (\<exists>r \<in> set (wd_dlq w). kr_topic r = dlq_topic \<and> kr_key r = dl_key l \<and> kr_value r = dl_value l \<and>
        header r ''dlq.source.topic'' = Some (dl_source_topic l) \<and>
        header r ''dlq.source.partition'' = Some (show_int (dl_source_partition l)) \<and>
        header r ''dlq.source.offset'' = Some (show_int (dl_source_offset l)) \<and>
        header r ''dlq.error.class'' = Some (failure_value (dl_failure_class l)))"

lemma processed_stored:
  assumes "tables_ok db" "process px active c payload p (s, db) = ((s', db'), Inr res)"
  shows "tables_ok db' \<and>
    (\<exists>ev row. parse_transaction_event px payload = Inr ev \<and>
      get_transaction db' (ev_transaction_id ev) = Some row \<and> describes ev (tr_decision row) \<and>
      provenance_source p \<in> history_source ` set (transaction_history db'))"
  using assms(2)
proof (cases rule: process_cases [of px payload active c p s db])
  case (scored ev s'' rs sc db'' r)
  with assms(2) have eq: "db'' = db'" "r = Inr res" by auto
  let ?d = "decision_of ev rs (sc_assessment sc)"
  from scored(4) have rec: "record_decision (c_time c) db ?d p = (db', Inr res)" by (simp add: eq record_step_Inr)
  have id: "td_transaction_id ?d = ev_transaction_id ev" by (simp add: decision_of_def)
  from record_decision_stored [OF rec] obtain row where row: "find_transaction db' (ev_transaction_id ev) = Some row"
    "provenance_source p \<in> history_source ` set (transaction_history db')" by (auto simp: id)
  from same_event_decisions [OF parsed_event_ok [OF scored(1)] rec row(1)] have "describes ev (tr_decision row)"
    by (simp add: same_transaction_describes)
  moreover have "tables_ok db'" using record_decision_tables_ok [OF assms(1), of "c_time c" ?d p] rec by simp
  ultimately show ?thesis using scored(1) row by (auto simp: get_transaction_def)
qed auto

lemma process_keeps_tables_ok:
  assumes "tables_ok db" "process px active c payload p (s, db) = ((s', db'), r)"
  shows "tables_ok db'"
  using assms(2)
proof (cases rule: process_cases [of px payload active c p s db])
  case (scored ev s'' rs sc db'' r')
  with assms(2) have "db'' = db'" by auto
  with record_step_tables [OF scored(4)] assms(1) record_decision_tables_ok [OF assms(1)] show ?thesis by auto
qed (use assms in auto)

lemma process_source:
  assumes "provider_ok (fst s)" "process px (provider_active ext conv) c payload p (s, db) = ((src, db'), r)"
  shows "provider_ok (fst src)"
proof -
  have keeps: "provider_ok (fst s')" if "provider_active ext conv s = (s', x)" for s' x
    using cached_source.source_keeps [of s ext conv] assms(1) that by (simp add: case_prod_unfold)
  from assms(2) show ?thesis
    by (cases rule: process_cases [of px payload "provider_active ext conv" c p s db])
      (use assms keeps in auto)
qed

interpretation services: message_services "worker_operations px ext conv dlq_topic" world_ok
  "stored_and_audited px" "in_dead_letter_topic dlq_topic" for px ext conv dlq_topic
proof unfold_locales
  fix w w' :: world and v p and y :: "py_exception + record_result"
  assume ok: "world_ok w" and run: "op_process (worker_operations px ext conv dlq_topic) v p w = (w', y)"
  obtain src db r where go: "process px (provider_active ext conv)
      (next_of \<lparr>c_time = 0, c_velocity_outage = None, c_record_outage = None\<rparr> (wd_conditions w))
      v p (wd_source w, wd_tables w) = ((src, db), r)" by (metis prod.exhaust)
  from process_keeps_tables_ok [OF _ go] process_source [OF _ go] ok run go show "world_ok w'"
    by (auto simp: worker_operations_def worker_process_def Let_def world_ok_def)
next
  fix w w' :: world and m r
  assume ok: "world_ok w"
    and run: "op_process (worker_operations px ext conv dlq_topic) (km_value m) (provenance_of m) w = (w', Inr r)"
  obtain src db x where go: "process px (provider_active ext conv)
      (next_of \<lparr>c_time = 0, c_velocity_outage = None, c_record_outage = None\<rparr> (wd_conditions w))
      (km_value m) (provenance_of m) (wd_source w, wd_tables w) = ((src, db), x)" by (metis prod.exhaust)
  from run go have x: "x = Inr r" and db: "wd_tables w' = db"
    by (auto simp: worker_operations_def worker_process_def Let_def split: sum.splits)
  have "provenance_source (provenance_of m) = (km_topic m, km_partition m, km_offset m)"
    by (simp add: provenance_source_def provenance_of_def)
  with processed_stored [OF _ go [unfolded x]] ok show "stored_and_audited px m w' r"
    by (simp add: stored_and_audited_def world_ok_def db)
next
  fix w w' :: world and l and x :: "py_exception + unit"
  assume "world_ok w" "op_publish (worker_operations px ext conv dlq_topic) l w = (w', x)"
  then show "world_ok w'"
    by (auto simp: worker_operations_def worker_publish_def Let_def world_ok_def split: prod.splits)
next
  fix w w' :: world and l
  assume run: "op_publish (worker_operations px ext conv dlq_topic) l w = (w', Inr ())"
  obtain failed_at d where d: "next_of ('''', Acknowledged) (wd_deliveries w) = (failed_at, d)" by (rule prod.exhaust)
  from run d have "d = Acknowledged" and w': "wd_dlq w' = wd_dlq w @ [letter_record dlq_topic l failed_at]"
    by (auto simp: worker_operations_def worker_publish_def publish_letter_def delivered_def append_if_def Let_def
        split: broker_reply.splits)
  let ?r = "letter_record dlq_topic l failed_at"
  have headers: "(''dlq.source.topic'', utf8_encode (dl_source_topic l)) \<in> set (build_dlq_headers l failed_at)"
    "(''dlq.source.partition'', utf8_encode (show_int (dl_source_partition l))) \<in> set (build_dlq_headers l failed_at)"
    "(''dlq.source.offset'', utf8_encode (show_int (dl_source_offset l))) \<in> set (build_dlq_headers l failed_at)"
    "(''dlq.error.class'', utf8_encode (failure_value (dl_failure_class l))) \<in> set (build_dlq_headers l failed_at)"
    by (simp_all add: build_dlq_headers_def)
  from headers [THEN letter_header, of dlq_topic] show "in_dead_letter_topic dlq_topic l w'"
    by (auto simp: in_dead_letter_topic_def w' letter_record_def intro!: bexI [of _ ?r])
qed (simp_all add: worker_operations_def world_ok_def)

text \<open>
  C1: no message is lost. When handling a message ends, whatever failed on the way, either the
  decision about its transaction is stored and the message has its audit row, or its bytes are on the
  dead-letter topic with headers that say where they came from, because it failed permanently or
  unexpectedly at least as often as configured; or else it was not handled: the partition is stopping,
  or its task crashed.
\<close>

theorem no_message_lost:
  assumes "world_ok w" "handle (worker_operations px ext conv dlq_topic) cfg m w = Some (w', res)"
  shows "world_ok w' \<and>
    (case res of
       Processed r \<Rightarrow> stored_and_audited px m w' r
     | DeadLettered l \<Rightarrow> letter_for cfg m l \<and> in_dead_letter_topic dlq_topic l w'
     | Abandoned \<Rightarrow> next_of False (wd_stops w')
     | TaskCrashed \<Rightarrow> True)"
  using services.handle_settles [OF assms(2,1)]
  by (auto simp: settled_def worker_operations_def split: handle_result.splits)

section \<open>Replaying dead letters\<close>


text \<open>
  The script has no delivery callback, so a record that the broker refuses leaves nothing to flush: its
  offset is committed although nothing was replayed. A record without a source topic is skipped, and
  the next commit passes over it.
\<close>

theorem refused_replay_is_committed:
  assumes "header r ''dlq.source.topic'' = Some t" "t \<noteq> []"
  shows "replay_message False offset r (Refused err) st =
    (st\<lparr>rp_committed := offset + 1, rp_replayed := rp_replayed st + 1\<rparr>, Continue)"
  using assms by (simp add: replay_message_def Let_def delivered_def append_if_def flush_leftover_def)

theorem skipped_record_is_committed:
  assumes "header r ''dlq.source.topic'' = None" "letter_for cfg m l" "km_topic m \<noteq> []" "Suc (rp_replayed st) \<le> maximum"
  shows "rp_committed (replay_dlq False maximum
      [(7, r, Acknowledged), (8, letter_record dlq_topic l failed_at, Acknowledged)] st) = 9 \<and>
    length (rp_topics (replay_dlq False maximum
      [(7, r, Acknowledged), (8, letter_record dlq_topic l failed_at, Acknowledged)] st)) = length (rp_topics st) + 1"
proof -
  have "(''dlq.source.topic'', utf8_encode (dl_source_topic l)) \<in> set (build_dlq_headers l failed_at)"
    by (simp add: build_dlq_headers_def)
  from letter_header [OF this, of dlq_topic] assms show ?thesis
    by (simp add: replay_message_def letter_for_def Let_def delivered_def append_if_def flush_leftover_def)
qed

section \<open>Examples\<close>

definition example_worker_world :: world where
  "example_worker_world =
     \<lparr>wd_source = (example_provider, [example_world]), wd_tables = no_rows, wd_dlq = [], wd_correlation = None,
      wd_clock = 0, wd_conditions = [], wd_deliveries = [(''2026-10-29T14:03:11+00:00'', Acknowledged)],
      wd_stops = [], wd_jitter = []\<rparr>"

definition bad_message :: kafka_message where
  "bad_message = example_message\<lparr>km_value := Some ''not JSON''\<rparr>"

lemma bad_message_handled:
  "\<exists>w' l. handle (worker_operations example_px example_externals example_conversions ''transactions.dlq'')
     example_retry bad_message example_worker_world = Some (w', DeadLettered l)"
  by (subst handle_def, subst loop_step, subst loop_step)
    (simp add: worker_operations_def handle_attempt_def first_attempt_def example_worker_world_def next_of_def Let_def
      worker_process_def process_def parse_transaction_event_def MAX_EVENT_BYTES_def example_px_def bad_message_def
      example_message_def on_processing_failure_def process_exception_def event_failure_class
      worker_publish_def publish_letter_def del: event_exception.simps)

theorem no_message_lost_witness:
  "\<exists>w' l. handle (worker_operations example_px example_externals example_conversions ''transactions.dlq'')
     example_retry bad_message example_worker_world = Some (w', DeadLettered l) \<and>
     in_dead_letter_topic ''transactions.dlq'' l w' \<and> dl_value l = Some ''not JSON''"
proof -
  obtain w' l where run: "handle (worker_operations example_px example_externals example_conversions ''transactions.dlq'')
     example_retry bad_message example_worker_world = Some (w', DeadLettered l)"
    using bad_message_handled by blast
  have "world_ok example_worker_world"
    by (simp add: world_ok_def example_worker_world_def example_provider_ok no_rows_ok)
  from no_message_lost [OF this run] run show ?thesis
    by (auto simp: letter_for_def bad_message_def)
qed

end
