(* ===== verification/Worker.thy ===== *)
theory Worker
  imports Message_Handling
begin

text \<open>
  The partitions of the worker (\<open>FraudWorker\<close> in \<open>app/worker.py\<close>) and their offsets: the poll loop that
  dispatches messages to the queue of their partition, the task that handles one message after the
  other, the pausing of a partition with a long queue, and the rebalance callbacks. The operations are
  functions; the order in which the poll thread, the tasks, the broker and the other consumers of the
  group act is the step relation \<open>worker_step\<close>.

  librdkafka and the broker are external. Their part is what their documentation says: \<open>poll\<close> returns
  the messages of an assigned partition in offset order from its position, and none of a paused one; a
  partition is assigned at its committed offset; a stored offset is committed in the background, by a
  synchronous commit, or when the consumer closes; storing fails for a partition that is not assigned.
\<close>

section \<open>Partitions\<close>

type_synonym topic_partition = "string \<times> int"

datatype task = Waiting | Handling kafka_message | Ended

record partition_state =
  ps_queue :: "kafka_message option list"
  ps_stopping :: bool
  ps_task :: task
  ps_paused :: bool

definition new_partition :: partition_state where
  "new_partition = \<lparr>ps_queue = [], ps_stopping = False, ps_task = Waiting, ps_paused = False\<rparr>"

type_synonym partitions = "topic_partition \<Rightarrow> partition_state option"

definition partition_of :: "kafka_message \<Rightarrow> topic_partition" where
  "partition_of m = (km_topic m, km_partition m)"

text \<open>\<open>_dispatch\<close>: a message for a partition that is unknown or stopping is dropped.\<close>

definition enqueue :: "nat \<Rightarrow> kafka_message \<Rightarrow> partition_state \<Rightarrow> partition_state" where
  "enqueue high_watermark m st =
     (let queue = ps_queue st @ [Some m]
      in if \<not> ps_paused st \<and> high_watermark \<le> length queue
         then st\<lparr>ps_queue := queue, ps_paused := True\<rparr> else st\<lparr>ps_queue := queue\<rparr>)"

definition dispatch :: "nat \<Rightarrow> kafka_message \<Rightarrow> partitions \<Rightarrow> partitions" where
  "dispatch high_watermark m ps =
     (case ps (partition_of m) of
        None \<Rightarrow> ps
      | Some st \<Rightarrow> if ps_stopping st then ps else ps(partition_of m \<mapsto> enqueue high_watermark m st))"

text \<open>\<open>_start_partitions\<close> and the first half of \<open>_stop_partitions\<close>.\<close>

definition start_partition :: "partitions \<Rightarrow> topic_partition \<Rightarrow> partitions" where
  "start_partition ps tp = (case ps tp of Some _ \<Rightarrow> ps | None \<Rightarrow> ps(tp \<mapsto> new_partition))"

definition start_partitions :: "topic_partition list \<Rightarrow> partitions \<Rightarrow> partitions" where
  "start_partitions tps ps = foldl start_partition ps tps"

text \<open>The queue is emptied and gets a \<open>None\<close>, which wakes an idle task.\<close>

definition request_stop :: "partition_state \<Rightarrow> partition_state" where
  "request_stop st = st\<lparr>ps_stopping := True, ps_queue := [None]\<rparr>"

definition stop_partitions :: "topic_partition list \<Rightarrow> partitions \<Rightarrow> partitions" where
  "stop_partitions tps ps = (\<lambda>tp. if tp \<in> set tps then map_option request_stop (ps tp) else ps tp)"

text \<open>The second half: the tasks have ended or are cancelled, and the states are forgotten.\<close>

definition release_partitions :: "topic_partition list \<Rightarrow> partitions \<Rightarrow> partitions" where
  "release_partitions tps ps = (\<lambda>tp. if tp \<in> set tps then None else ps tp)"

section \<open>The task of a partition\<close>

text \<open>One pass of \<open>_consume_partition\<close> up to the call of \<open>_handle\<close>, and from its return to the next pass.\<close>

definition take_message :: "partition_state \<Rightarrow> partition_state" where
  "take_message st =
     (case ps_queue st of
        [] \<Rightarrow> st
      | x # queue \<Rightarrow>
          (case x of
             None \<Rightarrow> st\<lparr>ps_queue := queue, ps_task := Ended\<rparr>
           | Some m \<Rightarrow> st\<lparr>ps_queue := queue, ps_task := (if ps_stopping st then Ended else Handling m)\<rparr>))"

definition after_message :: "nat \<Rightarrow> partition_state \<Rightarrow> partition_state" where
  "after_message high_watermark st =
     st\<lparr>ps_paused := (if ps_paused st \<and> length (ps_queue st) \<le> high_watermark div 2 then False else ps_paused st),
        ps_task := (if ps_stopping st then Ended else Waiting)\<rparr>"

section \<open>The poll loop\<close>

text \<open>
  \<open>_check_group_membership\<close>: the time of the last check that found the consumer in its group, or
  \<open>None\<close> for the exception that ends the worker.
\<close>

definition check_group_membership :: "rat \<Rightarrow> bool \<Rightarrow> rat \<Rightarrow> rat \<Rightarrow> rat option" where
  "check_group_membership max_absence member now last_member =
     (if member then Some now
      else if now - last_member > max_absence then None else Some last_member)"

datatype poll_error = PollError (fatal: bool) (partition_eof: bool)

datatype polled = NoMessage | Failed poll_error | Message kafka_message

datatype exit_reason = NotInGroup | FatalKafkaError

text \<open>\<open>_handle_poll_error\<close>: the Kafka health afterwards (\<open>None\<close> when it is left alone), or an exception.\<close>

definition handle_poll_error :: "poll_error \<Rightarrow> exit_reason + bool option" where
  "handle_poll_error e =
     (if fatal e then Inl FatalKafkaError else if \<not> partition_eof e then Inr (Some False) else Inr None)"

record poll_state =
  pl_last_member :: rat
  pl_healthy :: "bool option"
  pl_partitions :: partitions

text \<open>One pass of the loop in \<open>run\<close>.\<close>

definition poll_once ::
    "rat \<Rightarrow> nat \<Rightarrow> bool \<Rightarrow> rat \<Rightarrow> polled \<Rightarrow> poll_state \<Rightarrow> exit_reason + poll_state" where
  "poll_once max_absence high_watermark member now polled st =
     (case check_group_membership max_absence member now (pl_last_member st) of
        None \<Rightarrow> Inl NotInGroup
      | Some t \<Rightarrow>
          (let st = st\<lparr>pl_last_member := t\<rparr>
           in case polled of
                NoMessage \<Rightarrow> Inr st
              | Failed e \<Rightarrow>
                  err_bind (handle_poll_error e)
                    (\<lambda>h. Inr (case h of None \<Rightarrow> st | Some b \<Rightarrow> st\<lparr>pl_healthy := Some b\<rparr>))
              | Message m \<Rightarrow>
                  Inr (st\<lparr>pl_healthy := Some True, pl_partitions := dispatch high_watermark m (pl_partitions st)\<rparr>)))"

section \<open>The worker among threads, broker and group\<close>

text \<open>
  \<open>wk_handled\<close> is the set of messages for which some consumer's \<open>_handle\<close> returned \<open>True\<close>; it is only
  used to state the properties.
\<close>

record worker_state =
  wk_partitions :: partitions
  wk_position :: "topic_partition \<Rightarrow> int option"
  wk_stored :: "topic_partition \<Rightarrow> int option"
  wk_committed :: "topic_partition \<Rightarrow> int"
  wk_log :: "topic_partition \<Rightarrow> kafka_message list"
  wk_end :: "topic_partition \<Rightarrow> int"
  wk_handled :: "(topic_partition \<times> int) set"

text \<open>\<open>store_offsets\<close> raises for a partition that is not assigned; the exception is only logged.\<close>

definition store_offset :: "topic_partition \<Rightarrow> int \<Rightarrow> worker_state \<Rightarrow> worker_state" where
  "store_offset tp offset s =
     (case wk_position s tp of
        None \<Rightarrow> s
      | Some _ \<Rightarrow> s\<lparr>wk_stored := (wk_stored s)(tp \<mapsto> offset)\<rparr>)"

text \<open>Unassigning forgets position and stored offset.\<close>

definition unassign :: "topic_partition list \<Rightarrow> worker_state \<Rightarrow> worker_state" where
  "unassign tps s =
     s\<lparr>wk_position := (\<lambda>tp. if tp \<in> set tps then None else wk_position s tp),
       wk_stored := (\<lambda>tp. if tp \<in> set tps then None else wk_stored s tp)\<rparr>"

text \<open>A synchronous commit of everything that is stored.\<close>

definition commit_stored :: "worker_state \<Rightarrow> worker_state" where
  "commit_stored s =
     s\<lparr>wk_committed := (\<lambda>tp. case wk_stored s tp of None \<Rightarrow> wk_committed s tp | Some n \<Rightarrow> n)\<rparr>"

inductive worker_step :: "nat \<Rightarrow> worker_state \<Rightarrow> worker_state \<Rightarrow> bool" for high_watermark where
  produce: "wk_end s tp \<le> km_offset m \<Longrightarrow> partition_of m = tp \<Longrightarrow>
     worker_step high_watermark s
       (s\<lparr>wk_log := (wk_log s)(tp := wk_log s tp @ [m]), wk_end := (wk_end s)(tp := km_offset m + 1)\<rparr>)"
| on_assign: "(\<And>tp. tp \<in> set tps \<Longrightarrow> wk_position s tp = None) \<Longrightarrow>
     worker_step high_watermark s
       (s\<lparr>wk_position := (\<lambda>tp. if tp \<in> set tps then Some (wk_committed s tp) else wk_position s tp),
          wk_partitions := start_partitions tps (wk_partitions s)\<rparr>)"
| poll: "wk_position s tp = Some p \<Longrightarrow> find (\<lambda>m. p \<le> km_offset m) (wk_log s tp) = Some m \<Longrightarrow>
     (\<And>st. wk_partitions s tp = Some st \<Longrightarrow> \<not> ps_paused st) \<Longrightarrow>
     worker_step high_watermark s
       (s\<lparr>wk_position := (wk_position s)(tp \<mapsto> km_offset m + 1),
          wk_partitions := dispatch high_watermark m (wk_partitions s)\<rparr>)"
| take: "wk_partitions s tp = Some st \<Longrightarrow> ps_task st = Waiting \<Longrightarrow> ps_queue st \<noteq> [] \<Longrightarrow>
     worker_step high_watermark s (s\<lparr>wk_partitions := (wk_partitions s)(tp \<mapsto> take_message st)\<rparr>)"
| handled: "wk_partitions s tp = Some st \<Longrightarrow> ps_task st = Handling m \<Longrightarrow>
     worker_step high_watermark s
       (store_offset tp (km_offset m + 1)
         (s\<lparr>wk_partitions := (wk_partitions s)(tp \<mapsto> after_message high_watermark st),
            wk_handled := insert (tp, km_offset m) (wk_handled s)\<rparr>))"
| abandoned: "wk_partitions s tp = Some st \<Longrightarrow> ps_task st = Handling m \<Longrightarrow> ps_stopping st \<Longrightarrow>
     worker_step high_watermark s
       (s\<lparr>wk_partitions := (wk_partitions s)(tp \<mapsto> after_message high_watermark st)\<rparr>)"
| crashed: "wk_partitions s tp = Some st \<Longrightarrow> ps_task st = Handling m \<Longrightarrow>
     worker_step high_watermark s
       (s\<lparr>wk_partitions := (wk_partitions s)(tp \<mapsto> st\<lparr>ps_task := Ended\<rparr>)\<rparr>)"
| stop: "worker_step high_watermark s (s\<lparr>wk_partitions := stop_partitions tps (wk_partitions s)\<rparr>)"
| revoked: "worker_step high_watermark s
     (unassign tps (commit_stored (s\<lparr>wk_partitions := release_partitions tps (wk_partitions s)\<rparr>)))"
| lost: "worker_step high_watermark s
     (unassign tps (s\<lparr>wk_partitions := release_partitions tps (wk_partitions s)\<rparr>))"
| auto_commit: "wk_stored s tp = Some n \<Longrightarrow>
     worker_step high_watermark s (s\<lparr>wk_committed := (wk_committed s)(tp := n)\<rparr>)"
| elsewhere: "wk_position s tp = None \<Longrightarrow> n \<le> wk_end s tp \<Longrightarrow> wk_handled s \<subseteq> H \<Longrightarrow>
     (\<And>m. m \<in> set (wk_log s tp) \<Longrightarrow> km_offset m < n \<Longrightarrow> (tp, km_offset m) \<in> H) \<Longrightarrow>
     worker_step high_watermark s (s\<lparr>wk_committed := (wk_committed s)(tp := n), wk_handled := H\<rparr>)"

inductive worker_reachable :: "nat \<Rightarrow> worker_state \<Rightarrow> worker_state \<Rightarrow> bool" for high_watermark s where
  worker_start: "worker_reachable high_watermark s s"
| worker_next: "worker_reachable high_watermark s s' \<Longrightarrow> worker_step high_watermark s' s'' \<Longrightarrow>
     worker_reachable high_watermark s s''"

text \<open>A worker that has just started: no partition is assigned, and nothing has been committed.\<close>

definition started_worker :: worker_state where
  "started_worker =
     \<lparr>wk_partitions = (\<lambda>tp. None), wk_position = (\<lambda>tp. None), wk_stored = (\<lambda>tp. None), wk_committed = (\<lambda>tp. 0),
      wk_log = (\<lambda>tp. []), wk_end = (\<lambda>tp. 0), wk_handled = {}\<rparr>"

end
