(* ===== verification/Worker_Facts.thy ===== *)
theory Worker_Facts
  imports Worker
begin

text \<open>
  Offsets are committed only over handled messages, in every interleaving of the poll thread, the tasks,
  rebalances and the other consumers of the group; a paused partition is always resumed.
\<close>

section \<open>One partition\<close>

definition queued :: "kafka_message option list \<Rightarrow> kafka_message list" where
  "queued q = concat (map (\<lambda>x. case x of None \<Rightarrow> [] | Some m \<Rightarrow> [m]) q)"

lemma queued_simps [simp]:
  "queued [] = []" "queued (None # q) = queued q" "queued (Some m # q) = m # queued q"
  "queued (q @ q') = queued q @ queued q'"
  by (simp_all add: queued_def)

definition pending :: "partition_state \<Rightarrow> kafka_message list" where
  "pending st = (case ps_task st of Handling m \<Rightarrow> [m] | _ \<Rightarrow> []) @ queued (ps_queue st)"

definition log_ok :: "kafka_message list \<Rightarrow> int \<Rightarrow> topic_partition \<Rightarrow> bool" where
  "log_ok ms e tp \<longleftrightarrow>
     sorted_wrt (\<lambda>x y. km_offset x < km_offset y) ms \<and> (\<forall>m \<in> set ms. km_offset m < e \<and> partition_of m = tp)"

text \<open>
  \<open>d\<close> tells which offsets are handled and \<open>p\<close> is the position of the consumer: what is queued comes
  from the log in order, everything before a queued message is handled or queued too, and nothing
  before the position is missing while the partition runs.
\<close>

definition task_ok :: "kafka_message list \<Rightarrow> (int \<Rightarrow> bool) \<Rightarrow> int \<Rightarrow> partition_state \<Rightarrow> bool" where
  "task_ok ms d p st \<longleftrightarrow>
     sorted_wrt (\<lambda>x y. km_offset x < km_offset y) (pending st) \<and>
     (\<forall>m \<in> set (pending st). m \<in> set ms \<and> km_offset m < p) \<and>
     (ps_task st \<noteq> Ended \<longrightarrow>
       (\<forall>q \<in> set (pending st). \<forall>m \<in> set ms. km_offset m < km_offset q \<longrightarrow> d (km_offset m) \<or> m \<in> set (pending st)) \<and>
       (\<not> ps_stopping st \<longrightarrow>
         (\<forall>m \<in> set ms. km_offset m < p \<longrightarrow> d (km_offset m) \<or> m \<in> set (pending st))))"

lemma task_ok_mono: "task_ok ms d p st \<Longrightarrow> (\<And>n. d n \<Longrightarrow> d' n) \<Longrightarrow> task_ok ms d' p st"
  unfolding task_ok_def by blast

lemma task_ok_new: "(\<And>m. m \<in> set ms \<Longrightarrow> km_offset m < p \<Longrightarrow> d (km_offset m)) \<Longrightarrow> task_ok ms d p new_partition"
  by (simp add: task_ok_def new_partition_def pending_def)

lemma task_ok_produce:
  assumes "task_ok ms d p st" "p \<le> km_offset m"
  shows "task_ok (ms @ [m]) d p st"
proof -
  have "km_offset q < p" if "q \<in> set (pending st)" for q using assms(1) that by (simp add: task_ok_def)
  with assms show ?thesis by (fastforce simp: task_ok_def)
qed

lemma find_sorted:
  assumes "sorted_wrt (\<lambda>x y. km_offset x < km_offset y) ms" "find (\<lambda>m. p \<le> km_offset m) ms = Some m"
  shows "m \<in> set ms \<and> p \<le> km_offset m \<and> (\<forall>x \<in> set ms. km_offset x < km_offset m + 1 \<longrightarrow> x = m \<or> km_offset x < p)"
  using assms by (induction ms) (auto split: if_splits)

lemma pending_enqueue [simp]: "pending (enqueue hw m st) = pending st @ [m]"
  by (simp add: pending_def enqueue_def Let_def)

lemma enqueue_simps [simp]:
  "ps_task (enqueue hw m st) = ps_task st" "ps_stopping (enqueue hw m st) = ps_stopping st"
  by (simp_all add: enqueue_def Let_def)

lemma task_ok_enqueue:
  assumes "task_ok ms d p st" "sorted_wrt (\<lambda>x y. km_offset x < km_offset y) ms"
    and "find (\<lambda>m. p \<le> km_offset m) ms = Some m" "\<not> ps_stopping st"
  shows "task_ok ms d (km_offset m + 1) (enqueue hw m st)"
proof -
  from find_sorted [OF assms(2,3)] have m: "m \<in> set ms" "p \<le> km_offset m"
    "\<And>x. x \<in> set ms \<Longrightarrow> km_offset x < km_offset m + 1 \<Longrightarrow> x = m \<or> km_offset x < p" by auto
  have below: "q \<in> set ms \<and> km_offset q < km_offset m" if "q \<in> set (pending st)" for q
    using assms(1) m(2) that by (auto simp: task_ok_def)
  with assms(1) have "sorted_wrt (\<lambda>x y. km_offset x < km_offset y) (pending st @ [m])"
    by (simp add: task_ok_def sorted_wrt_append)
  moreover have "d (km_offset x) \<or> x \<in> set (pending st @ [m])"
    if "ps_task st \<noteq> Ended" "x \<in> set ms" "km_offset x < km_offset m + 1" for x
    using m(3) [OF that(2,3)] assms(1,4) that(1,2) by (auto simp: task_ok_def)
  ultimately show ?thesis using below m(1) unfolding task_ok_def pending_enqueue enqueue_simps by fastforce
qed

lemma task_ok_skip:
  "task_ok ms d p st \<Longrightarrow> ps_stopping st \<Longrightarrow> p \<le> p' \<Longrightarrow> task_ok ms d p' st"
  by (fastforce simp: task_ok_def)

lemma task_ok_take:
  assumes "task_ok ms d p st" "ps_task st = Waiting"
  shows "task_ok ms d p (take_message st)"
proof (cases "ps_queue st")
  case (Cons x q)
  show ?thesis
  proof (cases x)
    case None
    with Cons assms show ?thesis by (auto simp: task_ok_def take_message_def pending_def)
  next
    case (Some m)
    with Cons assms show ?thesis by (auto simp: task_ok_def take_message_def pending_def)
  qed
qed (use assms in \<open>simp add: take_message_def\<close>)

lemma first_pending:
  assumes "task_ok ms d p st" "ps_task st = Handling m" "x \<in> set ms" "km_offset x < km_offset m"
  shows "d (km_offset x)"
proof -
  have st: "pending st = m # queued (ps_queue st)" using assms(2) by (simp add: pending_def)
  with assms have "d (km_offset x) \<or> x \<in> set (pending st)" by (simp add: task_ok_def)
  moreover have "x \<notin> set (pending st)" using assms(1,4) st by (auto simp: task_ok_def)
  ultimately show ?thesis by blast
qed

lemma task_ok_handled:
  assumes "task_ok ms d p st" "ps_task st = Handling m"
    and "\<And>x. x \<in> set ms \<Longrightarrow> km_offset x = km_offset m \<Longrightarrow> x = m"
  shows "task_ok ms (\<lambda>n. d n \<or> n = km_offset m) p (after_message hw st)"
proof -
  have old: "pending st = m # queued (ps_queue st)" using assms(2) by (simp add: pending_def)
  have new: "pending (after_message hw st) = queued (ps_queue st)" by (simp add: pending_def after_message_def)
  have task: "ps_task (after_message hw st) = (if ps_stopping st then Ended else Waiting)"
    "ps_stopping (after_message hw st) = ps_stopping st" by (simp_all add: after_message_def)
  from assms(1,2) show ?thesis unfolding task_ok_def new task old by (simp add: assms(2)) blast
qed

lemma task_ok_ended:
  assumes "task_ok ms d p st" "queued q = queued (ps_queue st)" "ps_queue st' = q" "ps_task st' = Ended"
  shows "task_ok ms d p st'"
  using assms by (auto simp: task_ok_def pending_def split: task.splits)

lemma task_ok_stop:
  assumes "task_ok ms d p st"
  shows "task_ok ms d p (request_stop st)"
proof (cases "ps_task st")
  case (Handling m)
  then have "pending (request_stop st) = [m]" "pending st = m # queued (ps_queue st)"
    by (simp_all add: pending_def request_stop_def)
  with assms first_pending [OF assms Handling] show ?thesis by (auto simp: task_ok_def request_stop_def)
qed (simp_all add: task_ok_def request_stop_def pending_def)

section \<open>The invariant\<close>

definition all_handled_before :: "worker_state \<Rightarrow> topic_partition \<Rightarrow> int \<Rightarrow> bool" where
  "all_handled_before s tp n \<longleftrightarrow> (\<forall>m \<in> set (wk_log s tp). km_offset m < n \<longrightarrow> (tp, km_offset m) \<in> wk_handled s)"

definition partition_ok :: "worker_state \<Rightarrow> topic_partition \<Rightarrow> bool" where
  "partition_ok s tp \<longleftrightarrow>
     log_ok (wk_log s tp) (wk_end s tp) tp \<and>
     wk_committed s tp \<le> wk_end s tp \<and> all_handled_before s tp (wk_committed s tp) \<and>
     (case wk_stored s tp of None \<Rightarrow> True | Some n \<Rightarrow> n \<le> wk_end s tp \<and> all_handled_before s tp n) \<and>
     (case wk_position s tp of None \<Rightarrow> wk_partitions s tp = None | Some p \<Rightarrow> p \<le> wk_end s tp \<and>
        (case wk_partitions s tp of None \<Rightarrow> True
         | Some st \<Rightarrow> task_ok (wk_log s tp) (\<lambda>n. (tp, n) \<in> wk_handled s) p st))"

definition worker_ok :: "worker_state \<Rightarrow> bool" where
  "worker_ok s \<longleftrightarrow> (\<forall>tp. partition_ok s tp)"

lemma started_worker_ok: "worker_ok started_worker"
  by (simp add: worker_ok_def partition_ok_def started_worker_def log_ok_def all_handled_before_def)

lemma partition_ok_frame:
  assumes "partition_ok s tp" "wk_handled s \<subseteq> wk_handled s'"
    and "wk_log s' tp = wk_log s tp" "wk_end s' tp = wk_end s tp" "wk_committed s' tp = wk_committed s tp"
    and "wk_stored s' tp = wk_stored s tp" "wk_position s' tp = wk_position s tp"
    and "wk_partitions s' tp = wk_partitions s tp"
  shows "partition_ok s' tp"
proof -
  have "all_handled_before s tp n \<Longrightarrow> all_handled_before s' tp n" for n
    using assms(2) by (auto simp: all_handled_before_def assms(3))
  moreover have "task_ok (wk_log s tp) (\<lambda>n. (tp, n) \<in> wk_handled s) p st \<Longrightarrow>
      task_ok (wk_log s tp) (\<lambda>n. (tp, n) \<in> wk_handled s') p st" for p st
    using assms(2) by (elim task_ok_mono) blast
  ultimately show ?thesis using assms(1)
    by (auto simp: partition_ok_def assms(3-8) split: option.splits)
qed

text \<open>A step of a task, which may store an offset.\<close>

lemma partition_ok_task:
  assumes "partition_ok s tp" "wk_partitions s tp = Some st"
    and "\<And>p. wk_position s tp = Some p \<Longrightarrow> task_ok (wk_log s tp) (\<lambda>n. (tp, n) \<in> wk_handled s) p st \<Longrightarrow>
      task_ok (wk_log s tp) (\<lambda>n. (tp, n) \<in> wk_handled s) p st'"
  shows "partition_ok (s\<lparr>wk_partitions := (wk_partitions s)(tp \<mapsto> st')\<rparr>) tp"
  using assms by (auto simp: partition_ok_def all_handled_before_def split: option.splits)

lemma worker_ok_task:
  assumes "worker_ok s" "wk_partitions s tp = Some st"
    and "\<And>p. wk_position s tp = Some p \<Longrightarrow> task_ok (wk_log s tp) (\<lambda>n. (tp, n) \<in> wk_handled s) p st \<Longrightarrow>
      task_ok (wk_log s tp) (\<lambda>n. (tp, n) \<in> wk_handled s) p st'"
  shows "worker_ok (s\<lparr>wk_partitions := (wk_partitions s)(tp \<mapsto> st')\<rparr>)"
  unfolding worker_ok_def
proof
  fix tp'
  from assms(1) have "partition_ok s tp'" unfolding worker_ok_def by (rule spec)
  then show "partition_ok (s\<lparr>wk_partitions := (wk_partitions s)(tp \<mapsto> st')\<rparr>) tp'"
    using partition_ok_task [OF _ assms(2,3)]
    by (cases "tp' = tp") (auto elim: partition_ok_frame)
qed

section \<open>Every step\<close>

text \<open>What each partition of the lists given to the rebalance callbacks gets.\<close>

lemma start_partitions_simps:
  "start_partitions tps ps tp = (if tp \<in> set tps \<and> ps tp = None then Some new_partition else ps tp)"
proof (induction tps arbitrary: ps)
  case (Cons t tps)
  have "start_partitions (t # tps) ps = start_partitions tps (start_partition ps t)"
    by (simp add: start_partitions_def)
  with Cons show ?case by (auto simp: start_partition_def split: option.splits)
qed (simp add: start_partitions_def)

lemma all_handled_mono:
  "all_handled_before s tp n \<Longrightarrow> wk_log s' tp = wk_log s tp \<Longrightarrow> wk_handled s \<subseteq> wk_handled s' \<Longrightarrow>
     all_handled_before s' tp n"
  by (auto simp: all_handled_before_def)

lemma produce_ok:
  assumes "worker_ok s" "wk_end s tp \<le> km_offset m" "partition_of m = tp"
  shows "worker_ok (s\<lparr>wk_log := (wk_log s)(tp := wk_log s tp @ [m]), wk_end := (wk_end s)(tp := km_offset m + 1)\<rparr>)"
    (is "worker_ok ?s")
  unfolding worker_ok_def
proof
  fix tp'
  from assms(1) have ok: "partition_ok s tp'" unfolding worker_ok_def by (rule spec)
  show "partition_ok ?s tp'"
  proof (cases "tp' = tp")
    case True
    from ok assms(2,3) have "log_ok (wk_log s tp @ [m]) (km_offset m + 1) tp"
      by (auto simp: True partition_ok_def log_ok_def sorted_wrt_append)
    moreover have "all_handled_before ?s tp n" if "all_handled_before s tp n" "n \<le> wk_end s tp" for n
      using that assms(2) by (auto simp: all_handled_before_def)
    moreover have "task_ok (wk_log s tp @ [m]) d p st" if "task_ok (wk_log s tp) d p st" "p \<le> wk_end s tp" for d p st
      using task_ok_produce [OF that(1)] that(2) assms(2) by simp
    ultimately show ?thesis using ok assms(2)
      by (auto simp: True partition_ok_def split: option.splits)
  qed (use ok in \<open>auto elim: partition_ok_frame\<close>)
qed

lemma assign_ok:
  assumes "worker_ok s" "\<And>tp. tp \<in> set tps \<Longrightarrow> wk_position s tp = None"
  shows "worker_ok (s\<lparr>wk_position := (\<lambda>tp. if tp \<in> set tps then Some (wk_committed s tp) else wk_position s tp),
          wk_partitions := start_partitions tps (wk_partitions s)\<rparr>)"
    (is "worker_ok ?s")
  unfolding worker_ok_def
proof
  fix tp
  from assms(1) have ok: "partition_ok s tp" unfolding worker_ok_def by (rule spec)
  show "partition_ok ?s tp"
  proof (cases "tp \<in> set tps")
    case True
    with ok assms(2) show ?thesis
      by (auto simp: partition_ok_def start_partitions_simps all_handled_before_def split: option.splits
          intro: task_ok_new)
  next
    case False
    with ok show ?thesis by (auto simp: start_partitions_simps elim: partition_ok_frame)
  qed
qed

lemma log_unique: "log_ok ms e tp \<Longrightarrow> x \<in> set ms \<Longrightarrow> y \<in> set ms \<Longrightarrow> km_offset x = km_offset y \<Longrightarrow> x = y"
proof -
  assume log: "log_ok ms e tp" and xy: "x \<in> set ms" "y \<in> set ms" "km_offset x = km_offset y"
  have "sorted_wrt (\<lambda>x y. km_offset x < km_offset y) ms" using log by (simp add: log_ok_def)
  then show "x = y" using xy by (induction ms) auto
qed

lemma poll_ok:
  assumes "worker_ok s" "wk_position s tp = Some p" "find (\<lambda>m. p \<le> km_offset m) (wk_log s tp) = Some m"
  shows "worker_ok (s\<lparr>wk_position := (wk_position s)(tp \<mapsto> km_offset m + 1),
          wk_partitions := dispatch hw m (wk_partitions s)\<rparr>)"
    (is "worker_ok ?s")
  unfolding worker_ok_def
proof
  fix tp'
  from assms(1) have ok: "partition_ok s tp" "partition_ok s tp'" unfolding worker_ok_def by (blast intro: spec)+
  from ok(1) have log: "sorted_wrt (\<lambda>x y. km_offset x < km_offset y) (wk_log s tp)"
    by (simp add: partition_ok_def log_ok_def)
  from find_sorted [OF log assms(3)] have m: "m \<in> set (wk_log s tp)" "p \<le> km_offset m" by auto
  with ok(1) have part: "partition_of m = tp" and e: "km_offset m + 1 \<le> wk_end s tp"
    by (auto simp: partition_ok_def log_ok_def)
  show "partition_ok ?s tp'"
  proof (cases "tp' = tp")
    case True
    show ?thesis
    proof (cases "wk_partitions s tp")
      case None
      with ok(1) assms(2) e show ?thesis
        by (auto simp: True partition_ok_def dispatch_def part all_handled_before_def split: option.splits)
    next
      case (Some st)
      with ok(1) assms(2) have task: "task_ok (wk_log s tp) (\<lambda>n. (tp, n) \<in> wk_handled s) p st"
        by (simp add: partition_ok_def)
      show ?thesis
      proof (cases "ps_stopping st")
        case True
        with task_ok_skip [OF task, of "km_offset m + 1"] ok(1) assms(2) e m(2) Some show ?thesis
          by (auto simp: \<open>tp' = tp\<close> partition_ok_def dispatch_def part all_handled_before_def split: option.splits)
      next
        case False
        with task_ok_enqueue [OF task log assms(3)] ok(1) assms(2) e Some show ?thesis
          by (auto simp: \<open>tp' = tp\<close> partition_ok_def dispatch_def part all_handled_before_def split: option.splits)
      qed
    qed
  next
    case False
    with ok(2) show ?thesis
      by (auto simp: dispatch_def part split: option.splits elim: partition_ok_frame)
  qed
qed

lemma handled_ok:
  assumes "worker_ok s" "wk_partitions s tp = Some st" "ps_task st = Handling m"
  shows "worker_ok (store_offset tp (km_offset m + 1)
         (s\<lparr>wk_partitions := (wk_partitions s)(tp \<mapsto> after_message hw st),
            wk_handled := insert (tp, km_offset m) (wk_handled s)\<rparr>))"
    (is "worker_ok ?s")
  unfolding worker_ok_def
proof
  fix tp'
  from assms(1) have ok: "partition_ok s tp" "partition_ok s tp'" unfolding worker_ok_def by (blast intro: spec)+
  with assms(2) obtain p where p: "wk_position s tp = Some p" "p \<le> wk_end s tp"
    and task: "task_ok (wk_log s tp) (\<lambda>n. (tp, n) \<in> wk_handled s) p st"
    by (auto simp: partition_ok_def split: option.splits)
  have log: "log_ok (wk_log s tp) (wk_end s tp) tp" using ok(1) by (simp add: partition_ok_def)
  have "m \<in> set (pending st)" using assms(3) by (simp add: pending_def)
  with task have m: "m \<in> set (wk_log s tp)" "km_offset m < p" by (auto simp: task_ok_def)
  show "partition_ok ?s tp'"
  proof (cases "tp' = tp")
    case True
    have "all_handled_before ?s tp (km_offset m + 1)"
      using first_pending [OF task assms(3)] log_unique [OF log _ m(1)] p(1)
      by (auto simp: all_handled_before_def store_offset_def le_less zless_add1_eq)
    moreover have "all_handled_before ?s tp n" if "all_handled_before s tp n" for n
      using that by (rule all_handled_mono) (auto simp: store_offset_def p(1))
    moreover have "task_ok (wk_log s tp) (\<lambda>n. (tp, n) \<in> insert (tp, km_offset m) (wk_handled s)) p (after_message hw st)"
      using task_ok_handled [OF task assms(3) log_unique [OF log _ m(1)], of hw] by (rule task_ok_mono) auto
    ultimately show ?thesis using ok(1) p m(2)
      by (auto simp: True partition_ok_def store_offset_def split: option.splits)
  next
    case False
    with ok(2) p(1) show ?thesis by (auto simp: store_offset_def elim!: partition_ok_frame)
  qed
qed

lemma release_ok:
  assumes "worker_ok s"
  shows "worker_ok (unassign tps (s\<lparr>wk_partitions := release_partitions tps (wk_partitions s)\<rparr>))"
    and "worker_ok (unassign tps (commit_stored (s\<lparr>wk_partitions := release_partitions tps (wk_partitions s)\<rparr>)))"
  unfolding worker_ok_def
proof (safe)
  fix a b
  from assms have ok: "partition_ok s (a, b)" unfolding worker_ok_def by (rule spec)
  show "partition_ok (unassign tps (s\<lparr>wk_partitions := release_partitions tps (wk_partitions s)\<rparr>)) (a, b)"
    using ok by (auto simp: partition_ok_def unassign_def release_partitions_def all_handled_before_def split: option.splits)
  show "partition_ok (unassign tps (commit_stored (s\<lparr>wk_partitions := release_partitions tps (wk_partitions s)\<rparr>))) (a, b)"
    using ok by (auto simp: partition_ok_def unassign_def commit_stored_def release_partitions_def all_handled_before_def
        split: option.splits)
qed

lemma worker_step_ok: "worker_step hw s s' \<Longrightarrow> worker_ok s \<Longrightarrow> worker_ok s'"
proof (induction rule: worker_step.induct)
  case (produce s tp m)
  then show ?case by (intro produce_ok)
next
  case (on_assign tps s)
  then show ?case by (intro assign_ok)
next
  case (poll s tp p m)
  then show ?case by (intro poll_ok)
next
  case (take s tp st)
  show ?case by (rule worker_ok_task [OF take(4,1) task_ok_take [OF _ take(2)]])
next
  case (handled s tp st m)
  then show ?case by (intro handled_ok)
next
  case (abandoned s tp st m)
  have "task_ok ms d p (after_message hw st)" if "task_ok ms d p st" for ms d p
    using task_ok_ended [OF that] abandoned(3) by (auto simp: after_message_def)
  from worker_ok_task [OF abandoned(4,1) this] show ?case .
next
  case (crashed s tp st m)
  have "task_ok ms d p (st\<lparr>ps_task := Ended\<rparr>)" if "task_ok ms d p st" for ms d p
    using task_ok_ended [OF that] by auto
  from worker_ok_task [OF crashed(3,1) this] show ?case .
next
  case (stop s tps)
  show ?case unfolding worker_ok_def
  proof
    fix tp
    from stop have "partition_ok s tp" unfolding worker_ok_def by (rule spec)
    then show "partition_ok (s\<lparr>wk_partitions := stop_partitions tps (wk_partitions s)\<rparr>) tp"
      by (auto simp: partition_ok_def stop_partitions_def all_handled_before_def task_ok_stop split: option.splits)
  qed
next
  case (revoked s tps)
  then show ?case by (rule release_ok)
next
  case (lost s tps)
  then show ?case by (rule release_ok)
next
  case (auto_commit s tp n)
  show ?case unfolding worker_ok_def
  proof
    fix tp'
    from auto_commit have "partition_ok s tp'" unfolding worker_ok_def by (blast intro: spec)
    with auto_commit(1) show "partition_ok (s\<lparr>wk_committed := (wk_committed s)(tp := n)\<rparr>) tp'"
      by (cases "tp' = tp") (auto simp: partition_ok_def all_handled_before_def split: option.splits)
  qed
next
  case (elsewhere s tp n H)
  show ?case unfolding worker_ok_def
  proof
    fix tp'
    from elsewhere have ok: "partition_ok s tp'" unfolding worker_ok_def by (blast intro: spec)
    show "partition_ok (s\<lparr>wk_committed := (wk_committed s)(tp := n), wk_handled := H\<rparr>) tp'"
    proof (cases "tp' = tp")
      case True
      with ok elsewhere show ?thesis
        by (auto simp: partition_ok_def all_handled_before_def split: option.splits)
    next
      case False
      with ok elsewhere(3) show ?thesis by (auto elim!: partition_ok_frame)
    qed
  qed
qed

lemma worker_reachable_ok: "worker_reachable hw s s' \<Longrightarrow> worker_ok s \<Longrightarrow> worker_ok s'"
  by (induction rule: worker_reachable.induct) (auto dest: worker_step_ok)


text \<open>
  C3: at-least-once delivery, in order. In every state that the worker can reach, however polling,
  tasks, crashes, rebalances and the other consumers of the group interleave, an offset is committed
  only when every earlier message of its partition has been handled, so no message is skipped by a
  restart; and a message is being handled only after every earlier message of its partition.
\<close>

theorem committed_offsets_safe:
  assumes "worker_reachable high_watermark started_worker s" "m \<in> set (wk_log s tp)"
  shows "(km_offset m < wk_committed s tp \<longrightarrow> (tp, km_offset m) \<in> wk_handled s) \<and>
    (\<forall>st m'. wk_partitions s tp = Some st \<longrightarrow> ps_task st = Handling m' \<longrightarrow> km_offset m < km_offset m' \<longrightarrow>
       (tp, km_offset m) \<in> wk_handled s)"
proof -
  from worker_reachable_ok [OF assms(1) started_worker_ok] have ok: "partition_ok s tp"
    unfolding worker_ok_def by (rule spec)
  have "(tp, km_offset m) \<in> wk_handled s"
    if st: "wk_partitions s tp = Some st" "ps_task st = Handling m'" "km_offset m < km_offset m'" for st m'
  proof -
    from ok st(1) obtain p where "task_ok (wk_log s tp) (\<lambda>n. (tp, n) \<in> wk_handled s) p st"
      by (auto simp: partition_ok_def split: option.splits)
    from first_pending [OF this st(2) assms(2) st(3)] show ?thesis .
  qed
  with ok assms(2) show ?thesis by (auto simp: partition_ok_def all_handled_before_def)
qed

section \<open>Backpressure\<close>

definition backlog_ok :: "nat \<Rightarrow> partition_state \<Rightarrow> bool" where
  "backlog_ok high_watermark st \<longleftrightarrow>
     length (ps_queue st) \<le> high_watermark \<and>
     (\<not> ps_paused st \<and> \<not> ps_stopping st \<longrightarrow> length (ps_queue st) < high_watermark) \<and>
     (ps_paused st \<and> ps_task st = Waiting \<and> \<not> ps_stopping st \<longrightarrow> high_watermark div 2 < length (ps_queue st))"

definition backlogs_ok :: "nat \<Rightarrow> partitions \<Rightarrow> bool" where
  "backlogs_ok high_watermark ps \<longleftrightarrow> (\<forall>tp st. ps tp = Some st \<longrightarrow> backlog_ok high_watermark st)"

lemma backlog_enqueue:
  "1 \<le> hw \<Longrightarrow> backlog_ok hw st \<Longrightarrow> \<not> ps_paused st \<Longrightarrow> \<not> ps_stopping st \<Longrightarrow> backlog_ok hw (enqueue hw m st)"
  by (auto simp: backlog_ok_def enqueue_def Let_def)

lemma backlog_take: "backlog_ok hw st \<Longrightarrow> backlog_ok hw (take_message st)"
  by (auto simp: backlog_ok_def take_message_def split: list.splits option.splits)

lemma backlog_after: "1 \<le> hw \<Longrightarrow> backlog_ok hw st \<Longrightarrow> backlog_ok hw (after_message hw st)"
  by (auto simp: backlog_ok_def after_message_def)

lemma backlog_ended: "backlog_ok hw st \<Longrightarrow> backlog_ok hw (st\<lparr>ps_task := Ended\<rparr>)"
  by (simp add: backlog_ok_def)

lemma backlog_stop: "1 \<le> hw \<Longrightarrow> backlog_ok hw (request_stop st)"
  by (simp add: backlog_ok_def request_stop_def)

lemma backlog_new: "1 \<le> hw \<Longrightarrow> backlog_ok hw new_partition"
  by (simp add: backlog_ok_def new_partition_def)

lemma backlogs_update: "backlogs_ok hw ps \<Longrightarrow> backlog_ok hw st \<Longrightarrow> backlogs_ok hw (ps(tp \<mapsto> st))"
  by (simp add: backlogs_ok_def)

lemma worker_step_backlogs:
  "worker_step hw s s' \<Longrightarrow> worker_ok s \<Longrightarrow> 1 \<le> hw \<Longrightarrow> backlogs_ok hw (wk_partitions s) \<Longrightarrow>
     backlogs_ok hw (wk_partitions s')"
proof (induction rule: worker_step.induct)
  case (on_assign tps s)
  then show ?case by (auto simp: backlogs_ok_def start_partitions_simps backlog_new split: if_splits)
next
  case (poll s tp p m)
  from poll(4) have "log_ok (wk_log s tp) (wk_end s tp) tp" unfolding worker_ok_def partition_ok_def by blast
  with find_sorted [OF _ poll(2)] have part: "partition_of m = tp" by (simp add: log_ok_def)
  show ?case
  proof (cases "wk_partitions s tp")
    case (Some st)
    with poll(6) have "backlog_ok hw st" unfolding backlogs_ok_def by blast
    with Some poll(3,5,6) show ?thesis
      by (auto simp: dispatch_def part intro!: backlogs_update backlog_enqueue)
  qed (use poll in \<open>simp add: dispatch_def part\<close>)
next
  case (take s tp st)
  then show ?case by (auto simp: backlogs_ok_def intro: backlog_take)
next
  case (handled s tp st m)
  then show ?case
    by (auto simp: backlogs_ok_def store_offset_def intro: backlog_after split: option.splits)
next
  case (abandoned s tp st m)
  then show ?case by (auto simp: backlogs_ok_def intro: backlog_after)
next
  case (crashed s tp st m)
  then show ?case by (auto simp: backlogs_ok_def intro: backlog_ended)
next
  case (stop s tps)
  then show ?case by (auto simp: backlogs_ok_def stop_partitions_def backlog_stop split: if_splits)
next
  case (revoked s tps)
  then show ?case
    by (auto simp: backlogs_ok_def unassign_def commit_stored_def release_partitions_def split: if_splits)
next
  case (lost s tps)
  then show ?case by (auto simp: backlogs_ok_def unassign_def release_partitions_def split: if_splits)
qed auto


lemma worker_reachable_backlogs:
  "worker_reachable hw s s' \<Longrightarrow> worker_ok s \<Longrightarrow> 1 \<le> hw \<Longrightarrow> backlogs_ok hw (wk_partitions s) \<Longrightarrow>
     backlogs_ok hw (wk_partitions s')"
  by (induction rule: worker_reachable.induct) (auto dest: worker_step_backlogs worker_reachable_ok)

text \<open>
  C18: backpressure neither overflows nor deadlocks. In every reachable state the queue of a partition
  holds at most \<open>WORKER_PARTITION_HIGH_WATERMARK\<close> messages, and fewer while the partition is not
  paused; and a paused partition whose task is idle has more than half of that queued, so the task goes
  on and the partition is resumed: it is never left paused with nothing to do.
\<close>

theorem backpressure_safe:
  assumes "worker_reachable high_watermark started_worker s" "1 \<le> high_watermark"
    and "wk_partitions s tp = Some st"
  shows "length (ps_queue st) \<le> high_watermark \<and>
    (\<not> ps_paused st \<and> \<not> ps_stopping st \<longrightarrow> length (ps_queue st) < high_watermark) \<and>
    (ps_paused st \<and> ps_task st = Waiting \<and> \<not> ps_stopping st \<longrightarrow>
       high_watermark div 2 < length (ps_queue st) \<and> (\<exists>s'. worker_step high_watermark s s' \<and> s' \<noteq> s))"
proof -
  have "backlogs_ok high_watermark (wk_partitions started_worker)" by (simp add: backlogs_ok_def started_worker_def)
  from worker_reachable_backlogs [OF assms(1) started_worker_ok assms(2) this] assms(3)
  have ok: "backlog_ok high_watermark st" unfolding backlogs_ok_def by blast
  have "\<exists>s'. worker_step high_watermark s s' \<and> s' \<noteq> s" if "ps_task st = Waiting" "ps_queue st \<noteq> []"
  proof -
    let ?s' = "s\<lparr>wk_partitions := (wk_partitions s)(tp \<mapsto> take_message st)\<rparr>"
    from that have "length (ps_queue (take_message st)) < length (ps_queue st)"
      by (auto simp: take_message_def split: list.splits option.splits)
    then have "wk_partitions ?s' tp \<noteq> wk_partitions s tp" using assms(3) by auto
    then have "?s' \<noteq> s" by metis
    with worker_step.take [OF assms(3) that] show ?thesis by blast
  qed
  moreover have "ps_queue st \<noteq> []" if "high_watermark div 2 < length (ps_queue st)" using that by auto
  ultimately show ?thesis using ok unfolding backlog_ok_def by blast
qed

section \<open>Group membership\<close>

text \<open>
  The checks of a consumer that is outside its group: the worker exits at the first one that comes more
  than the allowed time after the last check in the group, not earlier.
\<close>

fun absent_checks :: "rat \<Rightarrow> rat \<Rightarrow> rat list \<Rightarrow> rat option" where
  "absent_checks max_absence last_member [] = Some last_member"
| "absent_checks max_absence last_member (now # checks) =
     (case check_group_membership max_absence False now last_member of
        None \<Rightarrow> None | Some t \<Rightarrow> absent_checks max_absence t checks)"

lemma absent_checks_exit:
  "absent_checks max_absence last_member checks =
     (if \<exists>t \<in> set checks. t - last_member > max_absence then None else Some last_member)"
  by (induction checks) (auto simp: check_group_membership_def)

section \<open>Examples\<close>

definition example_tp :: topic_partition where
  "example_tp = (''transactions'', 3)"

definition tp_message :: kafka_message where
  "tp_message = \<lparr>km_topic = ''transactions'', km_partition = 3, km_offset = 41, km_timestamp = (1, 5),
     km_key = None, km_value = Some ''{}''\<rparr>"

text \<open>One message is produced, polled (which pauses the partition at a watermark of 1), taken, handled and committed.\<close>

lemma example_run:
  obtains s s' st where "worker_reachable 1 started_worker s" "wk_partitions s example_tp = Some st" "ps_paused st"
    "ps_task st = Waiting" "\<not> ps_stopping st" "worker_reachable 1 started_worker s'" "tp_message \<in> set (wk_log s' example_tp)"
    "km_offset tp_message < wk_committed s' example_tp"
proof -
  define s1 where "s1 = started_worker\<lparr>wk_log := (wk_log started_worker)(example_tp := [tp_message]),
    wk_end := (wk_end started_worker)(example_tp := 42)\<rparr>"
  have "worker_step 1 started_worker s1"
    using worker_step.produce [of started_worker example_tp tp_message 1]
    by (simp add: s1_def started_worker_def tp_message_def partition_of_def example_tp_def)
  from worker_next [OF worker_start this] have r1: "worker_reachable 1 started_worker s1" .
  define s2 where "s2 = s1\<lparr>wk_position := (\<lambda>tp. if tp \<in> set [example_tp] then Some (wk_committed s1 tp) else wk_position s1 tp),
    wk_partitions := start_partitions [example_tp] (wk_partitions s1)\<rparr>"
  have "worker_step 1 s1 s2" unfolding s2_def
    by (rule worker_step.on_assign) (simp add: s1_def started_worker_def)
  from worker_next [OF r1 this] have r2: "worker_reachable 1 started_worker s2" .
  define s3 where "s3 = s2\<lparr>wk_position := (wk_position s2)(example_tp \<mapsto> km_offset tp_message + 1),
    wk_partitions := dispatch 1 tp_message (wk_partitions s2)\<rparr>"
  have "worker_step 1 s2 s3" unfolding s3_def
    by (rule worker_step.poll [where p = 0])
      (simp_all add: s2_def s1_def started_worker_def tp_message_def start_partitions_simps new_partition_def)
  from worker_next [OF r2 this] have r3: "worker_reachable 1 started_worker s3" .
  define st where "st = \<lparr>ps_queue = [Some tp_message], ps_stopping = False, ps_task = Waiting, ps_paused = True\<rparr>"
  have p3: "wk_partitions s3 example_tp = Some st"
    by (simp add: s3_def s2_def s1_def started_worker_def dispatch_def partition_of_def tp_message_def example_tp_def
        start_partitions_simps new_partition_def enqueue_def st_def)
  define s4 where "s4 = s3\<lparr>wk_partitions := (wk_partitions s3)(example_tp \<mapsto> take_message st)\<rparr>"
  have "worker_step 1 s3 s4" unfolding s4_def by (rule worker_step.take [OF p3]) (simp_all add: st_def)
  from worker_next [OF r3 this] have r4: "worker_reachable 1 started_worker s4" .
  have p4: "wk_partitions s4 example_tp = Some (take_message st)" "ps_task (take_message st) = Handling tp_message"
    by (simp_all add: s4_def take_message_def st_def)
  note r5 = worker_next [OF r4 worker_step.handled [OF p4]]
  have position: "wk_position s4 example_tp = Some 42"
    by (simp add: s4_def s3_def tp_message_def)
  note r6 = worker_next [OF r5 worker_step.auto_commit [where tp = example_tp and n = 42]]
  have log: "wk_log s4 example_tp = [tp_message]" by (simp add: s4_def s3_def s2_def s1_def)
  show ?thesis
    by (rule that [OF r3 p3 _ _ _ r6])
      (simp_all add: st_def store_offset_def position log, simp_all add: tp_message_def)
qed

theorem committed_offsets_witness:
  "\<exists>s. worker_reachable 1 started_worker s \<and> km_offset tp_message < wk_committed s example_tp \<and>
     (example_tp, km_offset tp_message) \<in> wk_handled s"
proof -
  obtain s where s: "worker_reachable 1 started_worker s" "tp_message \<in> set (wk_log s example_tp)"
    "km_offset tp_message < wk_committed s example_tp" by (rule example_run)
  from committed_offsets_safe [OF s(1,2)] s show ?thesis by blast
qed

theorem backpressure_witness:
  "\<exists>s st. worker_reachable 1 started_worker s \<and> wk_partitions s example_tp = Some st \<and> ps_paused st \<and>
     length (ps_queue st) \<le> 1 \<and> (\<exists>s'. worker_step 1 s s' \<and> s' \<noteq> s)"
proof -
  obtain s st where s: "worker_reachable 1 started_worker s" "wk_partitions s example_tp = Some st" "ps_paused st"
    "ps_task st = Waiting" "\<not> ps_stopping st" by (rule example_run)
  from backpressure_safe [OF s(1) _ s(2)] s show ?thesis by auto
qed

end
