(* ===== verification/Rate_Limit.thy ===== *)
theory Rate_Limit
  imports Transactions
begin

text \<open>
  The per-caller limit on API requests (\<open>RateLimiter\<close> in \<open>app/rate_limit.py\<close>): a fixed-window counter
  in Redis, shared by all replicas of the API. Redis is modelled by what \<open>INCR\<close> and \<open>EXPIRE\<close> do: an
  entry counts until its expiry on the clock of Redis. The clock of a replica and the one of Redis are
  inputs of each request. SHA-256 is a parameter; times are rationals, in seconds.
\<close>

section \<open>Counters\<close>

record counter =
  ct_count :: int
  ct_expires :: rat

record limiter =
  lm_counters :: "string \<Rightarrow> counter option"
  lm_errors :: nat

text \<open>The MULTI block \<open>INCR key; EXPIRE key seconds\<close>: an expired entry counts as absent.\<close>

definition live_count :: "rat \<Rightarrow> counter option \<Rightarrow> int" where
  "live_count redis_now c = (case c of None \<Rightarrow> 0 | Some c \<Rightarrow> if redis_now < ct_expires c then ct_count c else 0)"

definition incr_expire :: "rat \<Rightarrow> int \<Rightarrow> string \<Rightarrow> (string \<Rightarrow> counter option) \<Rightarrow> (string \<Rightarrow> counter option) \<times> int" where
  "incr_expire redis_now seconds key counters =
     (let count = live_count redis_now (counters key) + 1
      in (counters(key \<mapsto> \<lparr>ct_count = count, ct_expires = redis_now + of_int seconds\<rparr>), count))"

text \<open>The round trip succeeds, fails before Redis acts, or fails after (the answer is lost).\<close>

datatype round_trip = Answered | NotSent | AnswerLost

section \<open>The limiter\<close>

definition bucket_key :: "(string \<Rightarrow> string) \<Rightarrow> string \<Rightarrow> int \<Rightarrow> string" where
  "bucket_key sha subject window = ''fraud:ratelimit:'' @ take 32 (sha subject) @ '':'' @ show_int window"

definition window_of :: "int \<Rightarrow> rat \<Rightarrow> int" where
  "window_of window_seconds now = \<lfloor>now / of_int window_seconds\<rfloor>"

record limits =
  max_requests :: int
  window_seconds :: int

record arrival =
  ar_subject :: string
  ar_now :: rat
  ar_redis_now :: rat
  ar_round_trip :: round_trip

text \<open>\<open>enforce\<close>: \<open>None\<close> admits the request, \<open>Some n\<close> refuses it with \<open>Retry-After: n\<close>.\<close>

definition enforce :: "(string \<Rightarrow> string) \<Rightarrow> limits \<Rightarrow> arrival \<Rightarrow> limiter \<Rightarrow> limiter \<times> int option" where
  "enforce sha l a s =
     (let window = window_of (window_seconds l) (ar_now a);
          key = bucket_key sha (ar_subject a) window;
          (counters, count) = incr_expire (ar_redis_now a) (window_seconds l + 1) key (lm_counters s)
      in case ar_round_trip a of
           NotSent \<Rightarrow> (s\<lparr>lm_errors := lm_errors s + 1\<rparr>, None)
         | AnswerLost \<Rightarrow> (s\<lparr>lm_counters := counters, lm_errors := lm_errors s + 1\<rparr>, None)
         | Answered \<Rightarrow>
             (s\<lparr>lm_counters := counters\<rparr>,
              if count > max_requests l
              then Some (max 1 \<lceil>of_int ((window + 1) * window_seconds l) - ar_now a\<rceil>) else None))"

fun enforce_all :: "(string \<Rightarrow> string) \<Rightarrow> limits \<Rightarrow> arrival list \<Rightarrow> limiter \<Rightarrow> limiter \<times> int option list" where
  "enforce_all sha l [] s = (s, [])"
| "enforce_all sha l (a # as) s =
     (let (s', r) = enforce sha l a s; (s'', rs) = enforce_all sha l as s' in (s'', r # rs))"

definition new_limiter :: limiter where
  "new_limiter = \<lparr>lm_counters = (\<lambda>key. None), lm_errors = 0\<rparr>"

section \<open>The reference: a count of earlier requests\<close>

text \<open>The caller and the window of a request, and the requests that reached Redis before it.\<close>

definition slot :: "limits \<Rightarrow> arrival \<Rightarrow> string \<times> int" where
  "slot l a = (ar_subject a, window_of (window_seconds l) (ar_now a))"

fun admitted_by_count :: "limits \<Rightarrow> (string \<times> int) list \<Rightarrow> arrival list \<Rightarrow> bool list" where
  "admitted_by_count l earlier [] = []"
| "admitted_by_count l earlier (a # as) =
     (ar_round_trip a \<noteq> Answered \<or> int (count_list earlier (slot l a)) < max_requests l) #
     admitted_by_count l (if ar_round_trip a = NotSent then earlier else slot l a # earlier) as"

text \<open>The clocks of the replicas and of Redis agree up to half a second.\<close>

definition clocks_agree :: "arrival \<Rightarrow> bool" where
  "clocks_agree a \<longleftrightarrow> \<bar>ar_now a - ar_redis_now a\<bar> \<le> 1 / 2"

definition digests_ok :: "(string \<Rightarrow> string) \<Rightarrow> string set \<Rightarrow> bool" where
  "digests_ok sha subjects \<longleftrightarrow>
     (\<forall>s \<in> subjects. length (sha s) = 64) \<and> inj_on (\<lambda>s. take 32 (sha s)) subjects"

end
