(* ===== verification/Rate_Limit_Facts.thy ===== *)
theory Rate_Limit_Facts
  imports Rate_Limit
begin

text \<open>
  The shared counters in Redis decide exactly as counting the earlier requests of the caller in the
  same window would, whatever the replicas that serve the requests.
\<close>

section \<open>Keys\<close>

lemma minus_not_digit: "CHR ''-'' \<notin> set (show_nat n)"
  using show_nat_digits [of "CHR ''-''" n] by auto

lemma show_int_inj: "show_int i = show_int j \<longleftrightarrow> i = j"
proof -
  have "CHR ''-'' # s \<noteq> show_nat n" for s n using minus_not_digit [of n] by (metis list.set_intros(1))
  then show ?thesis
    by (auto simp: show_int_def show_nat_inj dest: sym split: if_splits)
qed

lemma bucket_key_inj:
  assumes "digests_ok sha subjects" "s \<in> subjects" "s' \<in> subjects"
  shows "bucket_key sha s w = bucket_key sha s' w' \<longleftrightarrow> s = s' \<and> w = w'"
  using assms by (auto simp: bucket_key_def digests_ok_def show_int_inj dest: inj_onD)

section \<open>Windows\<close>

lemma window_bounds:
  assumes "0 < w"
  shows "of_int (window_of w now * w) \<le> now" "now < of_int ((window_of w now + 1) * w)"
proof -
  have pos: "(0 :: rat) < of_int w" using assms by simp
  have "of_int (window_of w now) \<le> now / of_int w" by (simp add: window_of_def)
  then show "of_int (window_of w now * w) \<le> now" using pos by (simp add: pos_le_divide_eq)
  have "now / of_int w < of_int (window_of w now) + 1" unfolding window_of_def by linarith
  then show "now < of_int ((window_of w now + 1) * w)" using pos by (simp add: pos_divide_less_eq)
qed

lemma window_of_mono: "0 < w \<Longrightarrow> t \<le> t' \<Longrightarrow> window_of w t \<le> window_of w t'"
  unfolding window_of_def by (intro floor_mono divide_right_mono) auto

lemma clocks_agreeD:
  assumes "clocks_agree a"
  shows "ar_redis_now a \<le> ar_now a + 1 / 2" "ar_now a \<le> ar_redis_now a + 1 / 2"
  using assms unfolding clocks_agree_def abs_le_iff by linarith+

section \<open>Counters and counts\<close>

text \<open>
  Every request of a window finds the counter of its window unexpired: it was last touched less than
  \<open>window + 1\<close> seconds earlier on the clock of Redis.
\<close>

definition counter_ok :: "limits \<Rightarrow> int \<Rightarrow> nat \<Rightarrow> counter option \<Rightarrow> bool" where
  "counter_ok l w n c =
     (case c of
        None \<Rightarrow> n = 0
      | Some c \<Rightarrow> ct_count c = int n \<and> of_int ((w + 1) * window_seconds l) + 1 / 2 \<le> ct_expires c)"

definition counters_ok :: "(string \<Rightarrow> string) \<Rightarrow> limits \<Rightarrow> string set \<Rightarrow> (string \<times> int) list \<Rightarrow> limiter \<Rightarrow> bool" where
  "counters_ok sha l subjects earlier s \<longleftrightarrow>
     (\<forall>subject \<in> subjects. \<forall>w.
        counter_ok l w (count_list earlier (subject, w)) (lm_counters s (bucket_key sha subject w)))"

lemma counters_okD:
  assumes "counters_ok sha l subjects earlier s" "0 < window_seconds l"
    and "ar_subject a \<in> subjects" "clocks_agree a"
  shows "live_count (ar_redis_now a)
           (lm_counters s (bucket_key sha (ar_subject a) (window_of (window_seconds l) (ar_now a)))) =
         int (count_list earlier (slot l a))"
proof -
  have "ar_redis_now a < of_int ((window_of (window_seconds l) (ar_now a) + 1) * window_seconds l) + 1 / 2"
    using window_bounds(2) [OF assms(2), of "ar_now a"] clocks_agreeD(1) [OF assms(4)] by linarith
  then show ?thesis
    using assms(1,3) unfolding counters_ok_def counter_ok_def live_count_def slot_def
    by (fastforce split: option.splits)
qed

lemma counters_ok_touch:
  assumes "counters_ok sha l subjects earlier s" "0 < window_seconds l" "digests_ok sha subjects"
    and "ar_subject a \<in> subjects" "clocks_agree a"
    and "lm_counters s' = fst (incr_expire (ar_redis_now a) (window_seconds l + 1)
           (bucket_key sha (ar_subject a) (window_of (window_seconds l) (ar_now a))) (lm_counters s))"
  shows "counters_ok sha l subjects (slot l a # earlier) s'"
proof -
  let ?w = "window_of (window_seconds l) (ar_now a)"
  have "of_int ((?w + 1) * window_seconds l) + 1 / 2 \<le> ar_redis_now a + of_int (window_seconds l + 1)"
    using window_bounds(1) [OF assms(2), of "ar_now a"] clocks_agreeD(2) [OF assms(5)]
    by (simp add: distrib_right)
  note later = this
  have other: "count_list (slot l a # earlier) (subject, w) = count_list earlier (subject, w)"
    if "subject \<noteq> ar_subject a \<or> w \<noteq> ?w" for subject w
    using that by (auto simp: slot_def)
  show ?thesis
    unfolding counters_ok_def
  proof (intro ballI allI)
    fix subject w assume "subject \<in> subjects"
    then show "counter_ok l w (count_list (slot l a # earlier) (subject, w)) (lm_counters s' (bucket_key sha subject w))"
      using assms(1) counters_okD [OF assms(1,2,4,5)] bucket_key_inj [OF assms(3) _ assms(4)] later other [of subject w]
      by (cases "subject = ar_subject a \<and> w = ?w")
        (auto simp: counters_ok_def assms(6) incr_expire_def Let_def slot_def counter_ok_def [of _ _ _ "Some _"])
  qed
qed

lemma counters_ok_new: "counters_ok sha l subjects [] new_limiter"
  by (simp add: counters_ok_def counter_ok_def new_limiter_def)

lemma enforce_all_admits:
  assumes "counters_ok sha l subjects earlier s" "0 < window_seconds l" "digests_ok sha subjects"
    and "\<And>a. a \<in> set as \<Longrightarrow> ar_subject a \<in> subjects \<and> clocks_agree a"
  shows "map (\<lambda>r. r = None) (snd (enforce_all sha l as s)) = admitted_by_count l earlier as"
  using assms(1,4)
proof (induction as arbitrary: s earlier)
  case (Cons a as)
  from Cons.prems have a: "ar_subject a \<in> subjects" "clocks_agree a" by auto
  note live = counters_okD [OF Cons.prems(1) assms(2) a]
  note touch = counters_ok_touch [OF Cons.prems(1) assms(2,3) a]
  obtain s' r where e: "enforce sha l a s = (s', r)" by (cases "enforce sha l a s")
  have first: "r = None \<longleftrightarrow> ar_round_trip a \<noteq> Answered \<or> int (count_list earlier (slot l a)) < max_requests l"
    using e live by (auto simp: enforce_def incr_expire_def Let_def split: round_trip.splits if_splits)
  have next_ok: "counters_ok sha l subjects (if ar_round_trip a = NotSent then earlier else slot l a # earlier) s'"
  proof (cases "ar_round_trip a")
    case NotSent
    then show ?thesis
      using e Cons.prems(1) by (auto simp: enforce_def counters_ok_def Let_def incr_expire_def)
  qed (use e in \<open>auto simp: enforce_def Let_def incr_expire_def intro!: touch\<close>)
  have "map (\<lambda>r. r = None) (snd (enforce_all sha l as s')) =
      admitted_by_count l (if ar_round_trip a = NotSent then earlier else slot l a # earlier) as"
    by (rule Cons.IH [OF next_ok]) (use Cons.prems in auto)
  then show ?case using first by (cases "enforce_all sha l as s'") (simp add: e)
qed simp

text \<open>The advice of a refusal.\<close>

lemma enforce_retry_after:
  assumes "enforce sha l a s = (s', Some n)" "0 < window_seconds l"
  shows "1 \<le> n" "n \<le> window_seconds l"
    "window_of (window_seconds l) (ar_now a) < window_of (window_seconds l) (ar_now a + of_int n)"
proof -
  let ?w = "window_of (window_seconds l) (ar_now a)"
  let ?left = "of_int ((?w + 1) * window_seconds l) - ar_now a"
  note b = window_bounds [OF assms(2), of "ar_now a"]
  from assms(1) have n: "n = max 1 \<lceil>?left\<rceil>"
    by (auto simp: enforce_def Let_def incr_expire_def split: round_trip.splits if_splits)
  then show "1 \<le> n" by simp
  have "?left \<le> of_int (window_seconds l)" using b(1) by (simp add: algebra_simps)
  then show "n \<le> window_seconds l" using n assms(2) by (simp add: ceiling_le_iff)
  have "?left \<le> of_int n" using n by (simp add: le_of_int_ceiling le_max_iff_disj flip: of_int_le_iff) linarith
  then have "of_int ((?w + 1) * window_seconds l) \<le> ar_now a + of_int n" by linarith
  then have "of_int (?w + 1) \<le> (ar_now a + of_int n) / of_int (window_seconds l)"
    using assms(2) by (simp add: pos_le_divide_eq)
  then show "?w < window_of (window_seconds l) (ar_now a + of_int n)"
    unfolding window_of_def [of _ "ar_now a + of_int n"] by (simp only: less_floor_iff of_int_add of_int_1)
qed

section \<open>The budget\<close>

definition admitted_in :: "(arrival \<Rightarrow> bool) \<Rightarrow> (arrival \<times> bool) list \<Rightarrow> nat" where
  "admitted_in P served =
     length (filter (\<lambda>(a, admitted). admitted \<and> ar_round_trip a = Answered \<and> P a) served)"

lemma admitted_in_split:
  "(\<And>a. P a \<Longrightarrow> Q a \<or> R a) \<Longrightarrow> admitted_in P served \<le> admitted_in Q served + admitted_in R served"
  by (induction served) (auto simp: admitted_in_def)

lemma slot_budget:
  "int (admitted_in (\<lambda>a. slot l a = k) (zip as (admitted_by_count l earlier as))) \<le>
     max 0 (max_requests l - int (count_list earlier k))"
proof (induction as arbitrary: earlier)
  case (Cons a as)
  show ?case
    using Cons.IH [of "if ar_round_trip a = NotSent then earlier else slot l a # earlier"]
    by (auto simp: admitted_in_def split: if_splits)
qed (simp add: admitted_in_def)

lemma interval_budget:
  assumes "0 < window_seconds l" "0 \<le> max_requests l"
  shows "int (admitted_in (\<lambda>a. ar_subject a = subject \<and> t \<le> ar_now a \<and> ar_now a < t + of_int (window_seconds l))
           (zip as (admitted_by_count l [] as))) \<le> 2 * max_requests l"
    (is "int (admitted_in ?P ?served) \<le> _")
proof -
  let ?w = "window_of (window_seconds l) t"
  have "slot l a = (subject, ?w) \<or> slot l a = (subject, ?w + 1)" if "?P a" for a
  proof -
    have "window_of (window_seconds l) (t + of_int (window_seconds l)) = ?w + 1"
      using assms(1) by (simp add: window_of_def add_divide_distrib)
    then show ?thesis
      using that window_of_mono [OF assms(1), of t "ar_now a"]
        window_of_mono [OF assms(1), of "ar_now a" "t + of_int (window_seconds l)"]
      by (auto simp: slot_def)
  qed
  from admitted_in_split [of ?P "\<lambda>a. slot l a = (subject, ?w)" "\<lambda>a. slot l a = (subject, ?w + 1)", OF this]
  have "admitted_in ?P ?served \<le> admitted_in (\<lambda>a. slot l a = (subject, ?w)) ?served +
      admitted_in (\<lambda>a. slot l a = (subject, ?w + 1)) ?served" .
  then show ?thesis
    using slot_budget [of l "(subject, ?w)" as "[]"] slot_budget [of l "(subject, ?w + 1)" as "[]"] assms(2)
    by simp
qed

lemma enforce_all_nth:
  assumes "snd (enforce_all sha l as s) ! i = Some n" "i < length as" "0 < window_seconds l"
  shows "1 \<le> n \<and> n \<le> window_seconds l \<and>
    window_of (window_seconds l) (ar_now (as ! i)) < window_of (window_seconds l) (ar_now (as ! i) + of_int n)"
  using assms(1,2)
proof (induction as arbitrary: s i)
  case (Cons a as)
  obtain s' r where e: "enforce sha l a s = (s', r)" by (cases "enforce sha l a s")
  show ?case
  proof (cases i)
    case 0
    then have "r = Some n" using Cons.prems(1) by (simp add: e split: prod.splits)
    then show ?thesis using enforce_retry_after [OF e [simplified \<open>r = Some n\<close>] assms(3)] 0 by simp
  next
    case (Suc j)
    then show ?thesis using Cons.prems Cons.IH [of s' j] by (simp add: e split: prod.splits)
  qed
qed simp

text \<open>
  C14: the shared Redis counters limit exactly like counting. When the replicas' clocks agree with the
  one of Redis up to half a second, a request is refused precisely when its caller already made
  \<open>RATE_LIMIT_REQUESTS\<close> requests in the same window that reached Redis; a request is admitted whenever
  Redis fails. So at most twice the limit is admitted in any period as long as a window, and a refused
  caller that waits \<open>Retry-After\<close> seconds (at most one window) is in a new window.
\<close>

theorem rate_limit_exact:
  assumes "0 < window_seconds l" "0 \<le> max_requests l" "digests_ok sha subjects"
    and "\<And>a. a \<in> set as \<Longrightarrow> ar_subject a \<in> subjects \<and> clocks_agree a"
  shows "map (\<lambda>r. r = None) (snd (enforce_all sha l as new_limiter)) = admitted_by_count l [] as \<and>
    int (admitted_in (\<lambda>a. ar_subject a = subject \<and> t \<le> ar_now a \<and> ar_now a < t + of_int (window_seconds l))
           (zip as (map (\<lambda>r. r = None) (snd (enforce_all sha l as new_limiter))))) \<le> 2 * max_requests l \<and>
    (\<forall>i < length as. \<forall>n. snd (enforce_all sha l as new_limiter) ! i = Some n \<longrightarrow>
       1 \<le> n \<and> n \<le> window_seconds l \<and>
       window_of (window_seconds l) (ar_now (as ! i)) < window_of (window_seconds l) (ar_now (as ! i) + of_int n))"
proof -
  have "map (\<lambda>r. r = None) (snd (enforce_all sha l as new_limiter)) = admitted_by_count l [] as"
    by (rule enforce_all_admits [OF counters_ok_new assms(1,3,4)])
  then show ?thesis using interval_budget [OF assms(1,2)] enforce_all_nth [OF _ _ assms(1)] by auto
qed

text \<open>Two replicas, three requests of one caller, one of another, with a limit of two a minute.\<close>

definition example_arrivals :: "arrival list" where
  "example_arrivals =
     [\<lparr>ar_subject = ''alice'', ar_now = 59, ar_redis_now = 59, ar_round_trip = Answered\<rparr>,
      \<lparr>ar_subject = ''alice'', ar_now = 119 / 2, ar_redis_now = 60, ar_round_trip = Answered\<rparr>,
      \<lparr>ar_subject = ''bob'', ar_now = 119 / 2, ar_redis_now = 60, ar_round_trip = NotSent\<rparr>,
      \<lparr>ar_subject = ''alice'', ar_now = 119 / 2, ar_redis_now = 60, ar_round_trip = Answered\<rparr>,
      \<lparr>ar_subject = ''alice'', ar_now = 121 / 2, ar_redis_now = 60, ar_round_trip = Answered\<rparr>]"

definition example_sha :: "string \<Rightarrow> string" where
  "example_sha s = take 64 (s @ replicate 64 CHR ''0'')"

lemma rate_limit_exact_witness:
  "map (\<lambda>r. r = None)
     (snd (enforce_all example_sha \<lparr>max_requests = 2, window_seconds = 60\<rparr> example_arrivals new_limiter)) =
   [True, True, True, False, True]"
proof -
  have "digests_ok example_sha {''alice'', ''bob''}"
    by (auto simp: digests_ok_def example_sha_def inj_on_def)
  moreover have "ar_subject a \<in> {''alice'', ''bob''} \<and> clocks_agree a" if "a \<in> set example_arrivals" for a
    using that by (auto simp: example_arrivals_def clocks_agree_def)
  ultimately have "map (\<lambda>r. r = None)
      (snd (enforce_all example_sha \<lparr>max_requests = 2, window_seconds = 60\<rparr> example_arrivals new_limiter)) =
    admitted_by_count \<lparr>max_requests = 2, window_seconds = 60\<rparr> [] example_arrivals"
    using rate_limit_exact [of "\<lparr>max_requests = 2, window_seconds = 60\<rparr>" example_sha "{''alice'', ''bob''}"
        example_arrivals] by simp
  moreover have "\<lfloor>59 / 60 :: rat\<rfloor> = 0" "\<lfloor>119 / 120 :: rat\<rfloor> = 0" "\<lfloor>121 / 120 :: rat\<rfloor> = 1"
    by (simp_all add: floor_eq_iff)
  ultimately show ?thesis by (simp only:) (simp add: example_arrivals_def slot_def window_of_def)
qed


end
