(* ===== verification/Page_Cursor.thy ===== *)
theory Page_Cursor
  imports Processing
begin

text \<open>
  The text of a page cursor (\<open>PageCursor.encode\<close> and \<open>PageCursor.decode\<close> in \<open>app/database.py\<close>): URL-safe
  base64, without padding, of a small JSON object. Base64 is written out as Python's \<open>base64\<close> module
  computes it, with its tolerance of foreign characters; the readers of JSON, dates and UUIDs are
  parameters.
\<close>

section \<open>Base64\<close>

definition b64_char :: "nat \<Rightarrow> char" where
  "b64_char n =
     (if n < 26 then char_of (65 + n) else if n < 52 then char_of (71 + n) else if n < 62 then char_of (n - 4)
      else if n = 62 then CHR ''-'' else CHR ''_'')"

text \<open>\<open>urlsafe_b64decode\<close> maps \<open>-\<close> and \<open>_\<close> to the standard alphabet, whose own \<open>+\<close> and \<open>/\<close> stay valid.\<close>

definition b64_value :: "char \<Rightarrow> nat option" where
  "b64_value c =
     (let n = of_char c
      in if 65 \<le> n \<and> n \<le> 90 then Some (n - 65)
         else if 97 \<le> n \<and> n \<le> 122 then Some (n - 71)
         else if 48 \<le> n \<and> n \<le> 57 then Some (n + 4)
         else if c = CHR ''-'' \<or> c = CHR ''+'' then Some 62
         else if c = CHR ''_'' \<or> c = CHR ''/'' then Some 63 else None)"

fun b64encode :: "string \<Rightarrow> string" where
  "b64encode [] = []"
| "b64encode [a] = [b64_char (of_char a div 4), b64_char (of_char a mod 4 * 16), CHR ''='', CHR ''='']"
| "b64encode [a, b] =
     [b64_char (of_char a div 4), b64_char (of_char a mod 4 * 16 + of_char b div 16), b64_char (of_char b mod 16 * 4), CHR ''='']"
| "b64encode (a # b # c # s) =
     b64_char (of_char a div 4) # b64_char (of_char a mod 4 * 16 + of_char b div 16) #
     b64_char (of_char b mod 16 * 4 + of_char c div 64) # b64_char (of_char c mod 64) # b64encode s"

text \<open>
  The loop of \<open>binascii.a2b_base64\<close>: position in the group of four, bits left over, padding seen so far.
  Characters outside the alphabet are skipped; enough padding ends the text; \<open>None\<close> is \<open>binascii.Error\<close>.
\<close>

fun b64decode_from :: "nat \<Rightarrow> nat \<Rightarrow> nat \<Rightarrow> string \<Rightarrow> string option" where
  "b64decode_from q left pads [] = (if q = 0 then Some [] else None)"
| "b64decode_from q left pads (c # cs) =
     (if c = CHR ''='' then
        (if 2 \<le> q \<and> 4 \<le> q + (pads + 1) then Some []
         else b64decode_from q left (if 2 \<le> q then pads + 1 else pads) cs)
      else
        (case b64_value c of
           None \<Rightarrow> b64decode_from q left pads cs
         | Some v \<Rightarrow>
             if q = 0 then b64decode_from 1 v 0 cs
             else if q = 1 then map_option ((#) (char_of (left * 4 + v div 16))) (b64decode_from 2 (v mod 16) 0 cs)
             else if q = 2 then map_option ((#) (char_of (left * 16 + v div 4))) (b64decode_from 3 (v mod 4) 0 cs)
             else map_option ((#) (char_of (left * 64 + v))) (b64decode_from 0 0 0 cs)))"

definition urlsafe_b64decode :: "string \<Rightarrow> string option" where
  "urlsafe_b64decode s = b64decode_from 0 0 0 s"

section \<open>Cursors\<close>

text \<open>What the repository does not define: \<open>json.loads\<close>, \<open>isoformat\<close> and its inverse, \<open>UUID\<close> of a text.\<close>

record cursor_externals =
  cx_loads :: "string \<Rightarrow> json option"
  cx_isoformat :: "int \<Rightarrow> string"
  cx_fromisoformat :: "string \<Rightarrow> int option"
  cx_uuid :: "string \<Rightarrow> uuid option"

definition cursor_json :: "string \<Rightarrow> string \<Rightarrow> string" where
  "cursor_json t i =
     CHR ''{'' # dump_string ''o'' @ '': '' @ dump_string t @ '', '' @ dump_string ''t'' @ '': '' @ dump_string i @ ''}''"

definition encode_cursor :: "cursor_externals \<Rightarrow> page_cursor \<Rightarrow> string" where
  "encode_cursor cx c =
     rev (dropWhile (\<lambda>x. x = CHR ''='')
       (rev (b64encode (cursor_json (cx_isoformat cx (fst c)) (show_uuid (snd c))))))"

text \<open>\<open>decode\<close> raises \<open>ValueError\<close>, or the \<open>AttributeError\<close> of \<open>UUID\<close> for a value that is not a text.\<close>

datatype cursor_error = MalformedCursor | CursorCrashed

definition padded :: "string \<Rightarrow> string" where
  "padded token = token @ replicate (nat (- int (length token) mod 4)) CHR ''=''"

definition decode_cursor :: "cursor_externals \<Rightarrow> string \<Rightarrow> cursor_error + page_cursor" where
  "decode_cursor cx token =
     (if list_ex (\<lambda>c. (128 :: nat) \<le> of_char c) token then Inl MalformedCursor
      else
        err_bind (err_of_option MalformedCursor (urlsafe_b64decode (padded token)))
          (\<lambda>bytes.
             case cx_loads cx bytes of
               Some (JDict kvs) \<Rightarrow>
                 err_bind (case map_of kvs ''o'' of
                             Some (JStr s) \<Rightarrow> err_of_option MalformedCursor (cx_fromisoformat cx s)
                           | _ \<Rightarrow> Inl MalformedCursor)
                   (\<lambda>t. case map_of kvs ''t'' of
                          None \<Rightarrow> Inl MalformedCursor
                        | Some (JStr s) \<Rightarrow> err_bind (err_of_option MalformedCursor (cx_uuid cx s)) (\<lambda>i. Inr (t, i))
                        | Some JNull \<Rightarrow> Inl MalformedCursor
                        | Some _ \<Rightarrow> Inl CursorCrashed)
             | _ \<Rightarrow> Inl MalformedCursor))"

text \<open>A cursor of a row: a \<open>datetime\<close> and a UUID.\<close>

definition cursor_ok :: "page_cursor \<Rightarrow> bool" where
  "cursor_ok c \<longleftrightarrow> datetime_ok (fst c) \<and> snd c < 2 ^ 128"

definition cursor_externals_ok :: "cursor_externals \<Rightarrow> bool" where
  "cursor_externals_ok cx \<longleftrightarrow>
     (\<forall>c. cursor_ok c \<longrightarrow>
        cx_loads cx (cursor_json (cx_isoformat cx (fst c)) (show_uuid (snd c))) =
          Some (JDict [(''o'', JStr (cx_isoformat cx (fst c))), (''t'', JStr (show_uuid (snd c)))]) \<and>
        cx_fromisoformat cx (cx_isoformat cx (fst c)) = Some (fst c) \<and>
        cx_uuid cx (show_uuid (snd c)) = Some (snd c))"

section \<open>A cursor survives its text\<close>

lemma b64_value_char: "n < 64 \<Longrightarrow> b64_value (b64_char n) = Some n"
  by (auto simp: b64_value_def b64_char_def Let_def)

lemma b64_char_ascii:
  assumes "n < 64"
  shows "b64_char n \<noteq> CHR ''=''" "CHR ''='' \<noteq> b64_char n" "(of_char (b64_char n) :: nat) < 128"
proof -
  have "b64_value CHR ''='' = None" by (simp add: b64_value_def)
  then show "b64_char n \<noteq> CHR ''=''" using b64_value_char [OF assms] by auto
  then show "CHR ''='' \<noteq> b64_char n" by simp
  show "(of_char (b64_char n) :: nat) < 128" using assms by (auto simp: b64_char_def)
qed

lemma byte_parts:
  "(of_char c :: nat) div 4 < 64" "(of_char c :: nat) div 16 < 16" "(of_char c :: nat) div 64 < 4"
  using nat_of_char_less_256 [of c] by (auto intro: less_mult_imp_div_less)

lemma six_bits:
  "(of_char a :: nat) mod 4 * 16 < 64" "(of_char b :: nat) mod 16 * 4 < 64" "(of_char c :: nat) mod 64 < 64"
  "(of_char a :: nat) mod 4 * 16 + of_char b div 16 < 64"
  "(of_char b :: nat) mod 16 * 4 + of_char c div 64 < 64"
proof -
  have "(of_char a :: nat) mod 4 < 4" "(of_char b :: nat) mod 16 < 16" by simp_all
  then show "(of_char a :: nat) mod 4 * 16 < 64" "(of_char b :: nat) mod 16 * 4 < 64"
    "(of_char a :: nat) mod 4 * 16 + of_char b div 16 < 64"
    "(of_char b :: nat) mod 16 * 4 + of_char c div 64 < 64"
    using byte_parts(2) [of b] byte_parts(3) [of c] by linarith+
qed simp

lemma high_bits:
  "(of_char c :: nat) div 16 div 16 = 0" "(of_char c :: nat) div 16 mod 16 = of_char c div 16"
  "(of_char c :: nat) div 64 div 4 = 0" "(of_char c :: nat) div 64 mod 4 = of_char c div 64"
  using byte_parts(2,3) [of c] by simp_all

lemmas b64_simps = b64_value_char b64_char_ascii byte_parts six_bits high_bits

lemma b64_roundtrip: "urlsafe_b64decode (b64encode s) = Some s"
  unfolding urlsafe_b64decode_def
  by (induction s rule: b64encode.induct) (simp_all add: b64_simps)

lemma b64_shape:
  "\<exists>t n. b64encode s = t @ replicate n CHR ''='' \<and> CHR ''='' \<notin> set t \<and> n \<le> 2 \<and> (length t + n) mod 4 = 0 \<and>
     list_all (\<lambda>c. (of_char c :: nat) < 128) t"
proof (induction s rule: b64encode.induct)
  case (2 a)
  show ?case
    by (rule exI [of _ "[b64_char (of_char a div 4), b64_char (of_char a mod 4 * 16)]"], rule exI [of _ "Suc (Suc 0)"])
      (simp add: b64_simps)
next
  case (3 a b)
  show ?case
    by (rule exI [of _ "[b64_char (of_char a div 4), b64_char (of_char a mod 4 * 16 + of_char b div 16), b64_char (of_char b mod 16 * 4)]"],
        rule exI [of _ "Suc 0"])
      (simp add: b64_simps)
next
  case (4 a b c s)
  then obtain t n where t: "b64encode s = t @ replicate n CHR ''=''" "CHR ''='' \<notin> set t" "n \<le> 2"
      "(length t + n) mod 4 = 0" "list_all (\<lambda>c. (of_char c :: nat) < 128) t"
    by (elim exE conjE) (rule that)
  have "(4 + length t + n) mod 4 = 0" using t(4) by presburger
  then show ?case using t
    by (intro exI [of _ "[b64_char (of_char a div 4), b64_char (of_char a mod 4 * 16 + of_char b div 16),
          b64_char (of_char b mod 16 * 4 + of_char c div 64), b64_char (of_char c mod 64)] @ t"] exI [of _ n])
      (auto simp: b64_simps)
qed simp

lemma stripped_padded:
  assumes "CHR ''='' \<notin> set t" "n \<le> 2" "(length t + n) mod 4 = 0"
  shows "rev (dropWhile (\<lambda>x. x = CHR ''='') (rev (t @ replicate n CHR ''=''))) = t"
    "padded t = t @ replicate n CHR ''=''"
proof -
  have "dropWhile (\<lambda>x. x = CHR ''='') (rev t) = rev t"
    using assms(1) by (cases "rev t") (auto simp: rev_swap)
  moreover have "dropWhile (\<lambda>x. x = CHR ''='') (replicate n CHR ''='' @ u) = dropWhile (\<lambda>x. x = CHR ''='') u" for u
    by (rule dropWhile_append2) simp
  ultimately show "rev (dropWhile (\<lambda>x. x = CHR ''='') (rev (t @ replicate n CHR ''=''))) = t"
    by simp
  have "nat (- int (length t) mod 4) = n" 
  proof -
    obtain k where "length t + n = 4 * k" using assms(3) by blast
    then have "- int (length t) = int n + 4 * (- int k)" by linarith
    then show ?thesis using assms(2) by (simp only: mod_mult_self2) simp
  qed
  then show "padded t = t @ replicate n CHR ''=''" by (simp add: padded_def)
qed

lemma cursor_roundtrip:
  assumes "cursor_externals_ok cx" "cursor_ok c"
  shows "decode_cursor cx (encode_cursor cx c) = Inr c"
proof -
  let ?raw = "cursor_json (cx_isoformat cx (fst c)) (show_uuid (snd c))"
  obtain t n where t: "b64encode ?raw = t @ replicate n CHR ''=''" "CHR ''='' \<notin> set t" "n \<le> 2"
      "(length t + n) mod 4 = 0" "list_all (\<lambda>c. (of_char c :: nat) < 128) t"
    using b64_shape [of ?raw] by (elim exE conjE) (rule that)
  note strip = stripped_padded [OF t(2-4)]
  have token: "encode_cursor cx c = t" by (simp only: encode_cursor_def t(1) strip(1))
  have "urlsafe_b64decode (padded t) = Some ?raw"
    by (simp only: strip(2) t(1) [symmetric] b64_roundtrip)
  then show ?thesis
    using assms t(5) unfolding token
    by (cases c) (auto simp: decode_cursor_def cursor_externals_ok_def err_of_option_def list_ex_iff list_all_iff not_le)
qed

end
