(* ===== verification/Security.thy ===== *)
theory Security
  imports Rate_Limit Events
begin

text \<open>
  Authentication and authorisation of API callers (\<open>app/security.py\<close>): signing keys from a JWKS endpoint
  with a throttle, verification of a bearer token, its scopes, and the dependency \<open>require_scope\<close>, which
  authenticates, checks one scope and counts the request against the caller's limit.

  PyJWT is external: \<open>jwt_library\<close> holds the reading of a token's header and the verification of a token
  with a key. The endpoint's replies are inputs, and keys are of any type.
\<close>

section \<open>Tokens and keys\<close>

datatype token_error = ExpiredSignature | InvalidToken string | VerifierCrashed py_exception

type_synonym claims = "(string \<times> json) list"

record decode_options =
  do_algorithms :: "string list"
  do_audience :: string
  do_issuer :: string
  do_leeway :: int
  do_require :: "string list"

record 'k jwt_library =
  unverified_kid :: "string \<Rightarrow> token_error + string option"
  jwt_decode :: "'k \<Rightarrow> decode_options \<Rightarrow> rat \<Rightarrow> string \<Rightarrow> token_error + claims"
  str_of :: "json \<Rightarrow> string"

record jwt_settings =
  jwt_algorithms :: "string list"
  jwt_audience :: string
  jwt_issuer :: string
  jwt_leeway_seconds :: int
  jwt_jwks_url :: string
  jwt_jwks_min_refresh_interval_seconds :: rat
  jwt_public_key_path :: string

definition REQUIRED_CLAIMS :: "string list" where
  "REQUIRED_CLAIMS = [''exp'', ''iat'', ''sub'', ''iss'', ''aud'']"

definition decode_options_of :: "jwt_settings \<Rightarrow> decode_options" where
  "decode_options_of s =
     \<lparr>do_algorithms = jwt_algorithms s, do_audience = jwt_audience s, do_issuer = jwt_issuer s,
      do_leeway = jwt_leeway_seconds s, do_require = REQUIRED_CLAIMS\<rparr>"

section \<open>The JWKS endpoint\<close>

record 'k jwks =
  jk_keys :: "string \<Rightarrow> 'k option"
  jk_last_fetch :: "rat option"

text \<open>
  A fetch gives a key set, or an exception that \<open>_signing_key\<close> turns into an invalid token
  (\<open>httpx.HTTPError\<close>, \<open>ValueError\<close>, \<open>PyJWKError\<close>), or another exception.
\<close>

datatype 'k fetch_reply = KeySet "(string option \<times> 'k) list" | Unavailable | FetchCrashed py_exception

text \<open>The clock at the check of the interval and at the end of a successful fetch, and the reply.\<close>

record 'k lookup_time =
  lt_checked :: rat
  lt_fetched :: rat
  lt_reply :: "'k fetch_reply"

fun index_keys :: "(string option \<times> 'k) list \<Rightarrow> string \<Rightarrow> 'k option" where
  "index_keys [] = (\<lambda>kid. None)"
| "index_keys ((kid, key) # ks) =
     (let rest = index_keys ks
      in case kid of
           None \<Rightarrow> rest
         | Some i \<Rightarrow> if i = [] then rest else (\<lambda>x. case rest x of Some k \<Rightarrow> Some k | None \<Rightarrow> if x = i then Some key else None))"

text \<open>A name in single quotes.\<close>

definition quoted :: "string \<Rightarrow> string" where
  "quoted s = CHR 0x27 # s @ [CHR 0x27]"

definition new_jwks :: "'k jwks" where
  "new_jwks = \<lparr>jk_keys = (\<lambda>kid. None), jk_last_fetch = None\<rparr>"

definition refresh_due :: "rat \<Rightarrow> rat \<Rightarrow> 'k jwks \<Rightarrow> bool" where
  "refresh_due min_interval now j =
     (case jk_last_fetch j of None \<Rightarrow> True | Some t \<Rightarrow> min_interval \<le> now - t)"

text \<open>The section under the lock; the flag tells whether the endpoint was called.\<close>

definition locked_lookup ::
    "rat \<Rightarrow> 'k lookup_time \<Rightarrow> string \<Rightarrow> 'k jwks \<Rightarrow> 'k jwks \<times> bool \<times> (token_error + 'k)" where
  "locked_lookup min_interval w kid j =
     (let answer = \<lambda>j. err_of_option (InvalidToken ''token is signed with an unknown key'') (jk_keys j kid)
      in if jk_keys j kid = None \<and> refresh_due min_interval (lt_checked w) j
         then (case lt_reply w of
                 KeySet ks \<Rightarrow>
                   (let j' = \<lparr>jk_keys = index_keys ks, jk_last_fetch = Some (lt_fetched w)\<rparr> in (j', True, answer j'))
               | Unavailable \<Rightarrow> (j, True, Inl (InvalidToken ''signing keys are unavailable''))
               | FetchCrashed x \<Rightarrow> (j, True, Inl (VerifierCrashed x)))
         else (j, False, answer j))"

datatype 'k verifier = JwksVerifier "'k jwks" | PublicKeyVerifier 'k

text \<open>\<open>get_token_verifier\<close>: without a URL or a key file the API refuses to start (\<open>None\<close>).\<close>

definition get_token_verifier :: "(string \<Rightarrow> 'k) \<Rightarrow> jwt_settings \<Rightarrow> 'k verifier option" where
  "get_token_verifier read_key s =
     (if jwt_jwks_url s \<noteq> [] then Some (JwksVerifier new_jwks)
      else if jwt_public_key_path s \<noteq> [] then Some (PublicKeyVerifier (read_key (jwt_public_key_path s)))
      else None)"

text \<open>
  \<open>_signing_key\<close>. The look-up before the lock gives the key that the look-up under the lock would give.
\<close>

fun signing_key ::
    "'k jwt_library \<Rightarrow> rat \<Rightarrow> 'k lookup_time \<Rightarrow> string \<Rightarrow> 'k verifier \<Rightarrow> 'k verifier \<times> (token_error + 'k)" where
  "signing_key lib min_interval w token (PublicKeyVerifier k) = (PublicKeyVerifier k, Inr k)"
| "signing_key lib min_interval w token (JwksVerifier j) =
     (case unverified_kid lib token of
        Inl e \<Rightarrow> (JwksVerifier j, Inl e)
      | Inr None \<Rightarrow> (JwksVerifier j, Inl (InvalidToken (''token header has no '' @ quoted ''kid'')))
      | Inr (Some kid) \<Rightarrow>
          if kid = [] then (JwksVerifier j, Inl (InvalidToken (''token header has no '' @ quoted ''kid'')))
          else (case jk_keys j kid of
                  Some k \<Rightarrow> (JwksVerifier j, Inr k)
                | None \<Rightarrow> (case locked_lookup min_interval w kid j of (j', _, r) \<Rightarrow> (JwksVerifier j', r))))"

definition decode_token ::
    "'k jwt_library \<Rightarrow> jwt_settings \<Rightarrow> 'k lookup_time \<Rightarrow> rat \<Rightarrow> string \<Rightarrow> 'k verifier \<Rightarrow> 'k verifier \<times> (token_error + claims)" where
  "decode_token lib s w now token v =
     (case signing_key lib (jwt_jwks_min_refresh_interval_seconds s) w token v of
        (v', Inl e) \<Rightarrow> (v', Inl e)
      | (v', Inr k) \<Rightarrow> (v', jwt_decode lib k (decode_options_of s) now token))"

section \<open>Claims\<close>

definition py_space :: "char \<Rightarrow> bool" where
  "py_space c \<longleftrightarrow> is_space c \<or> (28 :: nat) \<le> of_char c \<and> (of_char c :: nat) \<le> 31"

definition py_strip :: "string \<Rightarrow> string" where
  "py_strip s = rev (dropWhile py_space (rev (dropWhile py_space s)))"

fun split_spaces :: "string \<Rightarrow> string list" where
  "split_spaces [] = [[]]"
| "split_spaces (c # cs) =
     (if py_space c then [] # split_spaces cs
      else case split_spaces cs of [] \<Rightarrow> [[c]] | w # ws \<Rightarrow> (c # w) # ws)"

definition py_split :: "string \<Rightarrow> string list" where
  "py_split s = filter (\<lambda>w. w \<noteq> []) (split_spaces s)"

definition lower_char :: "char \<Rightarrow> char" where
  "lower_char c = (if is_upper c then char_of ((of_char c :: nat) + 32) else c)"

definition to_lower :: "string \<Rightarrow> string" where
  "to_lower s = map lower_char s"

fun json_truthy :: "json \<Rightarrow> bool" where
  "json_truthy JNull = False"
| "json_truthy (JBool b) = b"
| "json_truthy (JInt n) = (n \<noteq> 0)"
| "json_truthy (JFloat f) = (case f of FNum d \<Rightarrow> coeff d \<noteq> 0 | _ \<Rightarrow> True)"
| "json_truthy (JDec d) = (coeff d \<noteq> 0)"
| "json_truthy (JStr s) = (s \<noteq> [])"
| "json_truthy (JList js) = (js \<noteq> [])"
| "json_truthy (JDict kvs) = (kvs \<noteq> [])"

text \<open>\<open>claims.get(name) or default\<close> and \<open>str(value)\<close>\<close>

definition claim_or :: "claims \<Rightarrow> string \<Rightarrow> json \<Rightarrow> json" where
  "claim_or claims name other =
     (case map_of claims name of None \<Rightarrow> other | Some j \<Rightarrow> if json_truthy j then j else other)"

definition py_str :: "'k jwt_library \<Rightarrow> json \<Rightarrow> string" where
  "py_str lib j = (case j of JStr s \<Rightarrow> s | _ \<Rightarrow> str_of lib j)"

definition parse_scopes :: "'k jwt_library \<Rightarrow> claims \<Rightarrow> string set" where
  "parse_scopes lib claims =
     (case claim_or claims ''scope'' (claim_or claims ''scp'' (JStr '''')) of
        JStr s \<Rightarrow> set (py_split s)
      | JList js \<Rightarrow> set (filter (\<lambda>s. s \<noteq> []) (map (py_str lib) js))
      | _ \<Rightarrow> {})"

section \<open>The dependencies of the routes\<close>

record principal =
  pr_subject :: string
  pr_scopes :: "string set"
  pr_claims :: claims

datatype http_error =
    HttpError (he_status: int) (he_detail: string) (he_headers: "(string \<times> string) list")
  | Raised py_exception

definition unauthorized :: "string \<Rightarrow> string option \<Rightarrow> http_error" where
  "unauthorized detail err =
     HttpError 401 detail
       [(''WWW-Authenticate'',
         ''Bearer realm=\"fraud-detection\"'' @
         (case err of None \<Rightarrow> [] | Some e \<Rightarrow> '', error=\"'' @ e @ ''\"''))]"

text \<open>The scheme and the credentials of the \<open>Authorization\<close> header.\<close>

definition get_current_principal ::
    "'k jwt_library \<Rightarrow> jwt_settings \<Rightarrow> 'k lookup_time \<Rightarrow> rat \<Rightarrow> (string \<times> string) option \<Rightarrow> 'k verifier \<Rightarrow>
     'k verifier \<times> (http_error + principal)" where
  "get_current_principal lib s w now credentials v =
     (case credentials of
        None \<Rightarrow> (v, Inl (unauthorized ''Missing bearer access token.'' None))
      | Some (scheme, text) \<Rightarrow>
          if to_lower scheme \<noteq> ''bearer'' \<or> py_strip text = []
          then (v, Inl (unauthorized ''Missing bearer access token.'' None))
          else
            (case decode_token lib s w now (py_strip text) v of
               (v', Inl ExpiredSignature) \<Rightarrow> (v', Inl (unauthorized ''Access token has expired.'' (Some ''invalid_token'')))
             | (v', Inl (InvalidToken _)) \<Rightarrow> (v', Inl (unauthorized ''Access token is invalid.'' (Some ''invalid_token'')))
             | (v', Inl (VerifierCrashed x)) \<Rightarrow> (v', Inl (Raised x))
             | (v', Inr claims) \<Rightarrow>
                 (let subject = py_strip (py_str lib (claim_or claims ''sub'' (JStr '''')))
                  in if subject = []
                     then (v', Inl (unauthorized ''Access token is missing the subject claim.'' (Some ''invalid_token'')))
                     else (v', Inr \<lparr>pr_subject = subject, pr_scopes = parse_scopes lib claims, pr_claims = claims\<rparr>))))"

definition insufficient_scope :: "string \<Rightarrow> http_error" where
  "insufficient_scope needed =
     HttpError 403 (''Access token does not include the required scope '' @ quoted needed @ ''.'')
       [(''WWW-Authenticate'', ''Bearer error=\"insufficient_scope\", scope=\"'' @ needed @ ''\"'')]"

definition rate_limited :: "int \<Rightarrow> http_error" where
  "rate_limited retry_after =
     HttpError 429 ''Rate limit exceeded. Retry after the indicated number of seconds.''
       [(''Retry-After'', show_int retry_after)]"

text \<open>The state of an API process that the dependencies use: the verifier, and the limiter in Redis.\<close>

record 'k guard_state =
  gs_verifier :: "'k verifier"
  gs_limiter :: limiter

record 'k call =
  cl_credentials :: "(string \<times> string) option"
  cl_lookup :: "'k lookup_time"
  cl_now :: rat
  cl_redis_now :: rat
  cl_round_trip :: round_trip

definition require_scope ::
    "'k jwt_library \<Rightarrow> (string \<Rightarrow> string) \<Rightarrow> jwt_settings \<Rightarrow> limits option \<Rightarrow> string \<Rightarrow> 'k call \<Rightarrow> 'k guard_state \<Rightarrow>
     'k guard_state \<times> (http_error + principal)" where
  "require_scope lib sha s limits needed c g =
     (case get_current_principal lib s (cl_lookup c) (cl_now c) (cl_credentials c) (gs_verifier g) of
        (v', Inl e) \<Rightarrow> (g\<lparr>gs_verifier := v'\<rparr>, Inl e)
      | (v', Inr p) \<Rightarrow>
          if needed \<notin> pr_scopes p then (g\<lparr>gs_verifier := v'\<rparr>, Inl (insufficient_scope needed))
          else
            (case limits of
               None \<Rightarrow> (g\<lparr>gs_verifier := v'\<rparr>, Inr p)
             | Some l \<Rightarrow>
                 (case enforce sha l \<lparr>ar_subject = pr_subject p, ar_now = cl_now c, ar_redis_now = cl_redis_now c,
                     ar_round_trip = cl_round_trip c\<rparr> (gs_limiter g) of
                    (lm, None) \<Rightarrow> (\<lparr>gs_verifier = v', gs_limiter = lm\<rparr>, Inr p)
                  | (lm, Some n) \<Rightarrow> (\<lparr>gs_verifier = v', gs_limiter = lm\<rparr>, Inl (rate_limited n)))))"

end
