(* ===== verification/Security_Facts.thy ===== *)
theory Security_Facts
  imports Security
begin

text \<open>
  The throttle of the JWKS endpoint, for any number of threads (the lock puts their look-ups in an
  order), and what a request that passed \<open>require_scope\<close> has shown.
\<close>

section \<open>Signing keys\<close>

lemma index_keys_mem: "index_keys ks kid = Some k \<Longrightarrow> (Some kid, k) \<in> set ks"
  by (induction ks rule: index_keys.induct) (auto simp: Let_def split: option.splits if_splits)

lemma index_keys_found: "(Some kid, k) \<in> set ks \<Longrightarrow> kid \<noteq> [] \<Longrightarrow> index_keys ks kid \<noteq> None"
  by (induction ks rule: index_keys.induct) (auto simp: Let_def split: option.splits)

text \<open>The look-ups under the lock, in the order in which the threads get it.\<close>

type_synonym 'k lookup = "'k lookup_time \<times> string \<times> bool \<times> (token_error + 'k)"

fun locked_lookups :: "rat \<Rightarrow> ('k lookup_time \<times> string) list \<Rightarrow> 'k jwks \<Rightarrow> 'k lookup list" where
  "locked_lookups min_interval [] j = []"
| "locked_lookups min_interval ((w, kid) # ws) j =
     (case locked_lookup min_interval w kid j of
        (j', called, r) \<Rightarrow> (w, kid, called, r) # locked_lookups min_interval ws j')"

definition refreshed :: "'k lookup \<Rightarrow> bool" where
  "refreshed l = (case l of (w, kid, called, r) \<Rightarrow> called \<and> (\<exists>ks. lt_reply w = KeySet ks))"

definition call_after :: "rat \<Rightarrow> rat \<Rightarrow> 'k lookup \<Rightarrow> bool" where
  "call_after min_interval t l = (case l of (w, kid, called, r) \<Rightarrow> called \<longrightarrow> t + min_interval \<le> lt_checked w)"

definition fetched_at :: "'k lookup \<Rightarrow> rat" where
  "fetched_at l = lt_fetched (fst l)"

lemma locked_lookup_cases:
  assumes "locked_lookup min_interval w kid j = (j', called, r)"
  shows "(j' = j \<or> (\<exists>ks. called \<and> lt_reply w = KeySet ks \<and> j' = \<lparr>jk_keys = index_keys ks, jk_last_fetch = Some (lt_fetched w)\<rparr>)) \<and>
    (called \<longrightarrow> jk_keys j kid = None \<and> refresh_due min_interval (lt_checked w) j) \<and>
    (called \<longrightarrow> (\<exists>ks. lt_reply w = KeySet ks) \<longrightarrow> jk_last_fetch j' = Some (lt_fetched w)) \<and>
    (\<forall>k. r = Inr k \<longrightarrow> jk_keys j' kid = Some k)"
  using assms
  by (auto simp: locked_lookup_def Let_def err_of_option_def split: if_splits fetch_reply.splits option.splits)

lemma lookups_after_last:
  assumes "\<And>w kid. (w, kid) \<in> set ws \<Longrightarrow> lt_checked w \<le> lt_fetched w" "0 \<le> min_interval" "jk_last_fetch j = Some t"
  shows "\<forall>l \<in> set (locked_lookups min_interval ws j). call_after min_interval t l"
  using assms(1,3)
proof (induction ws arbitrary: j t)
  case (Cons x ws)
  obtain w kid where x: "x = (w, kid)" by (cases x)
  obtain j' called r where l: "locked_lookup min_interval w kid j = (j', called, r)" by (metis prod_cases3)
  note c = locked_lookup_cases [OF l]
  have first: "called \<longrightarrow> t + min_interval \<le> lt_checked w"
    using c Cons.prems(2) by (auto simp: refresh_due_def)
  from Cons.prems(1) [of w kid] x have w: "lt_checked w \<le> lt_fetched w" by simp
  obtain t' where "jk_last_fetch j' = Some t'" "t \<le> t'"
    using c Cons.prems(2) first w assms(2) by fastforce
  moreover from this have "\<forall>l \<in> set (locked_lookups min_interval ws j'). call_after min_interval t' l"
    by (intro Cons.IH) (use Cons.prems in auto)
  ultimately have "\<forall>l \<in> set (locked_lookups min_interval ws j'). call_after min_interval t l"
    by (fastforce simp: call_after_def)
  then show ?case using first by (simp add: x l call_after_def)
qed simp

lemma lookups_throttled:
  assumes "\<And>w kid. (w, kid) \<in> set ws \<Longrightarrow> lt_checked w \<le> lt_fetched w" "0 \<le> min_interval"
  shows "sorted_wrt (\<lambda>l l'. refreshed l \<longrightarrow> call_after min_interval (fetched_at l) l') (locked_lookups min_interval ws j)"
  using assms(1)
proof (induction ws arbitrary: j)
  case (Cons x ws)
  obtain w kid where x: "x = (w, kid)" by (cases x)
  obtain j' called r where l: "locked_lookup min_interval w kid j = (j', called, r)" by (metis prod_cases3)
  have "\<forall>l \<in> set (locked_lookups min_interval ws j'). call_after min_interval (lt_fetched w) l"
    if "refreshed (w, kid, called, r)"
    using locked_lookup_cases [OF l] that lookups_after_last [of ws min_interval j' "lt_fetched w"] Cons.prems assms(2)
    by (auto simp: refreshed_def)
  moreover have "sorted_wrt (\<lambda>l l'. refreshed l \<longrightarrow> call_after min_interval (fetched_at l) l') (locked_lookups min_interval ws j')"
    by (rule Cons.IH) (use Cons.prems in auto)
  ultimately show ?case by (simp add: x l fetched_at_def)
qed simp

text \<open>Where keys come from.\<close>

definition offers :: "'k lookup_time \<Rightarrow> string \<Rightarrow> 'k \<Rightarrow> bool" where
  "offers w kid k \<longleftrightarrow> (\<exists>ks. lt_reply w = KeySet ks \<and> (Some kid, k) \<in> set ks)"

lemma locked_lookup_offered:
  assumes "locked_lookup min_interval w kid j = (j', called, r)" "jk_keys j' i = Some k"
  shows "jk_keys j i = Some k \<or> called \<and> offers w i k"
  using locked_lookup_cases [OF assms(1)] assms(2) by (auto simp: offers_def dest: index_keys_mem)

lemma lookups_offered:
  "(w, kid, called, Inr k) \<in> set (locked_lookups min_interval ws j) \<Longrightarrow>
   jk_keys j kid = Some k \<or> (\<exists>w' kid' r. (w', kid', True, r) \<in> set (locked_lookups min_interval ws j) \<and> offers w' kid k)"
proof (induction ws arbitrary: j)
  case (Cons x ws)
  obtain w0 kid0 where x: "x = (w0, kid0)" by (cases x)
  obtain j' called0 r0 where l: "locked_lookup min_interval w0 kid0 j = (j', called0, r0)" by (metis prod_cases3)
  have "jk_keys j' kid = Some k \<or> (\<exists>w' kid' r. (w', kid', True, r) \<in> set (locked_lookups min_interval ws j') \<and> offers w' kid k)"
    using Cons.prems Cons.IH [of j'] locked_lookup_cases [OF l] by (auto simp: x l)
  then show ?case using locked_lookup_offered [OF l, of kid k] by (auto simp: x l)
qed simp

text \<open>
  A key that the endpoint publishes is found as soon as the interval since the last successful fetch is
  over. A failed fetch leaves the state alone, so it is repeated by the next token with an unknown key.
\<close>

lemma rotated_key_found:
  assumes "lt_reply w = KeySet ks" "(Some kid, k) \<in> set ks" "kid \<noteq> []" "refresh_due min_interval (lt_checked w) j"
  shows "\<exists>k'. snd (snd (locked_lookup min_interval w kid j)) = Inr k'"
  using assms index_keys_found [of kid k ks] by (auto simp: locked_lookup_def Let_def err_of_option_def split: option.splits)

lemma failed_fetch_not_throttled:
  assumes "lt_reply w = Unavailable" "lt_reply w' = Unavailable"
  shows "map (\<lambda>l. fst (snd (snd l))) (locked_lookups min_interval [(w, kid), (w', kid')] new_jwks) = [True, True]"
  using assms by (simp add: locked_lookup_def Let_def refresh_due_def new_jwks_def)

section \<open>Authorised callers\<close>

definition trusted_key :: "'k verifier \<Rightarrow> 'k lookup_time \<Rightarrow> 'k \<Rightarrow> bool" where
  "trusted_key v w k =
     (case v of
        PublicKeyVerifier k' \<Rightarrow> k = k'
      | JwksVerifier j \<Rightarrow> \<exists>kid. jk_keys j kid = Some k \<or> offers w kid k)"

lemma signing_key_trusted:
  "signing_key lib min_interval w token v = (v', Inr k) \<Longrightarrow> trusted_key v w k"
proof (induction lib min_interval w token v rule: signing_key.induct)
  case (2 lib min_interval w token j)
  then show ?case
    by (auto simp: trusted_key_def split: sum.splits option.splits if_splits prod.splits
        dest!: locked_lookup_cases) (auto simp: offers_def dest: index_keys_mem)
qed (simp add: trusted_key_def)

text \<open>
  The caller presented a bearer token that verifies, under the configured algorithms, issuer and
  audience and with a key of the provider, and whose claims grant the scope.
\<close>

definition authorised_by :: "'k jwt_library \<Rightarrow> jwt_settings \<Rightarrow> string \<Rightarrow> 'k verifier \<Rightarrow> 'k call \<Rightarrow> string \<Rightarrow> bool" where
  "authorised_by lib s needed v c subject \<longleftrightarrow>
     (\<exists>scheme text k claims. cl_credentials c = Some (scheme, text) \<and> to_lower scheme = ''bearer'' \<and>
        trusted_key v (cl_lookup c) k \<and> jwt_decode lib k (decode_options_of s) (cl_now c) (py_strip text) = Inr claims \<and>
        needed \<in> parse_scopes lib claims \<and> subject \<noteq> [] \<and>
        subject = py_strip (py_str lib (claim_or claims ''sub'' (JStr ''''))))"

lemma decode_token_Inr:
  "decode_token lib s w now token v = (v', Inr claims) \<Longrightarrow>
   \<exists>k. trusted_key v w k \<and> jwt_decode lib k (decode_options_of s) now token = Inr claims"
  by (auto simp: decode_token_def split: prod.splits sum.splits dest!: signing_key_trusted)

lemma get_current_principal_Inr:
  assumes "get_current_principal lib s w now credentials v = (v', Inr p)"
  shows "\<exists>scheme text k. credentials = Some (scheme, text) \<and> to_lower scheme = ''bearer'' \<and> trusted_key v w k \<and>
    jwt_decode lib k (decode_options_of s) now (py_strip text) = Inr (pr_claims p) \<and>
    pr_scopes p = parse_scopes lib (pr_claims p) \<and> pr_subject p \<noteq> [] \<and>
    pr_subject p = py_strip (py_str lib (claim_or (pr_claims p) ''sub'' (JStr '''')))"
  using assms
  by (auto simp: get_current_principal_def Let_def split: option.splits prod.splits sum.splits if_splits token_error.splits
      dest!: decode_token_Inr)

lemma require_scope_Inr:
  assumes "require_scope lib sha s limits needed c g = (g', Inr p)"
  shows "authorised_by lib s needed (gs_verifier g) c (pr_subject p)"
proof -
  obtain v' where "get_current_principal lib s (cl_lookup c) (cl_now c) (cl_credentials c) (gs_verifier g) = (v', Inr p)"
      "needed \<in> pr_scopes p"
    using assms by (auto simp: require_scope_def split: prod.splits sum.splits option.splits if_splits)
  then show ?thesis unfolding authorised_by_def using get_current_principal_Inr by fastforce
qed

text \<open>A refusal is a 401, a 403 or a 429, or what the verifier raised.\<close>

lemma require_scope_Inl:
  assumes "require_scope lib sha s limits needed c g = (g', Inl (HttpError st detail headers))"
  shows "st \<in> {401, 403, 429}"
  using assms
  by (auto simp: require_scope_def get_current_principal_def unauthorized_def insufficient_scope_def rate_limited_def
      Let_def split: prod.splits sum.splits option.splits if_splits token_error.splits)

section \<open>The throttle\<close>

text \<open>
  C22: however many requests name unknown keys, the identity provider is called at most once per
  \<open>JWT_JWKS_MIN_REFRESH_INTERVAL_SECONDS\<close> after a successful fetch; and the key that a look-up gives was
  offered by the provider, under the key id that the token names, in a fetch that did take place.
\<close>

theorem jwks_throttled:
  assumes "\<And>w kid. (w, kid) \<in> set ws \<Longrightarrow> lt_checked w \<le> lt_fetched w" "0 \<le> min_interval"
  shows "sorted_wrt (\<lambda>l l'. refreshed l \<longrightarrow> call_after min_interval (fetched_at l) l')
      (locked_lookups min_interval ws new_jwks) \<and>
    (\<forall>w kid called k. (w, kid, called, Inr k) \<in> set (locked_lookups min_interval ws new_jwks) \<longrightarrow>
      (\<exists>w' kid' r. (w', kid', True, r) \<in> set (locked_lookups min_interval ws new_jwks) \<and> offers w' kid k))"
  using lookups_throttled [OF assms] lookups_offered [of _ _ _ _ min_interval ws new_jwks]
  by (auto simp: new_jwks_def)

text \<open>A key rotation within a minute: the second unknown key waits until the minute is over.\<close>

definition example_lookups :: "(nat lookup_time \<times> string) list" where
  "example_lookups =
     [(\<lparr>lt_checked = 0, lt_fetched = 1, lt_reply = KeySet [(Some ''a'', 1)]\<rparr>, ''a''),
      (\<lparr>lt_checked = 30, lt_fetched = 31, lt_reply = KeySet [(Some ''a'', 1), (Some ''b'', 2)]\<rparr>, ''b''),
      (\<lparr>lt_checked = 61, lt_fetched = 62, lt_reply = KeySet [(Some ''a'', 1), (Some ''b'', 2)]\<rparr>, ''b'')]"

lemma jwks_throttled_witness:
  "sorted_wrt (\<lambda>l l'. refreshed l \<longrightarrow> call_after 60 (fetched_at l) l') (locked_lookups 60 example_lookups new_jwks) \<and>
   map (\<lambda>l. snd (snd l)) (locked_lookups 60 example_lookups new_jwks) =
     [(True, Inr 1), (False, Inl (InvalidToken ''token is signed with an unknown key'')), (True, Inr 2)]"
proof
  show "sorted_wrt (\<lambda>l l'. refreshed l \<longrightarrow> call_after 60 (fetched_at l) l') (locked_lookups 60 example_lookups new_jwks)"
    by (rule conjunct1 [OF jwks_throttled]) (auto simp: example_lookups_def)
  show "map (\<lambda>l. snd (snd l)) (locked_lookups 60 example_lookups new_jwks) =
     [(True, Inr 1), (False, Inl (InvalidToken ''token is signed with an unknown key'')), (True, Inr 2)]"
    by (simp add: example_lookups_def locked_lookup_def Let_def new_jwks_def refresh_due_def err_of_option_def)
qed


end
