(* ===== verification/Http_Api.thy ===== *)
theory Http_Api
  imports Page_Cursor Security_Facts
begin

text \<open>
  The HTTP API (\<open>app/api.py\<close>, with the request and response models of \<open>app/schemas.py\<close>): the routes
  from the caller's token to the response, and the mapping of every error to a status code.

  FastAPI is external. As its documentation says, a request body that is not JSON is answered before
  the dependencies run, the dependency \<open>require_scope\<close> runs before the declared constraints of path,
  query and body are reported, and an exception goes to the handler of the first class in its method
  resolution order. Path and query parameters arrive converted to their types; their declared
  constraints are written out. Pydantic's messages are a parameter.
\<close>

section \<open>Requests and responses\<close>

record list_query_params =
  lq_user_id :: "uuid option"
  lq_category :: "string option"
  lq_is_fraud :: "bool option"
  lq_verdict :: "verdict option"
  lq_occurred_from :: "int option"
  lq_occurred_to :: "int option"
  lq_limit :: int
  lq_cursor :: "string option"

datatype request_body = NotJsonBody | JsonBody json

datatype api_request =
    GetTransaction uuid
  | ListTransactions list_query_params
  | ListVersions string int "int option"
  | GetActiveVersion string
  | GetVersion string int
  | CreateVersion string request_body
  | EvaluateRules string request_body

record version_response =
  vr_key :: string
  vr_version :: int
  vr_label :: string
  vr_description :: string
  vr_definition :: json
  vr_content_hash :: string
  vr_created_by :: string
  vr_created_at :: int

record evaluate_response =
  er_rule_set :: string
  er_risk_score :: int
  er_verdict :: verdict
  er_is_fraud :: bool
  er_triggered_rules :: "string list"
  er_window_seconds :: int
  er_prior_count :: int
  er_prior_amount :: decimal

datatype answer =
    TransactionAnswer transaction_record
  | TransactionPage "transaction_record list" int "string option"
  | VersionAnswer version_response
  | VersionPage "version_response list" int "int option"
  | EvaluateAnswer evaluate_response
  | StatusAnswer "(string \<times> string) list"

datatype response_body =
    Answer answer
  | ErrorBody (eb_code: string) (eb_message: string) (eb_details: "(string \<times> string) list") (eb_correlation: "string option")

record response =
  re_status :: int
  re_headers :: "(string \<times> string) list"
  re_body :: response_body

section \<open>The environment of a request\<close>

record 'k api_env =
  ae_lib :: "'k jwt_library"
  ae_ext :: externals
  ae_px :: event_externals
  ae_conv :: conversions
  ae_cx :: cursor_externals
  ae_problem_text :: "problem \<Rightarrow> string"
  ae_dry_run_text :: "eval_reason \<Rightarrow> string"
  ae_jwt :: jwt_settings
  ae_limits :: "limits option"
  ae_scope_transactions_read :: string
  ae_scope_rules_read :: string
  ae_scope_rules_write :: string
  ae_redis_ttl :: int

text \<open>
  What the request meets: the clocks, and exceptions of the database at the first query, at the velocity
  query and when publishing (with a flag for a commit that took effect although its answer was lost).
\<close>

record api_conditions =
  ac_now :: int
  ac_redis_now :: int
  ac_redis_up :: bool
  ac_outage :: "py_exception option"
  ac_velocity_outage :: "py_exception option"
  ac_commit_outage :: "(bool \<times> py_exception) option"
  ac_correlation :: "string option"

record stores =
  st_tables :: tx_tables
  st_versions :: version_table
  st_cache :: "string \<Rightarrow> redis_entry"

datatype api_error = Http http_error | Validation "field_error list"

abbreviation raised :: "py_exception \<Rightarrow> api_error + 'a" where
  "raised x \<equiv> Inl (Http (Raised x))"

definition query :: "py_exception option \<Rightarrow> (api_error + 'a) \<Rightarrow> api_error + 'a" where
  "query outage r = (case outage of Some x \<Rightarrow> raised x | None \<Rightarrow> r)"

definition checked_input :: "'a checked \<Rightarrow> api_error + 'a" where
  "checked_input r = (case r of Inl es \<Rightarrow> Inl (Validation es) | Inr x \<Rightarrow> Inr x)"

text \<open>The exceptions of the rule-set store; the text of a missing version is the caller's.\<close>

definition store_exception :: "string \<Rightarrow> store_error \<Rightarrow> py_exception" where
  "store_exception missing e =
     (case e of
        RuleSetNotFoundError \<Rightarrow> own_error RuleSetNotFound ''RuleSetNotFoundError'' missing []
      | _ \<Rightarrow> load_exception (LoadFailed e))"

definition stored :: "string \<Rightarrow> store_error + 'a \<Rightarrow> api_error + 'a" where
  "stored missing r = (case r of Inl e \<Rightarrow> raised (store_exception missing e) | Inr x \<Rightarrow> Inr x)"

definition no_rule_set :: "string \<Rightarrow> string" where
  "no_rule_set key = ''No rule set exists for key '' @ quoted key"

section \<open>Input constraints\<close>

definition lower_alnum :: "char \<Rightarrow> bool" where
  "lower_alnum c \<longleftrightarrow> is_lower c \<or> is_digit c"

definition key_pattern :: "string \<Rightarrow> bool" where
  "key_pattern s \<longleftrightarrow> 3 \<le> length s \<and> length s \<le> 64 \<and> lower_alnum (hd s) \<and> lower_alnum (last s) \<and>
     list_all (\<lambda>c. lower_alnum c \<or> c = CHR ''-'') s"

definition check_key :: "string \<Rightarrow> string checked" where
  "check_key key = (if key_pattern key then Inr key else Inl [([''path'', ''key''], PatternMismatch)])"

definition check_limit :: "int \<Rightarrow> int checked" where
  "check_limit n =
     (if n < 1 then Inl [([''query'', ''limit''], TooSmall)]
      else if MAX_PAGE_SIZE < n then Inl [([''query'', ''limit''], TooLarge)] else Inr n)"

definition check_at_least :: "int \<Rightarrow> string list \<Rightarrow> int \<Rightarrow> int checked" where
  "check_at_least lo loc n = (if n < lo then Inl [(loc, TooSmall)] else Inr n)"

definition if_present :: "('a \<Rightarrow> 'b checked) \<Rightarrow> 'a option \<Rightarrow> 'b option checked" where
  "if_present check v = (case v of None \<Rightarrow> Inr None | Some x \<Rightarrow> (case check x of Inl es \<Rightarrow> Inl es | Inr y \<Rightarrow> Inr (Some y)))"

definition check_cursor_text :: "string \<Rightarrow> string checked" where
  "check_cursor_text s = (if 256 < length s then Inl [([''query'', ''cursor''], StringTooLong)] else Inr s)"

record create_request =
  cr_description :: string
  cr_definition :: json
  cr_expected_current_version :: "int option"

fun check_dict :: "json \<Rightarrow> json checked" where
  "check_dict (JDict kvs) = Inr (JDict kvs)"
| "check_dict _ = Inl [([], WrongJsonType)]"

fun check_create_request :: "externals \<Rightarrow> json \<Rightarrow> create_request checked" where
  "check_create_request ext (JDict kvs) =
     err_bind
       (both (model_field kvs ''description'' check_description)
         (both (model_field kvs ''definition'' check_dict)
           (both (optional_field kvs ''expected_current_version'' (check_int (coerce_int ext) 0 None))
             (forbid_extra [''description'', ''definition'', ''expected_current_version''] kvs))))
       (\<lambda>(description, definition, expected, _).
          Inr \<lparr>cr_description = description, cr_definition = definition, cr_expected_current_version = expected\<rparr>)"
| "check_create_request ext _ = Inl [([], WrongJsonType)]"

text \<open>\<open>EvaluateRequest\<close>, already as the arguments of \<open>score_transaction\<close>.\<close>

fun check_evaluate_request :: "event_externals \<Rightarrow> int \<Rightarrow> json \<Rightarrow> score_request checked" where
  "check_evaluate_request px now (JDict kvs) =
     err_bind
       (both (model_field kvs ''user_id'' (converted (to_uuid px) WrongJsonType))
         (both (model_field kvs ''amount'' (Money px))
           (both (model_field kvs ''currency'' CurrencyCode)
             (both (model_field kvs ''category'' Category)
               (both (optional_field kvs ''occurred_at'' (converted (to_aware_datetime px) NotADateTime))
                 (both (optional_field kvs ''channel'' Channel)
                   (both (optional_field kvs ''country'' CountryCode)
                     (both (optional_field kvs ''enrichment'' (check_enrichment px))
                       (both (optional_field kvs ''transaction_id'' (converted (to_uuid px) WrongJsonType))
                         (forbid_extra [''user_id'', ''amount'', ''currency'', ''category'', ''occurred_at'', ''channel'',
                           ''country'', ''enrichment'', ''transaction_id''] kvs))))))))))
       (\<lambda>(user, amount, currency, category, occurred_at, channel, country, enr, tid, _).
          Inr \<lparr>rq_transaction_id = tid, rq_user_id = user,
               rq_occurred_at = (case occurred_at of None \<Rightarrow> now | Some t \<Rightarrow> t),
               rq_amount = amount, rq_currency = currency, rq_category = category, rq_channel = channel,
               rq_country = country, rq_enrichment = map_option (dump_enrichment JDec) enr\<rparr>)"
| "check_evaluate_request px now _ = Inl [([], WrongJsonType)]"

definition check_body :: "(json \<Rightarrow> 'a checked) \<Rightarrow> request_body \<Rightarrow> 'a checked" where
  "check_body check body =
     (case body of NotJsonBody \<Rightarrow> Inl [([''body''], WrongJsonType)] | JsonBody j \<Rightarrow> located ''body'' (check j))"

section \<open>Routes: decisions\<close>

text \<open>A successful route gives a status, headers and an answer.\<close>

type_synonym route_result = "api_error + int \<times> (string \<times> string) list \<times> answer"

definition get_transaction_by_id :: "api_conditions \<Rightarrow> uuid \<Rightarrow> stores \<Rightarrow> route_result" where
  "get_transaction_by_id c i s =
     query (ac_outage c)
       (case get_transaction (st_tables s) i of
          None \<Rightarrow> raised (own_error TransactionNotFound ''TransactionNotFoundError''
                     (''Transaction '' @ show_uuid i @ '' was not found'') [])
        | Some r \<Rightarrow> Inr (200, [], TransactionAnswer r))"

definition page_cursor_of :: "cursor_externals \<Rightarrow> string option \<Rightarrow> api_error + page_cursor option" where
  "page_cursor_of cx cursor =
     (case cursor of
        None \<Rightarrow> Inr None
      | Some token \<Rightarrow>
          if token = [] then Inr None
          else (case decode_cursor cx token of
                  Inl MalformedCursor \<Rightarrow> Inl (Http (HttpError 400 ''cursor is malformed or from a different query.'' []))
                | Inl CursorCrashed \<Rightarrow> raised (plain_exception [OtherClass ''AttributeError''] ''AttributeError'' '''')
                | Inr c \<Rightarrow> Inr (Some c)))"

definition list_transaction_decisions :: "cursor_externals \<Rightarrow> api_conditions \<Rightarrow> list_query_params \<Rightarrow> stores \<Rightarrow> route_result" where
  "list_transaction_decisions cx c q s =
     err_bind
       (checked_input
         (both (if_present (\<lambda>x. located ''query'' (located ''category'' (Category (JStr x)))) (lq_category q))
           (both (check_limit (lq_limit q)) (if_present check_cursor_text (lq_cursor q)))))
       (\<lambda>(category, limit, token).
          err_bind (page_cursor_of cx token)
            (\<lambda>cursor.
               query (ac_outage c)
                 (case list_transactions (st_tables s)
                         \<lparr>f_user_id = lq_user_id q, f_category = category, f_is_fraud = lq_is_fraud q,
                          f_verdict = map_option verdict_value (lq_verdict q), f_occurred_from = lq_occurred_from q,
                          f_occurred_to = lq_occurred_to q\<rparr> limit cursor of
                    Inl e \<Rightarrow> raised (record_exception e)
                  | Inr (rows, next_cursor) \<Rightarrow>
                      Inr (200, [], TransactionPage rows limit (map_option (encode_cursor cx) next_cursor)))))"

section \<open>Routes: rule sets\<close>

definition from_rule_set :: "rule_set \<Rightarrow> version_response" where
  "from_rule_set rs =
     \<lparr>vr_key = rs_key rs, vr_version = rs_version rs, vr_label = rule_set_label rs, vr_description = rs_description rs,
      vr_definition = model_dump (rs_definition rs), vr_content_hash = rs_content_hash rs,
      vr_created_by = rs_created_by rs, vr_created_at = rs_created_at rs\<rparr>"

text \<open>PostgreSQL's \<open>integer\<close> has 32 bits; asyncpg refuses a larger argument with a \<open>DataError\<close>.\<close>

definition int32_argument :: "int option \<Rightarrow> store_error + 'a \<Rightarrow> store_error + 'a" where
  "int32_argument v r = (if if_given v int32 then r else Inl StoreDataError)"

definition list_versions ::
    "externals \<Rightarrow> api_conditions \<Rightarrow> string \<Rightarrow> int \<Rightarrow> int option \<Rightarrow> stores \<Rightarrow> route_result" where
  "list_versions ext c key limit before_version s =
     err_bind
       (checked_input
         (both (check_key key)
           (both (check_limit limit) (if_present (check_at_least 2 [''query'', ''before_version'']) before_version))))
       (\<lambda>_. err_bind
          (query (ac_outage c)
            (stored (no_rule_set key)
              (int32_argument before_version (list_rule_set_versions ext (st_versions s) key limit before_version))))
          (\<lambda>versions.
             if versions = [] \<and> before_version = None
             then raised (own_error RuleSetNotFound ''RuleSetNotFoundError'' (no_rule_set key) [])
             else Inr (200, [], VersionPage (map from_rule_set versions) limit
                    (if int (length versions) = limit \<and> rs_version (last versions) > 1
                     then Some (rs_version (last versions)) else None))))"

definition get_active_version :: "externals \<Rightarrow> api_conditions \<Rightarrow> string \<Rightarrow> stores \<Rightarrow> route_result" where
  "get_active_version ext c key s =
     err_bind (checked_input (check_key key))
       (\<lambda>_. err_bind (query (ac_outage c) (stored (no_rule_set key) (get_latest_rule_set ext (st_versions s) key)))
          (\<lambda>rs. Inr (200, [], VersionAnswer (from_rule_set rs))))"

definition get_version :: "externals \<Rightarrow> api_conditions \<Rightarrow> string \<Rightarrow> int \<Rightarrow> stores \<Rightarrow> route_result" where
  "get_version ext c key version s =
     err_bind (checked_input (both (check_key key) (check_at_least 1 [''path'', ''version''] version)))
       (\<lambda>_. err_bind
          (query (ac_outage c)
            (stored (''Rule set '' @ quoted key @ '' has no version '' @ show_int version)
              (int32_argument (Some version) (get_rule_set_version ext (st_versions s) key version))))
          (\<lambda>rs. Inr (200, [], VersionAnswer (from_rule_set rs))))"

text \<open>The exception of \<open>parse_rule_set_definition\<close>.\<close>

definition definition_exception :: "'k api_env \<Rightarrow> parse_error \<Rightarrow> py_exception" where
  "definition_exception env e =
     (case e of
        InvalidRuleSetError (Invalid es) \<Rightarrow>
          own_error InvalidRuleSet ''InvalidRuleSetError'' ''Rule set definition is invalid''
            (map (\<lambda>(loc, p). (join ''.'' loc, ae_problem_text env p)) es)
      | InvalidRuleSetError (DryRunFailed r) \<Rightarrow>
          own_error InvalidRuleSet ''InvalidRuleSetError'' ''Rule set definition is invalid'' [(''rules'', ae_dry_run_text env r)]
      | DryRunCrashed _ \<Rightarrow> plain_exception [OtherClass ''Exception''] ''Exception'' '''')"

definition publish_version ::
    "'k api_env \<Rightarrow> api_conditions \<Rightarrow> string \<Rightarrow> create_request \<Rightarrow> rule_set_definition \<Rightarrow> string \<Rightarrow> principal \<Rightarrow> stores \<Rightarrow>
     stores \<times> (api_error + rule_set)" where
  "publish_version env c key b d h p s =
     (let (t', r) = create_rule_set_version (ae_ext env) (ac_now c) (st_versions s) key d h (cr_description b)
                      (pr_subject p) (cr_expected_current_version b)
      in case ac_commit_outage c of
           Some (committed, x) \<Rightarrow> ((if committed then s\<lparr>st_versions := t'\<rparr> else s), raised x)
         | None \<Rightarrow> (s\<lparr>st_versions := t'\<rparr>, stored '''' r))"

definition cache_active :: "'k api_env \<Rightarrow> api_conditions \<Rightarrow> rule_set \<Rightarrow> stores \<Rightarrow> stores" where
  "cache_active env c rs s =
     (let k = rule_set_cache_key (rs_key rs)
      in s\<lparr>st_cache := (st_cache s)(k := fst (write_rule_set_cache (ae_conv env) (ac_redis_up c) (ac_redis_now c) rs
             (ae_redis_ttl env) (st_cache s k)))\<rparr>)"

definition create_version ::
    "'k api_env \<Rightarrow> api_conditions \<Rightarrow> principal \<Rightarrow> string \<Rightarrow> request_body \<Rightarrow> stores \<Rightarrow> stores \<times> route_result" where
  "create_version env c p key body s =
     (case checked_input (both (check_key key) (check_body (check_create_request (ae_ext env)) body)) of
        Inl e \<Rightarrow> (s, Inl e)
      | Inr (_, b) \<Rightarrow>
          (case parse_rule_set_definition (coerce_int (ae_ext env)) (cr_definition b) of
             Inl e \<Rightarrow> (s, raised (definition_exception env e))
           | Inr d \<Rightarrow>
               (case content_hash (sha256 (ae_ext env)) (repr_float (ae_ext env)) d of
                  None \<Rightarrow> (s, raised (plain_exception [OtherClass ''TypeError''] ''TypeError'' ''''))
                | Some h \<Rightarrow>
                    (case publish_version env c key b d h p s of
                       (s', Inl e) \<Rightarrow> (s', Inl e)
                     | (s', Inr rs) \<Rightarrow>
                         (cache_active env c rs s',
                          Inr (201, [(''Location'', ''/api/v1/rule-sets/'' @ key @ ''/versions/'' @ show_int (rs_version rs))],
                               VersionAnswer (from_rule_set rs)))))))"

definition evaluate_answer :: "rule_set \<Rightarrow> score \<Rightarrow> evaluate_response" where
  "evaluate_answer rs sc =
     \<lparr>er_rule_set = rule_set_label rs, er_risk_score = risk_score (sc_assessment sc),
      er_verdict = assessed_verdict (sc_assessment sc), er_is_fraud = is_fraud (sc_assessment sc),
      er_triggered_rules = triggered_rules (sc_assessment sc),
      er_window_seconds = velocity_window_seconds (rs_definition rs),
      er_prior_count = sc_prior_count sc, er_prior_amount = sc_prior_amount sc\<rparr>"

definition evaluate_rules :: "'k api_env \<Rightarrow> api_conditions \<Rightarrow> string \<Rightarrow> request_body \<Rightarrow> stores \<Rightarrow> route_result" where
  "evaluate_rules env c key body s =
     err_bind (checked_input (both (check_key key) (check_body (check_evaluate_request (ae_px env) (ac_now c)) body)))
       (\<lambda>(_, rq). err_bind
          (query (ac_outage c) (stored (no_rule_set key) (get_latest_rule_set (ae_ext env) (st_versions s) key)))
          (\<lambda>rs. case score_transaction (ac_velocity_outage c) (st_tables s) rs rq of
                  Inl e \<Rightarrow> raised (scoring_exception e)
                | Inr sc \<Rightarrow> Inr (200, [], EvaluateAnswer (evaluate_answer rs sc))))"

definition route :: "'k api_env \<Rightarrow> api_conditions \<Rightarrow> principal \<Rightarrow> api_request \<Rightarrow> stores \<Rightarrow> stores \<times> route_result" where
  "route env c p req s =
     (case req of
        GetTransaction i \<Rightarrow> (s, get_transaction_by_id c i s)
      | ListTransactions q \<Rightarrow> (s, list_transaction_decisions (ae_cx env) c q s)
      | ListVersions key limit before \<Rightarrow> (s, list_versions (ae_ext env) c key limit before s)
      | GetActiveVersion key \<Rightarrow> (s, get_active_version (ae_ext env) c key s)
      | GetVersion key version \<Rightarrow> (s, get_version (ae_ext env) c key version s)
      | CreateVersion key body \<Rightarrow> create_version env c p key body s
      | EvaluateRules key body \<Rightarrow> (s, evaluate_rules env c key body s))"

definition needed_scope :: "'k api_env \<Rightarrow> api_request \<Rightarrow> string" where
  "needed_scope env req =
     (case req of
        GetTransaction _ \<Rightarrow> ae_scope_transactions_read env
      | ListTransactions _ \<Rightarrow> ae_scope_transactions_read env
      | CreateVersion _ _ \<Rightarrow> ae_scope_rules_write env
      | _ \<Rightarrow> ae_scope_rules_read env)"

section \<open>Errors\<close>

definition ERROR_CODES :: "(int \<times> string) list" where
  "ERROR_CODES =
     [(400, ''bad_request''), (401, ''unauthorized''), (403, ''forbidden''), (404, ''not_found''),
      (405, ''method_not_allowed''), (409, ''conflict''), (415, ''unsupported_media_type''),
      (422, ''validation_error''), (429, ''rate_limited''), (503, ''service_unavailable'')]"

definition error_response ::
    "string option \<Rightarrow> int \<Rightarrow> string \<Rightarrow> (string \<times> string) list \<Rightarrow> (string \<times> string) list \<Rightarrow> string option \<Rightarrow> response" where
  "error_response correlation status_code message details headers code =
     \<lparr>re_status = status_code, re_headers = headers,
      re_body = ErrorBody
        (case code of Some c \<Rightarrow> c
         | None \<Rightarrow> (case map_of ERROR_CODES status_code of Some c \<Rightarrow> c | None \<Rightarrow> ''error''))
        message details correlation\<rparr>"

text \<open>The exception handlers, by class; what has none goes to \<open>UnhandledErrorMiddleware\<close>.\<close>

definition HANDLED :: "exc_class list" where
  "HANDLED = [InvalidRuleSet, TransactionNotFound, RuleSetNotFound, RuleSetVersionConflict, CorruptRuleSet]"

definition unhandled_response :: "string option \<Rightarrow> py_exception \<Rightarrow> response" where
  "unhandled_response correlation x =
     (if classify_failure x = TRANSIENT
      then error_response correlation 503 ''A dependency is temporarily unavailable. Retry shortly.'' []
             [(''Retry-After'', ''5'')] None
      else error_response correlation 500 ''An internal error occurred.'' [] [] (Some ''internal_error''))"

definition exception_response :: "string option \<Rightarrow> py_exception \<Rightarrow> response" where
  "exception_response correlation x =
     (case find (\<lambda>k. k \<in> set HANDLED) (exc_mro x) of
        None \<Rightarrow> unhandled_response correlation x
      | Some k \<Rightarrow>
          if k = InvalidRuleSet then error_response correlation 422 (exc_text x) (exc_details x) [] None
          else if k = RuleSetVersionConflict then error_response correlation 409 (exc_text x) [] [] None
          else if k = CorruptRuleSet then error_response correlation 500 (exc_text x) [] [] (Some ''internal_error'')
          else error_response correlation 404 (exc_text x) [] [] None)"

definition respond_error :: "(problem \<Rightarrow> string) \<Rightarrow> string option \<Rightarrow> api_error \<Rightarrow> response" where
  "respond_error text correlation e =
     (case e of
        Validation es \<Rightarrow>
          error_response correlation 422 ''Request validation failed.'' (map (\<lambda>(loc, p). (join ''.'' loc, text p)) es) [] None
      | Http (HttpError status detail headers) \<Rightarrow> error_response correlation status detail [] headers None
      | Http (Raised x) \<Rightarrow> exception_response correlation x)"

definition respond :: "(problem \<Rightarrow> string) \<Rightarrow> string option \<Rightarrow> route_result \<Rightarrow> response" where
  "respond text correlation r =
     (case r of
        Inl e \<Rightarrow> respond_error text correlation e
      | Inr (status, headers, a) \<Rightarrow> \<lparr>re_status = status, re_headers = headers, re_body = Answer a\<rparr>)"

section \<open>Serving a request\<close>

definition body_is_json :: "api_request \<Rightarrow> bool" where
  "body_is_json req \<longleftrightarrow> (case req of CreateVersion _ b \<Rightarrow> b \<noteq> NotJsonBody | EvaluateRules _ b \<Rightarrow> b \<noteq> NotJsonBody | _ \<Rightarrow> True)"

definition serve ::
    "'k api_env \<Rightarrow> api_conditions \<Rightarrow> 'k call \<Rightarrow> api_request \<Rightarrow> 'k guard_state \<times> stores \<Rightarrow>
     ('k guard_state \<times> stores) \<times> response" where
  "serve env c call req = (\<lambda>(g, s).
     if \<not> body_is_json req
     then ((g, s), respond_error (ae_problem_text env) (ac_correlation c) (Validation [([''body''], WrongJsonType)]))
     else
       (case require_scope (ae_lib env) (sha256 (ae_ext env)) (ae_jwt env) (ae_limits env) (needed_scope env req) call g of
          (g', Inl e) \<Rightarrow> ((g', s), respond_error (ae_problem_text env) (ac_correlation c) (Http e))
        | (g', Inr p) \<Rightarrow>
            (case route env c p req s of
               (s', r) \<Rightarrow> ((g', s'), respond (ae_problem_text env) (ac_correlation c) r))))"

text \<open>The health routes need no token.\<close>

definition live :: response where
  "live = \<lparr>re_status = 200, re_headers = [], re_body = Answer (StatusAnswer [(''status'', ''ok'')])\<rparr>"

definition ready :: "string option \<Rightarrow> bool \<Rightarrow> bool \<Rightarrow> response" where
  "ready correlation database_up redis_up =
     (let failing = (if database_up then [] else [''database'']) @ (if redis_up then [] else [''redis''])
      in if failing \<noteq> []
         then error_response correlation 503 (''Not ready: '' @ join '', '' failing @ '' unavailable.'') [] [] None
         else \<lparr>re_status = 200, re_headers = [],
               re_body = Answer (StatusAnswer [(''status'', ''ready''), (''database'', ''ok''), (''redis'', ''ok'')])\<rparr>)"


end
