(* ===== verification/Http_Api_Facts.thy ===== *)
theory Http_Api_Facts
  imports Http_Api Rule_Store_Facts
begin

text \<open>
  The API as its clients and its operators see it: nothing happens without the scope for it, a client
  error has no effect, every error has the documented shape, and paging through the API is complete.
\<close>

section \<open>Effects of the routes\<close>

lemma create_rule_set_version_cases:
  assumes "create_rule_set_version ext now t key d h description by expected = (t', r)"
  obtains e where "t' = t" "r = Inl e" "\<And>c. e \<noteq> CorruptRuleSetError c"
  | "t' = t @ [new_record ext now key d h description by (current_version t key)]"
    "r = rule_set_from_record ext (new_record ext now key d h description by (current_version t key))"
proof (cases "check_expected t key expected")
  case (Inl e)
  then have "e = RuleSetVersionConflictError" by (auto simp: check_expected_def Let_def split: if_splits)
  with Inl assms that(1) [of e] show ?thesis by (auto simp: create_rule_set_version_def)
next
  case (Inr n)
  then have n: "n = current_version t key" by (simp add: check_expected_Inr)
  show ?thesis
  proof (cases "insert_version t (new_record ext now key d h description by n)")
    case (Inl e)
    then have "e \<noteq> CorruptRuleSetError c" for c by (auto simp: insert_version_def split: if_splits)
    with Inl Inr assms that(1) [of e] show ?thesis by (auto simp: create_rule_set_version_def)
  next
    case (Inr t2)
    with insert_version_Inr [OF Inr] \<open>check_expected t key expected = Inr n\<close> n assms that(2) show ?thesis
      by (simp add: create_rule_set_version_def Let_def)
  qed
qed

text \<open>The table of versions after a publication by \<open>subject\<close>.\<close>

definition appended_version :: "string \<Rightarrow> string \<Rightarrow> version_table \<Rightarrow> version_table \<Rightarrow> bool" where
  "appended_version key subject t t' \<longleftrightarrow>
     (\<exists>r. t' = t @ [r] \<and> rv_rule_set_key r = key \<and> rv_created_by r = subject \<and> rv_version r = current_version t key + 1)"

lemma publish_version_effect:
  assumes "publish_version env c key b d h p s = (s', r)"
  shows "st_tables s' = st_tables s \<and> st_cache s' = st_cache s \<and>
    ((\<exists>e. r = Inl e) \<and> s' = s \<or> appended_version key (pr_subject p) (st_versions s) (st_versions s'))"
proof -
  obtain t' r' where c: "create_rule_set_version (ae_ext env) (ac_now c) (st_versions s) key d h (cr_description b)
      (pr_subject p) (cr_expected_current_version b) = (t', r')" by fastforce
  from c show ?thesis
  proof (cases rule: create_rule_set_version_cases)
    case (1 e)
    then show ?thesis using assms c by (auto simp: publish_version_def stored_def split: option.splits if_splits)
  next
    case 2
    then have "appended_version key (pr_subject p) (st_versions s) t'"
      by (auto simp: appended_version_def new_record_def)
    then show ?thesis using assms c by (auto simp: publish_version_def split: option.splits if_splits)
  qed
qed

lemma create_version_effect:
  assumes "create_version env c p key body s = (s', r)"
  shows "st_tables s' = st_tables s \<and>
    (s' = s \<or> appended_version key (pr_subject p) (st_versions s) (st_versions s'))"
proof -
  consider "s' = s"
  | b d h s'' x where "publish_version env c key b d h p s = (s'', x)"
      "s' = s'' \<and> (\<exists>e. x = Inl e) \<or> (\<exists>rs. x = Inr rs \<and> s' = cache_active env c rs s'')"
    using assms by (fastforce simp: create_version_def split: sum.splits option.splits prod.splits)
  then show ?thesis
  proof cases
    case (2 b d h s'' x)
    then show ?thesis using publish_version_effect [OF 2(1)] by (auto simp: cache_active_def Let_def)
  qed simp
qed

lemma route_effect:
  assumes "route env c p req s = (s', r)"
  shows "st_tables s' = st_tables s \<and>
    (s' = s \<or> (\<exists>key body. req = CreateVersion key body \<and>
       appended_version key (pr_subject p) (st_versions s) (st_versions s')))"
  using assms by (cases req) (auto simp: route_def dest: create_version_effect)

section \<open>Status codes\<close>

definition error_statuses :: "int set" where "error_statuses = {400, 401, 403, 404, 409, 422, 429, 500, 503}"

text \<open>An error has the one shape that clients rely on, and 503 tells when to retry.\<close>

definition error_shaped :: "string option \<Rightarrow> response \<Rightarrow> bool" where
  "error_shaped correlation r \<longleftrightarrow>
     re_status r \<in> error_statuses \<and>
     (\<exists>code message details. re_body r = ErrorBody code message details correlation \<and>
        (if re_status r = 500 then code = ''internal_error'' else map_of ERROR_CODES (re_status r) = Some code)) \<and>
     (re_status r = 503 \<longrightarrow> re_headers r = [(''Retry-After'', ''5'')])"

lemma unhandled_shaped: "error_shaped correlation (unhandled_response correlation x)"
  by (simp add: unhandled_response_def error_response_def error_shaped_def error_statuses_def ERROR_CODES_def)

lemma exception_shaped: "error_shaped correlation (exception_response correlation x)"
  using unhandled_shaped [of correlation x]
  by (auto simp: exception_response_def error_response_def error_shaped_def error_statuses_def ERROR_CODES_def
      split: option.splits)

lemma error_shaped_codes:
  "st \<in> {400, 401, 403, 404, 409, 422, 429} \<Longrightarrow>
   error_shaped correlation (error_response correlation st message details headers None)"
  by (auto simp: error_shaped_def error_response_def error_statuses_def ERROR_CODES_def)

definition api_error_ok :: "api_error \<Rightarrow> bool" where
  "api_error_ok e = (case e of Http (HttpError st _ _) \<Rightarrow> st \<in> {400, 401, 403, 429} | _ \<Rightarrow> True)"

lemma respond_error_shaped:
  "api_error_ok e \<Longrightarrow> error_shaped correlation (respond_error text correlation e)"
  by (auto simp: respond_error_def api_error_ok_def exception_shaped error_shaped_codes split: api_error.splits http_error.splits)

definition errors_ok :: "api_error + 'a \<Rightarrow> bool" where
  "errors_ok r \<longleftrightarrow> (\<forall>e. r = Inl e \<longrightarrow> api_error_ok e)"

lemma errors_ok_simps [simp]:
  "errors_ok (Inr y)" "errors_ok (raised x)" "errors_ok (checked_input m)" "errors_ok (stored missing n)"
  "errors_ok (Inl (Http (HttpError 400 detail headers)))"
  by (auto simp: errors_ok_def api_error_ok_def checked_input_def stored_def split: sum.splits)

lemma errors_ok_bind: "errors_ok m \<Longrightarrow> (\<And>x. errors_ok (f x)) \<Longrightarrow> errors_ok (err_bind m f)"
  by (cases m) (auto simp: errors_ok_def)

lemma errors_ok_query: "errors_ok m \<Longrightarrow> errors_ok (query outage m)"
  by (cases outage) (simp_all add: query_def)

lemmas errors_ok_intros = errors_ok_bind errors_ok_query

lemma create_version_errors: "create_version env c p key body s = (s', r) \<Longrightarrow> errors_ok r"
  by (auto simp: create_version_def publish_version_def checked_input_def api_error_ok_def errors_ok_def stored_def
      split: sum.splits option.splits prod.splits)

lemma route_errors: "errors_ok (snd (route env c p req s))"
proof (cases req)
  case (CreateVersion key body)
  then show ?thesis using create_version_errors by (cases "create_version env c p key body s") (fastforce simp: route_def)
qed (auto simp: route_def get_transaction_by_id_def list_transaction_decisions_def page_cursor_of_def list_versions_def
    get_active_version_def get_version_def evaluate_rules_def
    intro!: errors_ok_intros split: option.splits sum.splits cursor_error.splits prod.splits)

lemma route_success:
  assumes "route env c p req s = (s', Inr (st, headers, a))"
  shows "st \<in> {200, 201}"
proof (cases req)
  case (CreateVersion key body)
  then show ?thesis using assms
    by (auto simp: route_def create_version_def split: sum.splits option.splits prod.splits)
qed (use assms in \<open>auto simp: route_def get_transaction_by_id_def list_transaction_decisions_def list_versions_def
    get_active_version_def get_version_def evaluate_rules_def query_def
    split: option.splits sum.splits prod.splits if_splits\<close>)

text \<open>The database raises none of the application's own exceptions.\<close>

definition library_errors :: "api_conditions \<Rightarrow> bool" where
  "library_errors c \<longleftrightarrow>
     (\<forall>b x. ac_commit_outage c = Some (b, x) \<longrightarrow> list_all (\<lambda>k. k \<notin> set HANDLED) (exc_mro x))"

lemma library_error_status:
  assumes "list_all (\<lambda>k. k \<notin> set HANDLED) (exc_mro x)"
  shows "re_status (exception_response correlation x) \<in> {500, 503}"
proof -
  have "find (\<lambda>k. k \<in> set HANDLED) (exc_mro x) = None"
    using assms by (auto simp: find_None_iff list_all_iff)
  then show ?thesis by (simp add: exception_response_def unhandled_response_def error_response_def)
qed

lemma corrupt_rule_set_status:
  "re_status (exception_response correlation (store_exception missing (CorruptRuleSetError e))) = 500"
  by (simp add: exception_response_def store_exception_def own_error_def HANDLED_def own_mro error_response_def)

lemma failed_publication:
  assumes "publish_version env c key b d h p s = (s', Inl e)" "s' \<noteq> s" "library_errors c"
  shows "re_status (respond_error text correlation e) \<in> {500, 503}"
proof -
  obtain t' r' where c: "create_rule_set_version (ae_ext env) (ac_now c) (st_versions s) key d h (cr_description b)
      (pr_subject p) (cr_expected_current_version b) = (t', r')" by fastforce
  show ?thesis
  proof (cases "ac_commit_outage c")
    case (Some y)
    then obtain committed x where "ac_commit_outage c = Some (committed, x)" by (cases y) auto
    then show ?thesis
      using assms c library_error_status [of x correlation] by (auto simp: publish_version_def respond_error_def library_errors_def)
  next
    case None
    from c show ?thesis
    proof (cases rule: create_rule_set_version_cases)
      case (1 e)
      then show ?thesis using assms c None by (auto simp: publish_version_def)
    next
      case 2
      then obtain cr where "r' = Inl (CorruptRuleSetError cr)"
        using assms(1) c None by (auto simp: publish_version_def stored_def rule_set_from_record_def split: sum.splits)
      then show ?thesis
        using assms(1) c None corrupt_rule_set_status [of correlation "[]" cr]
        by (auto simp: publish_version_def stored_def respond_error_def)
    qed
  qed
qed

lemma failed_route_effect:
  assumes "route env c p req s = (s', Inl e)" "s' \<noteq> s" "library_errors c"
  shows "re_status (respond_error text correlation e) \<in> {500, 503}"
proof (cases req)
  case (CreateVersion key body)
  then have "create_version env c p key body s = (s', Inl e)" using assms(1) by (simp add: route_def)
  then obtain b d h where "publish_version env c key b d h p s = (s', Inl e)"
    using assms(2) by (fastforce simp: create_version_def split: sum.splits option.splits prod.splits)
  then show ?thesis using failed_publication assms(2,3) by blast
qed (use assms in \<open>auto simp: route_def\<close>)

text \<open>The three ways in which a request is served.\<close>

lemma serve_cases:
  assumes "serve env c call req (g, s) = ((g', s'), r)"
  obtains (refused) e where "s' = s" "r = respond_error (ae_problem_text env) (ac_correlation c) e" "api_error_ok e"
  | (routed) p out where
      "require_scope (ae_lib env) (sha256 (ae_ext env)) (ae_jwt env) (ae_limits env) (needed_scope env req) call g = (g', Inr p)"
      "route env c p req s = (s', out)" "r = respond (ae_problem_text env) (ac_correlation c) out"
proof (cases "body_is_json req")
  case False
  then show ?thesis using assms refused [of "Validation [([''body''], WrongJsonType)]"]
    by (simp add: serve_def api_error_ok_def)
next
  case True
  obtain g2 out where req: "require_scope (ae_lib env) (sha256 (ae_ext env)) (ae_jwt env) (ae_limits env)
      (needed_scope env req) call g = (g2, out)" by fastforce
  show ?thesis
  proof (cases out)
    case (Inl e)
    have "api_error_ok (Http e)"
      using req Inl by (cases e) (auto simp: api_error_ok_def dest!: require_scope_Inl)
    then show ?thesis using assms True req Inl refused [of "Http e"] by (simp add: serve_def)
  next
    case (Inr p)
    then show ?thesis using assms True req routed [of p "snd (route env c p req s)"]
      by (auto simp: serve_def split: prod.splits)
  qed
qed


text \<open>An answer has status 200 or 201; an error has the one shape, and a client error changed nothing.\<close>

lemma served_shape:
  assumes "serve env c call req (g, s) = ((g', s'), r)" "library_errors c"
  shows "re_status r \<in> {200, 201} \<and> (\<exists>a. re_body r = Answer a) \<or>
    error_shaped (ac_correlation c) r \<and> (re_status r < 500 \<longrightarrow> s' = s)"
  using assms(1)
proof (cases rule: serve_cases)
  case (refused e)
  then show ?thesis using respond_error_shaped by simp
next
  case (routed p out)
  show ?thesis
  proof (cases out)
    case (Inl e)
    have "api_error_ok e" using route_errors [of env c p req s] routed(2) Inl by (simp add: errors_ok_def)
    then show ?thesis
      using respond_error_shaped [of e "ac_correlation c" "ae_problem_text env"] routed(3) Inl
        failed_route_effect [OF routed(2) [unfolded Inl] _ assms(2), of "ae_problem_text env" "ac_correlation c"]
      by (cases "s' = s") (auto simp: respond_def)
  next
    case (Inr x)
    obtain st headers a where "x = (st, headers, a)" by (cases x)
    then show ?thesis using route_success [of env c p req s s' st headers a] routed(2,3) Inr by (auto simp: respond_def)
  qed
qed


section \<open>Paging through the API\<close>

text \<open>One request of a client that lists decisions: the rows and the token of the next page.\<close>

definition api_page ::
    "cursor_externals \<Rightarrow> api_conditions \<Rightarrow> list_query_params \<Rightarrow> stores \<Rightarrow> string option \<Rightarrow>
     transaction_record list \<times> string option" where
  "api_page cx c q s token =
     (case list_transaction_decisions cx c (q\<lparr>lq_cursor := token\<rparr>) s of
        Inr (_, _, TransactionPage rows _ next_token) \<Rightarrow> (rows, next_token)
      | _ \<Rightarrow> ([], None))"

definition filters_of :: "list_query_params \<Rightarrow> string option \<Rightarrow> transaction_filters" where
  "filters_of q category =
     \<lparr>f_user_id = lq_user_id q, f_category = category, f_is_fraud = lq_is_fraud q,
      f_verdict = map_option verdict_value (lq_verdict q), f_occurred_from = lq_occurred_from q,
      f_occurred_to = lq_occurred_to q\<rparr>"

text \<open>The category filter is normalised like the category of an event.\<close>

definition category_filter :: "list_query_params \<Rightarrow> string option \<Rightarrow> bool" where
  "category_filter q category \<longleftrightarrow>
     (case lq_category q of
        None \<Rightarrow> category = None
      | Some x \<Rightarrow> (case Category (JStr x) of Inl _ \<Rightarrow> False | Inr y \<Rightarrow> category = Some y))"

definition tokens_ok :: "cursor_externals \<Rightarrow> bool" where
  "tokens_ok cx \<longleftrightarrow> cursor_externals_ok cx \<and>
     (\<forall>k. cursor_ok k \<longrightarrow> encode_cursor cx k \<noteq> [] \<and> length (encode_cursor cx k) \<le> 256)"

lemma api_page_page_of:
  assumes "tokens_ok cx" "ac_outage c = None" "category_filter q category" "lq_limit q = int n"
    and "1 \<le> n" "int n \<le> MAX_PAGE_SIZE" "\<And>k. cursor = Some k \<Longrightarrow> cursor_ok k"
  shows "api_page cx c q s (map_option (encode_cursor cx) cursor) =
    (let (rows, k) = page_of (st_tables s, filters_of q category) n cursor in (rows, map_option (encode_cursor cx) k))"
proof -
  have "if_present (\<lambda>x. located ''query'' (located ''category'' (Category (JStr x)))) (lq_category q) = Inr category"
    using assms(3) by (auto simp: category_filter_def if_present_def located_def split: option.splits sum.splits)
  moreover have "check_limit (lq_limit q) = Inr (int n)" using assms(4-6) by (simp add: check_limit_def)
  moreover have "if_present check_cursor_text (map_option (encode_cursor cx) cursor) = Inr (map_option (encode_cursor cx) cursor)"
    using assms(1,7) by (cases cursor) (auto simp: if_present_def check_cursor_text_def tokens_ok_def not_less)
  moreover have "page_cursor_of cx (map_option (encode_cursor cx) cursor) = Inr cursor"
    using assms(1,7) by (cases cursor) (auto simp: page_cursor_of_def tokens_ok_def cursor_roundtrip)
  ultimately show ?thesis
    using assms(2,5,6)
    by (simp add: api_page_def list_transaction_decisions_def checked_input_def query_def page_of_def filters_of_def
        split: sum.splits prod.splits)
qed

lemma page_of_rows: "set (fst (page_of (db, f) n cursor)) \<subseteq> set (transactions db)"
  by (auto simp: page_of_def list_transactions_def list_query_def newest_first_def Let_def split: sum.splits if_splits
      dest!: in_set_takeD)

lemma api_pages:
  assumes "tokens_ok cx" "ac_outage c = None" "category_filter q category" "lq_limit q = int n"
    and "1 \<le> n" "int n \<le> MAX_PAGE_SIZE" "\<And>r. r \<in> set (transactions (st_tables s)) \<Longrightarrow> cursor_ok (page_key r)"
    and "distinct (map (\<lambda>r. td_transaction_id (tr_decision r)) (transactions (st_tables s)))"
    and "\<And>k. cursor = Some k \<Longrightarrow> cursor_ok k"
  shows "fetch_pages (api_page cx c q s) fuel (map_option (encode_cursor cx) cursor) =
    fetch_pages (page_of (st_tables s, filters_of q category) n) fuel cursor"
  using assms(9)
proof (induction fuel arbitrary: cursor)
  case (Suc fuel)
  let ?page = "page_of (st_tables s, filters_of q category) n"
  note step = api_page_page_of [where s = s and cursor = cursor, OF assms(1-6) Suc.prems]
  have "cursor_ok k" if "snd (?page cursor) = Some k" for k
  proof -
    have "k = page_key (last (fst (?page cursor)))" "fst (?page cursor) \<noteq> []"
      using transaction_pages.page_next [of "(st_tables s, filters_of q category)" n cursor k]
        transaction_pages.page_rows [of "(st_tables s, filters_of q category)" n cursor] that assms(5,6,8) by auto
    moreover from this have "last (fst (?page cursor)) \<in> set (transactions (st_tables s))"
      using page_of_rows last_in_set by blast
    ultimately show ?thesis using assms(7) by simp
  qed
  then show ?case
    using Suc.IH [of "snd (?page cursor)"] step
    by (cases "snd (?page cursor)") (simp_all add: Let_def case_prod_beta)
qed simp

text \<open>
  C21: paging through the API is complete: a client that follows \<open>next_cursor\<close> from the first page,
  with any filters and any page size the endpoint accepts, receives every decision the filters select
  exactly once, newest first; the position of a page survives the text of its cursor.
\<close>

theorem api_paging_complete:
  assumes "tables_ok (st_tables s)" "tokens_ok cx" "ac_outage c = None" "category_filter q category"
    and "lq_limit q = int n" "1 \<le> n" "int n \<le> MAX_PAGE_SIZE"
    and "\<And>r. r \<in> set (transactions (st_tables s)) \<Longrightarrow> cursor_ok (page_key r)"
  shows "let rows = concat (fetch_pages (api_page cx c q s) (Suc (length (transactions (st_tables s)))) None)
    in rows = newest_first (filter (matches (filters_of q category)) (transactions (st_tables s))) \<and>
       distinct (map (\<lambda>r. td_transaction_id (tr_decision r)) rows)"
proof -
  have d: "distinct (map (\<lambda>r. td_transaction_id (tr_decision r)) (transactions (st_tables s)))"
    using assms(1) by (simp add: tables_ok_def)
  let ?f = "filters_of q category"
  have "concat (fetch_pages (page_of (st_tables s, ?f) n) (Suc (length (transactions (st_tables s)))) None) =
      matching_transactions (st_tables s, ?f)"
    using transaction_pages.all_pages [of "(st_tables s, ?f)" n None "Suc (length (transactions (st_tables s)))"] d assms(6,7)
    by (simp add: matching_transactions_def newest_first_def le_imp_less_Suc del: fetch_pages.simps)
  moreover have "distinct (map (\<lambda>r. td_transaction_id (tr_decision r)) (matching_transactions (st_tables s, ?f)))"
    using d by (auto simp: matching_transactions_def newest_first_def distinct_map inj_on_def)
  ultimately show ?thesis
    using api_pages [where cursor = None and fuel = "Suc (length (transactions (st_tables s)))", OF assms(2-8) d]
    by (simp add: matching_transactions_def del: fetch_pages.simps)
qed


end
