(* ===== verification/Observability.thy ===== *)
theory Observability
  imports Http_Api_Facts
begin

text \<open>
  The correlation ids and the log redaction of \<open>app/observability.py\<close>, and the middleware that binds the
  ids to a request. A log record is a JSON value whose tuples are lists. New ids are inputs.
\<close>

section \<open>Correlation ids\<close>

definition safe_id_char :: "char \<Rightarrow> bool" where
  "safe_id_char c \<longleftrightarrow> is_letter c \<or> is_digit c \<or> c \<in> {CHR ''.'', CHR ''_'', CHR '':'', CHR ''-''}"

text \<open>\<open>_SAFE_ID.match\<close>: the \<open>$\<close> of Python's \<open>re\<close> also matches before a final newline.\<close>

definition safe_id :: "string \<Rightarrow> bool" where
  "safe_id s \<longleftrightarrow>
     (let t = (if s \<noteq> [] \<and> last s = CHR 0x0A then butlast s else s)
      in 1 \<le> length t \<and> length t \<le> 128 \<and> list_all safe_id_char t)"

definition sanitise_correlation_id :: "json \<Rightarrow> string option" where
  "sanitise_correlation_id v = (case v of JStr s \<Rightarrow> if safe_id s then Some s else None | _ \<Rightarrow> None)"

definition bind_correlation_id :: "string \<Rightarrow> string option \<Rightarrow> string" where
  "bind_correlation_id new_id v =
     (case v of
        None \<Rightarrow> new_id
      | Some s \<Rightarrow> (case sanitise_correlation_id (JStr s) of None \<Rightarrow> new_id | Some t \<Rightarrow> t))"

section \<open>Redaction\<close>

definition REDACTED :: json where "REDACTED = JStr ''[REDACTED]''"

fun redact :: "string set \<Rightarrow> json \<Rightarrow> json" where
  "redact keys (JDict kvs) = JDict (map (\<lambda>(k, v). (k, if to_lower k \<in> keys then REDACTED else redact keys v)) kvs)"
| "redact keys (JList vs) = JList (map (redact keys) vs)"
| "redact keys v = v"

definition redaction_processor :: "string list \<Rightarrow> json \<Rightarrow> json" where
  "redaction_processor sensitive_keys event_dict = redact (set (map to_lower sensitive_keys)) event_dict"

section \<open>The request context\<close>

record request_headers =
  rh_request_id :: "string option"
  rh_correlation_id :: "string option"

definition set_header :: "string \<Rightarrow> string \<Rightarrow> (string \<times> string) list \<Rightarrow> (string \<times> string) list" where
  "set_header name v headers = filter (\<lambda>(n, _). n \<noteq> name) headers @ [(name, v)]"

text \<open>
  \<open>RequestContextMiddleware.dispatch\<close>: the ids are bound before the request is handled, and returned in
  the headers of the response.
\<close>

definition with_context :: "string \<Rightarrow> string \<Rightarrow> request_headers \<Rightarrow> (string option \<Rightarrow> 's \<times> response) \<Rightarrow> 's \<times> response" where
  "with_context fresh_request fresh_correlation h handle =
     (let request_id = (case rh_request_id h of
            None \<Rightarrow> fresh_request
          | Some s \<Rightarrow> (case sanitise_correlation_id (JStr s) of None \<Rightarrow> fresh_request | Some t \<Rightarrow> t));
          correlation_id = bind_correlation_id fresh_correlation (rh_correlation_id h);
          (s, r) = handle (Some correlation_id)
      in (s, r\<lparr>re_headers := set_header ''x-correlation-id'' correlation_id
                (set_header ''x-request-id'' request_id (re_headers r))\<rparr>))"

definition serve_with_context ::
    "'k api_env \<Rightarrow> api_conditions \<Rightarrow> string \<Rightarrow> string \<Rightarrow> request_headers \<Rightarrow> 'k call \<Rightarrow> api_request \<Rightarrow>
     'k guard_state \<times> stores \<Rightarrow> ('k guard_state \<times> stores) \<times> response" where
  "serve_with_context env c fresh_request fresh_correlation h call req gs =
     with_context fresh_request fresh_correlation h (\<lambda>correlation. serve env (c\<lparr>ac_correlation := correlation\<rparr>) call req gs)"

section \<open>No secret in the logs\<close>

text \<open>The values under a sensitive key, at any depth.\<close>

fun secrets_in :: "string set \<Rightarrow> json \<Rightarrow> json list" where
  "secrets_in keys (JDict kvs) =
     concat (map (\<lambda>(k, v). if to_lower k \<in> keys then [v] else secrets_in keys v) kvs)"
| "secrets_in keys (JList vs) = concat (map (secrets_in keys) vs)"
| "secrets_in keys v = []"

lemma redacted_secrets: "set (secrets_in keys (redact keys v)) \<subseteq> {REDACTED}"
proof (induction keys v rule: redact.induct)
  case (1 keys kvs)
  then have "set (secrets_in keys (redact keys v)) \<subseteq> {REDACTED}" if "(k, v) \<in> set kvs" "to_lower k \<notin> keys" for k v
    using that by blast
  then show ?case by (auto split: if_splits) blast+
qed auto

lemma redact_idem: "redact keys (redact keys v) = redact keys v"
  by (induction keys v rule: redact.induct) (auto simp: REDACTED_def)

text \<open>Records without sensitive keys are logged unchanged.\<close>

lemma redact_harmless: "secrets_in keys v = [] \<Longrightarrow> redact keys v = v"
proof (induction keys v rule: redact.induct)
  case (1 keys kvs)
  have "(k, if to_lower k \<in> keys then REDACTED else redact keys v) = (k, v)" if "(k, v) \<in> set kvs" for k v
    using 1 that by (fastforce split: if_splits)
  then have "map (\<lambda>(k, v). (k, if to_lower k \<in> keys then REDACTED else redact keys v)) kvs = kvs"
    by (intro map_idI) auto
  then show ?case by simp
next
  case (2 keys vs)
  then show ?case by (auto intro: map_idI)
qed simp_all

text \<open>An accepted id holds no character that could forge a log line, except for one newline at its end.\<close>

lemma sanitised_id:
  "sanitise_correlation_id v = Some s \<Longrightarrow> length s \<le> 129 \<and> list_all safe_id_char (butlast s) \<and>
     (safe_id_char (last s) \<or> last s = CHR 0x0A)"
  by (cases s rule: rev_cases)
    (auto simp: sanitise_correlation_id_def safe_id_def Let_def split: json.splits if_splits)

lemma newline_accepted: "sanitise_correlation_id (JStr [CHR ''a'', CHR 0x0A]) = Some [CHR ''a'', CHR 0x0A]"
  by code_simp

text \<open>Every response names the correlation id that an error body of it carries.\<close>

lemma context_header:
  assumes "serve_with_context env c fresh_request fresh_correlation h call req gs = (gs', r)"
    and "library_errors c"
  shows "\<exists>correlation. map_of (re_headers r) ''x-correlation-id'' = Some correlation \<and>
    (\<forall>code message details id. re_body r = ErrorBody code message details id \<longrightarrow> id = Some correlation)"
proof -
  let ?id = "bind_correlation_id fresh_correlation (rh_correlation_id h)"
  obtain g s where gs: "gs = (g, s)" by (cases gs)
  obtain g' s' r' where served: "serve env (c\<lparr>ac_correlation := Some ?id\<rparr>) call req (g, s) = ((g', s'), r')"
    by (metis prod.collapse)
  have "library_errors (c\<lparr>ac_correlation := Some ?id\<rparr>)" using assms(2) by (simp add: library_errors_def)
  from served_shape [OF served this]
  have "\<forall>code message details id. re_body r' = ErrorBody code message details id \<longrightarrow> id = Some ?id"
    by (auto simp: error_shaped_def)
  moreover have "map_of (set_header ''x-correlation-id'' v headers) ''x-correlation-id'' = Some v" for v headers
    by (auto simp: set_header_def map_add_def map_of_eq_None_iff split: option.splits dest!: map_of_SomeD)
  ultimately show ?thesis
    using assms(1) served by (auto simp: serve_with_context_def with_context_def gs Let_def)
qed

end
