(* ===== verification/Metrics.thy ===== *)
theory Metrics
  imports Observability Rate_Limit_Facts
begin

text \<open>
  The metrics of \<open>app/observability.py\<close>: what the wrapper functions and the middleware record. The
  registry of the Prometheus client maps a metric name and its label values to a number; a histogram
  is the pair of series \<open>_count\<close> and \<open>_sum\<close> (its buckets are left out).
\<close>

section \<open>The registry\<close>

type_synonym registry = "string \<times> string list \<Rightarrow> rat option"

definition series_value :: "registry \<Rightarrow> string \<Rightarrow> string list \<Rightarrow> rat" where
  "series_value m name labels = (case m (name, labels) of None \<Rightarrow> 0 | Some v \<Rightarrow> v)"

definition add_to :: "string \<Rightarrow> string list \<Rightarrow> rat \<Rightarrow> registry \<Rightarrow> registry" where
  "add_to name labels v m = m((name, labels) \<mapsto> series_value m name labels + v)"

definition inc :: "string \<Rightarrow> string list \<Rightarrow> registry \<Rightarrow> registry" where
  "inc name labels m = add_to name labels 1 m"

definition set_gauge :: "string \<Rightarrow> string list \<Rightarrow> rat \<Rightarrow> registry \<Rightarrow> registry" where
  "set_gauge name labels v m = m((name, labels) \<mapsto> v)"

definition observe :: "string \<Rightarrow> string list \<Rightarrow> rat \<Rightarrow> registry \<Rightarrow> registry" where
  "observe name labels v m = add_to (name @ ''_sum'') labels v (inc (name @ ''_count'') labels m)"

text \<open>\<open>Gauge.remove\<close> raises \<open>KeyError\<close> for a series that does not exist.\<close>

definition remove_series :: "string \<Rightarrow> string list \<Rightarrow> registry \<Rightarrow> registry option" where
  "remove_series name labels m = (case m (name, labels) of None \<Rightarrow> None | Some _ \<Rightarrow> Some (m((name, labels) := None)))"

section \<open>The wrappers\<close>

definition worker_message_timer :: "string \<Rightarrow> string \<Rightarrow> rat \<Rightarrow> registry \<Rightarrow> registry" where
  "worker_message_timer service topic elapsed = observe ''fraud_worker_message_duration_seconds'' [service, topic] elapsed"

definition worker_message_outcome :: "string \<Rightarrow> string \<Rightarrow> string \<Rightarrow> registry \<Rightarrow> registry" where
  "worker_message_outcome service topic status = inc ''fraud_worker_messages_total'' [service, topic, status]"

definition worker_retry :: "string \<Rightarrow> string \<Rightarrow> registry \<Rightarrow> registry" where
  "worker_retry service failure_class = inc ''fraud_worker_retries_total'' [service, failure_class]"

definition worker_fraud_decision :: "string \<Rightarrow> string \<Rightarrow> string list \<Rightarrow> registry \<Rightarrow> registry" where
  "worker_fraud_decision service verdict triggered m =
     fold (\<lambda>rule. inc ''fraud_worker_rule_triggers_total'' [service, rule]) triggered
       (inc ''fraud_worker_decisions_total'' [service, verdict] m)"

definition set_partition_backlog :: "string \<Rightarrow> int \<Rightarrow> nat \<Rightarrow> registry \<Rightarrow> registry" where
  "set_partition_backlog service number size' =
     set_gauge ''fraud_worker_partition_backlog'' [service, show_int number] (of_nat size')"

definition set_partition_blocked :: "string \<Rightarrow> int \<Rightarrow> rat \<Rightarrow> registry \<Rightarrow> registry" where
  "set_partition_blocked service number seconds =
     set_gauge ''fraud_worker_partition_blocked_seconds'' [service, show_int number] seconds"

definition remove_partition_metrics :: "string \<Rightarrow> int \<Rightarrow> registry \<Rightarrow> registry" where
  "remove_partition_metrics service number m =
     fold (\<lambda>gauge m. case remove_series gauge [service, show_int number] m of None \<Rightarrow> m | Some m' \<Rightarrow> m')
       [''fraud_worker_partition_backlog'', ''fraud_worker_partition_blocked_seconds''] m"

definition record_rule_cache_lookup :: "string \<Rightarrow> registry \<Rightarrow> registry" where
  "record_rule_cache_lookup layer = inc ''fraud_rule_cache_lookups_total'' [layer]"

definition record_rule_set_rejected :: "string \<Rightarrow> registry \<Rightarrow> registry" where
  "record_rule_set_rejected key = inc ''fraud_rule_set_rejected_total'' [key]"

definition record_rate_limiter_error :: "registry \<Rightarrow> registry" where
  "record_rate_limiter_error = inc ''fraud_rate_limiter_errors_total'' []"

definition set_database_health :: "string \<Rightarrow> bool \<Rightarrow> registry \<Rightarrow> registry" where
  "set_database_health service healthy = set_gauge ''fraud_database_up'' [service] (if healthy then 1 else 0)"

definition set_kafka_health :: "string \<Rightarrow> string \<Rightarrow> bool \<Rightarrow> registry \<Rightarrow> registry" where
  "set_kafka_health service part healthy = set_gauge ''fraud_kafka_up'' [service, part] (if healthy then 1 else 0)"

text \<open>\<open>ping_database\<close>: the gauge is set before the exception of the query goes on.\<close>

definition ping_database :: "py_exception option \<Rightarrow> string \<Rightarrow> registry \<Rightarrow> registry \<times> (py_exception + unit)" where
  "ping_database outage service m =
     (case outage of
        Some x \<Rightarrow> (set_database_health service False m, Inl x)
      | None \<Rightarrow> (set_database_health service True m, Inr ()))"

text \<open>\<open>FraudWorker._clear_blocked\<close>, and librdkafka's error callback in the worker.\<close>

definition clear_blocked :: "string \<Rightarrow> int \<Rightarrow> rat option \<Rightarrow> registry \<Rightarrow> registry" where
  "clear_blocked service number failing_since m =
     (case failing_since of None \<Rightarrow> m | Some _ \<Rightarrow> set_partition_blocked service number 0 m)"

definition log_kafka_client_error :: "string \<Rightarrow> bool \<Rightarrow> registry \<Rightarrow> registry" where
  "log_kafka_client_error service unreachable m =
     (if unreachable then set_kafka_health service ''consumer'' False m else m)"

section \<open>Requests\<close>

text \<open>
  \<open>_resolved_route_template\<close>: the route in the scope, or the first route that matches fully. A route is
  its template and whether it matches; what is not a \<open>Route\<close> is not in the list.
\<close>

definition resolved_route_template :: "string option \<Rightarrow> (string \<times> bool) list \<Rightarrow> string" where
  "resolved_route_template scoped routes =
     (case scoped of
        Some path \<Rightarrow> path
      | None \<Rightarrow> (case find snd routes of Some (path, _) \<Rightarrow> path | None \<Rightarrow> ''<unmatched>''))"

text \<open>What the middleware records at the end of a request; \<open>None\<close> is a request whose handling raised.\<close>

definition record_request :: "string \<Rightarrow> string \<Rightarrow> string \<Rightarrow> int option \<Rightarrow> rat \<Rightarrow> registry \<Rightarrow> registry" where
  "record_request service method route_template status elapsed m =
     (let status_code = (case status of None \<Rightarrow> 500 | Some s \<Rightarrow> s)
      in observe ''fraud_http_request_duration_seconds'' [service, method, route_template] elapsed
           (inc ''fraud_http_requests_total'' [service, method, route_template, show_int status_code] m))"

definition logs_request :: "string \<Rightarrow> int \<Rightarrow> bool" where
  "logs_request route_template status_code \<longleftrightarrow>
     route_template \<notin> {''/live'', ''/ready'', ''/metrics''} \<or> 400 \<le> status_code"

section \<open>What they record\<close>

named_theorems metric_defs

lemmas [metric_defs] = inc_def add_to_def set_gauge_def observe_def series_value_def

lemma inc_value: "series_value (inc name labels m) n ls = series_value m n ls + (if (n, ls) = (name, labels) then 1 else 0)"
  by (simp add: metric_defs)

text \<open>A decision is counted once under its verdict, and every rule as often as it is listed.\<close>

lemma fold_inc_value:
  "series_value (fold (\<lambda>rule. inc name [service, rule]) rs m) n ls =
     series_value m n ls + (if n = name then of_nat (length (filter (\<lambda>r. ls = [service, r]) rs)) else 0)"
  by (induction rs arbitrary: m) (simp_all add: inc_value)

lemma decision_counted:
  "series_value (worker_fraud_decision service verdict rs m) ''fraud_worker_decisions_total'' [service, verdict] =
     series_value m ''fraud_worker_decisions_total'' [service, verdict] + 1"
  "series_value (worker_fraud_decision service verdict rs m) ''fraud_worker_rule_triggers_total'' [service, rule] =
     series_value m ''fraud_worker_rule_triggers_total'' [service, rule] + of_nat (count_list rs rule)"
  by (simp_all add: worker_fraud_decision_def fold_inc_value inc_value count_list_eq_length_filter)

text \<open>
  A released partition has no series left, so a stale value cannot keep an alert firing; the series of
  other partitions stay, since partition numbers have different texts.
\<close>

lemma partition_metrics_removed:
  "remove_partition_metrics service number m (name, labels) =
     (if name \<in> {''fraud_worker_partition_backlog'', ''fraud_worker_partition_blocked_seconds''} \<and>
         labels = [service, show_int number]
      then None else m (name, labels))"
  by (auto simp: remove_partition_metrics_def remove_series_def split: option.splits)

lemma released_partition_silent:
  assumes "other \<noteq> number"
  shows "remove_partition_metrics service number (set_partition_backlog service number n m)
      (''fraud_worker_partition_backlog'', [service, show_int number]) = None"
    "remove_partition_metrics service number m (''fraud_worker_partition_backlog'', [service, show_int other]) =
       m (''fraud_worker_partition_backlog'', [service, show_int other])"
  using assms show_int_inj [of other number] by (auto simp: partition_metrics_removed)

text \<open>Labels are templates, never raw paths.\<close>

lemma route_label_bounded:
  assumes "\<And>path. scoped = Some path \<Longrightarrow> path \<in> fst ` set routes"
  shows "resolved_route_template scoped routes \<in> insert ''<unmatched>'' (fst ` set routes)"
  proof (cases scoped)
  case None
  show ?thesis
  proof (cases "find snd routes")
    case (Some r)
    then have "r \<in> set routes" by (auto simp: find_Some_iff)
    then have "fst r \<in> fst ` set routes" by (rule imageI)
    then show ?thesis by (simp add: None Some resolved_route_template_def case_prod_beta)
  qed (simp add: None resolved_route_template_def)
next
  case (Some path)
  with assms show ?thesis by (simp add: resolved_route_template_def)
qed

text \<open>Every request is counted once under its status, and an error is always logged.\<close>

lemma request_counted:
  "series_value (record_request service method r status elapsed m) ''fraud_http_requests_total''
     [service, method, r, show_int (case status of None \<Rightarrow> 500 | Some s \<Rightarrow> s)] =
   series_value m ''fraud_http_requests_total'' [service, method, r, show_int (case status of None \<Rightarrow> 500 | Some s \<Rightarrow> s)] + 1"
  by (simp add: record_request_def metric_defs Let_def)

lemma errors_logged: "400 \<le> status \<Longrightarrow> logs_request r status"
  by (simp add: logs_request_def)

end
