(* ===== verification/Settings.thy ===== *)
theory Settings
  imports Security
begin

text \<open>
  The configuration (\<open>app/settings.py\<close>): variables and secret files, the fields of \<open>Settings\<close> with their
  types, bounds and defaults, the validators, and \<open>from_env\<close>. A field is named by its variable. The
  class body is the table \<open>FIELDS\<close>; a \<open>Settings\<close> object is a map from names to values. Pydantic's
  reading of a number or a boolean from a text is a parameter.
\<close>

section \<open>Variables and secret files\<close>

datatype file_reply = FileText string | FileUnreadable | FileNotUtf8

record process_env =
  pe_getenv :: "string \<Rightarrow> string option"
  pe_read :: "string \<Rightarrow> file_reply"

datatype setting_problem =
    BadValue | OutOfRange | NoAlgorithms | UnsupportedAlgorithms "string list" | BadLogLevel | BackoffOrder

datatype settings_error =
    UnreadableSecret string
  | SecretNotText
  | MissingVariables "string list"
  | InvalidConfiguration "(string \<times> setting_problem) list"

text \<open>\<open>value not in (None, "")\<close>\<close>

definition given :: "string option \<Rightarrow> string option" where
  "given v = (case v of Some s \<Rightarrow> if s = [] then None else Some s | None \<Rightarrow> None)"

definition read_env :: "process_env \<Rightarrow> string \<Rightarrow> settings_error + string option" where
  "read_env env name =
     (case given (pe_getenv env name) of
        Some v \<Rightarrow> Inr (Some v)
      | None \<Rightarrow>
          (case given (pe_getenv env (name @ ''_FILE'')) of
             None \<Rightarrow> Inr None
           | Some path \<Rightarrow>
               (case pe_read env path of
                  FileUnreadable \<Rightarrow> Inl (UnreadableSecret name)
                | FileNotUtf8 \<Rightarrow> Inl SecretNotText
                | FileText t \<Rightarrow> Inr (Some (py_strip t)))))"

section \<open>Fields\<close>

datatype float_value = Finite rat | PosInf | NegInf | NaN

fun float_less :: "float_value \<Rightarrow> float_value \<Rightarrow> bool" where
  "float_less NaN y = False"
| "float_less x NaN = False"
| "float_less (Finite a) (Finite b) = (a < b)"
| "float_less NegInf y = (y \<noteq> NegInf)"
| "float_less (Finite a) y = (y = PosInf)"
| "float_less PosInf y = False"

datatype setting = TextS string | IntS int | FloatS float_value | BoolS bool | TextsS "string list"

text \<open>An integer field has a lower and perhaps an upper bound, a float field \<open>gt=0\<close> or \<open>ge=0\<close>.\<close>

datatype field_kind = TextField | IntField int "int option" | PositiveFloat | NonNegativeFloat | BoolField | CsvField

type_synonym field = "string \<times> field_kind \<times> setting option"

definition FIELDS :: "field list" where
  "FIELDS =
     [(''DATABASE_URL'', TextField, None),
      (''DB_POOL_SIZE'', IntField 1 None, Some (IntS 10)),
      (''DB_POOL_MAX_OVERFLOW'', IntField 0 None, Some (IntS 5)),
      (''DB_POOL_TIMEOUT_SECONDS'', PositiveFloat, Some (FloatS (Finite 5))),
      (''DB_STATEMENT_TIMEOUT_MS'', IntField 100 None, Some (IntS 5000)),
      (''REDIS_URL'', TextField, None),
      (''REDIS_MAX_CONNECTIONS'', IntField 1 None, Some (IntS 50)),
      (''REDIS_SOCKET_TIMEOUT_SECONDS'', PositiveFloat, Some (FloatS (Finite 2))),
      (''KAFKA_BOOTSTRAP_SERVERS'', TextField, None),
      (''KAFKA_TOPIC_NAME'', TextField, None),
      (''KAFKA_DLQ_TOPIC_NAME'', TextField, Some (TextS '''')),
      (''KAFKA_CONSUMER_GROUP_ID'', TextField, None),
      (''KAFKA_SECURITY_PROTOCOL'', TextField, Some (TextS ''PLAINTEXT'')),
      (''KAFKA_SSL_CA_LOCATION'', TextField, Some (TextS '''')),
      (''KAFKA_SSL_CERTIFICATE_LOCATION'', TextField, Some (TextS '''')),
      (''KAFKA_SSL_KEY_LOCATION'', TextField, Some (TextS '''')),
      (''KAFKA_SSL_KEY_PASSWORD'', TextField, Some (TextS '''')),
      (''KAFKA_OAUTH_TOKEN_URL'', TextField, Some (TextS '''')),
      (''KAFKA_OAUTH_CLIENT_ID'', TextField, Some (TextS '''')),
      (''KAFKA_OAUTH_CLIENT_SECRET'', TextField, Some (TextS '''')),
      (''KAFKA_OAUTH_SCOPE'', TextField, Some (TextS '''')),
      (''WORKER_METRICS_PORT'', IntField 1 (Some 65535), Some (IntS 9100)),
      (''WORKER_HEARTBEAT_PATH'', TextField, Some (TextS ''/tmp/fraud-worker-heartbeat'')),
      (''WORKER_PARTITION_HIGH_WATERMARK'', IntField 1 None, Some (IntS 500)),
      (''WORKER_MAX_UNEXPECTED_ERROR_ATTEMPTS'', IntField 1 None, Some (IntS 3)),
      (''WORKER_RETRY_INITIAL_BACKOFF_SECONDS'', PositiveFloat, Some (FloatS (Finite (1 / 2)))),
      (''WORKER_RETRY_MAX_BACKOFF_SECONDS'', PositiveFloat, Some (FloatS (Finite 30))),
      (''WORKER_MAX_GROUP_ABSENCE_SECONDS'', PositiveFloat, Some (FloatS (Finite 120))),
      (''WORKER_SHUTDOWN_TIMEOUT_SECONDS'', PositiveFloat, Some (FloatS (Finite 25))),
      (''RULE_SET_KEY'', TextField, Some (TextS ''fraud-default'')),
      (''RULE_LOCAL_CACHE_TTL_SECONDS'', NonNegativeFloat, Some (FloatS (Finite 5))),
      (''RULE_REDIS_CACHE_TTL_SECONDS'', IntField 1 None, Some (IntS 60)),
      (''JWT_ISSUER'', TextField, None),
      (''JWT_AUDIENCE'', TextField, None),
      (''JWT_JWKS_URL'', TextField, Some (TextS '''')),
      (''JWT_PUBLIC_KEY_PATH'', TextField, Some (TextS '''')),
      (''JWT_ALGORITHMS'', CsvField, Some (TextsS [''RS256''])),
      (''JWT_LEEWAY_SECONDS'', IntField 0 (Some 300), Some (IntS 30)),
      (''JWT_JWKS_MIN_REFRESH_INTERVAL_SECONDS'', NonNegativeFloat, Some (FloatS (Finite 60))),
      (''SCOPE_TRANSACTIONS_READ'', TextField, Some (TextS ''fraud:transactions:read'')),
      (''SCOPE_RULES_READ'', TextField, Some (TextS ''fraud:rules:read'')),
      (''SCOPE_RULES_WRITE'', TextField, Some (TextS ''fraud:rules:write'')),
      (''CORS_ALLOWED_ORIGINS'', CsvField, Some (TextsS [])),
      (''RATE_LIMIT_ENABLED'', BoolField, Some (BoolS True)),
      (''RATE_LIMIT_REQUESTS'', IntField 1 None, Some (IntS 100)),
      (''RATE_LIMIT_WINDOW_SECONDS'', IntField 1 None, Some (IntS 60)),
      (''BATCH_JOB_ENABLED'', BoolField, Some (BoolS False)),
      (''BATCH_RUN_HOUR'', IntField 0 (Some 23), Some (IntS 0)),
      (''BATCH_RUN_MINUTE'', IntField 0 (Some 59), Some (IntS 0)),
      (''BATCH_SUMMARY_WINDOW_HOURS'', IntField 1 None, Some (IntS 24)),
      (''OBSERVABILITY_LOG_LEVEL'', TextField, Some (TextS ''INFO'')),
      (''OBSERVABILITY_ENABLE_TRACING'', BoolField, Some (BoolS False)),
      (''OTEL_EXPORTER_OTLP_ENDPOINT'', TextField, Some (TextS '''')),
      (''LOGS_REDACT_FIELDS'', CsvField,
        Some (TextsS [''authorization'', ''password'', ''client_secret'', ''access_token'', ''refresh_token'', ''token'']))]"

section \<open>Validation\<close>

record text_readers =
  read_int :: "string \<Rightarrow> int option"
  read_float :: "string \<Rightarrow> float_value option"
  read_bool :: "string \<Rightarrow> bool option"

definition split_csv :: "string \<Rightarrow> string list" where
  "split_csv s = filter (\<lambda>p. p \<noteq> []) (map py_strip (split_on CHR '','' s))"

definition ALLOWED_JWT_ALGORITHMS :: "string list" where
  "ALLOWED_JWT_ALGORITHMS =
     [''RS256'', ''RS384'', ''RS512'', ''PS256'', ''PS384'', ''PS512'', ''ES256'', ''ES384'', ''ES512'']"

definition LOG_LEVELS :: "string list" where
  "LOG_LEVELS = [''DEBUG'', ''INFO'', ''WARNING'', ''ERROR'', ''CRITICAL'']"

fun in_range :: "field_kind \<Rightarrow> setting \<Rightarrow> bool" where
  "in_range TextField (TextS s) = True"
| "in_range (IntField lo hi) (IntS n) = (lo \<le> n \<and> (case hi of None \<Rightarrow> True | Some h \<Rightarrow> n \<le> h))"
| "in_range PositiveFloat (FloatS x) = float_less (Finite 0) x"
| "in_range NonNegativeFloat (FloatS x) = (x = Finite 0 \<or> float_less (Finite 0) x)"
| "in_range BoolField (BoolS b) = True"
| "in_range CsvField (TextsS xs) = True"
| "in_range _ _ = False"

fun convert :: "text_readers \<Rightarrow> field_kind \<Rightarrow> string \<Rightarrow> setting option" where
  "convert rd TextField s = Some (TextS s)"
| "convert rd (IntField lo hi) s = map_option IntS (read_int rd s)"
| "convert rd PositiveFloat s = map_option FloatS (read_float rd s)"
| "convert rd NonNegativeFloat s = map_option FloatS (read_float rd s)"
| "convert rd BoolField s = map_option BoolS (read_bool rd s)"
| "convert rd CsvField s = Some (TextsS (split_csv s))"

text \<open>The validators of single fields: algorithms must be asymmetric, the log level a standard one.\<close>

definition field_validator :: "string \<Rightarrow> setting \<Rightarrow> setting_problem + setting" where
  "field_validator name v =
     (if name = ''JWT_ALGORITHMS'' then
        (case v of
           TextsS xs \<Rightarrow>
             if xs = [] then Inl NoAlgorithms
             else (let rejected = filter (\<lambda>a. a \<notin> set ALLOWED_JWT_ALGORITHMS) xs
                   in if rejected \<noteq> [] then Inl (UnsupportedAlgorithms (sort (remdups rejected))) else Inr v)
         | _ \<Rightarrow> Inr v)
      else if name = ''OBSERVABILITY_LOG_LEVEL'' then
        (case v of
           TextS s \<Rightarrow> if to_upper s \<in> set LOG_LEVELS then Inr (TextS (to_upper s)) else Inl BadLogLevel
         | _ \<Rightarrow> Inr v)
      else Inr v)"

definition validate_field :: "text_readers \<Rightarrow> string \<Rightarrow> field_kind \<Rightarrow> string \<Rightarrow> setting_problem + setting" where
  "validate_field rd name kind s =
     (case convert rd kind s of
        None \<Rightarrow> Inl BadValue
      | Some v \<Rightarrow> if in_range kind v then field_validator name v else Inl OutOfRange)"

type_synonym settings = "string \<Rightarrow> setting option"

text \<open>Every field is validated, and all problems are reported; a default is used as it is.\<close>

fun validate_fields ::
    "text_readers \<Rightarrow> (string \<Rightarrow> string option) \<Rightarrow> field list \<Rightarrow> (string \<times> setting_problem) list + settings" where
  "validate_fields rd given_data [] = Inr (\<lambda>name. None)"
| "validate_fields rd given_data ((name, kind, default_value) # fs) =
     (case (case given_data name of
              Some s \<Rightarrow> map_sum (\<lambda>p. p) Some (validate_field rd name kind s)
            | None \<Rightarrow> Inr default_value) of
        Inl p \<Rightarrow> (case validate_fields rd given_data fs of Inl ps \<Rightarrow> Inl ((name, p) # ps) | Inr _ \<Rightarrow> Inl [(name, p)])
      | Inr v \<Rightarrow> (case validate_fields rd given_data fs of Inl ps \<Rightarrow> Inl ps | Inr s \<Rightarrow> Inr (s(name := v))))"

definition text_setting :: "settings \<Rightarrow> string \<Rightarrow> string" where
  "text_setting s name = (case s name of Some (TextS t) \<Rightarrow> t | _ \<Rightarrow> '''')"

definition int_setting :: "settings \<Rightarrow> string \<Rightarrow> int" where
  "int_setting s name = (case s name of Some (IntS n) \<Rightarrow> n | _ \<Rightarrow> 0)"

definition float_setting :: "settings \<Rightarrow> string \<Rightarrow> float_value" where
  "float_setting s name = (case s name of Some (FloatS x) \<Rightarrow> x | _ \<Rightarrow> NaN)"

definition bool_setting :: "settings \<Rightarrow> string \<Rightarrow> bool" where
  "bool_setting s name = (case s name of Some (BoolS b) \<Rightarrow> b | _ \<Rightarrow> False)"

definition texts_setting :: "settings \<Rightarrow> string \<Rightarrow> string list" where
  "texts_setting s name = (case s name of Some (TextsS xs) \<Rightarrow> xs | _ \<Rightarrow> [])"

definition derive_defaults :: "settings \<Rightarrow> (string \<times> setting_problem) list + settings" where
  "derive_defaults s =
     (let s = (if text_setting s ''KAFKA_DLQ_TOPIC_NAME'' = []
               then s(''KAFKA_DLQ_TOPIC_NAME'' \<mapsto> TextS (text_setting s ''KAFKA_TOPIC_NAME'' @ ''.dlq'')) else s)
      in if float_less (float_setting s ''WORKER_RETRY_MAX_BACKOFF_SECONDS'')
              (float_setting s ''WORKER_RETRY_INITIAL_BACKOFF_SECONDS'')
         then Inl [([], BackoffOrder)] else Inr s)"

section \<open>Loading\<close>

text \<open>The values that are set and the required ones that are not, in the order of the fields.\<close>

fun read_fields :: "process_env \<Rightarrow> field list \<Rightarrow> settings_error + (string \<Rightarrow> string option) \<times> string list" where
  "read_fields env [] = Inr (\<lambda>name. None, [])"
| "read_fields env ((name, kind, default_value) # fs) =
     err_bind (read_env env name)
       (\<lambda>v. err_bind (read_fields env fs)
          (\<lambda>(given_data, missing).
             Inr (given_data(name := v), if v = None \<and> default_value = None then name # missing else missing)))"

definition from_env :: "text_readers \<Rightarrow> process_env \<Rightarrow> settings_error + settings" where
  "from_env rd env =
     err_bind (read_fields env FIELDS)
       (\<lambda>(given_data, missing).
          if missing \<noteq> [] then Inl (MissingVariables missing)
          else (case err_bind (validate_fields rd given_data FIELDS) derive_defaults of
                  Inl ps \<Rightarrow> Inl (InvalidConfiguration ps)
                | Inr s \<Rightarrow> Inr s))"

end
