(* ===== verification/Kafka_Config.thy ===== *)
theory Kafka_Config
  imports Settings
begin

text \<open>
  The options of the clients: librdkafka's configuration (\<open>app/kafka_config.py\<close>), the
  connection pools of PostgreSQL and Redis; and the parts of the settings that the rate limiter,
  the token verifier and the worker take.
\<close>

section \<open>Configuration dictionaries\<close>

datatype config_value = Text string | Number int | Flag bool | Seconds float_value

type_synonym config = "(string \<times> config_value) list"

datatype config_error = UnknownProtocol | MissingOAuth "string list"

definition SUPPORTED_PROTOCOLS :: "string list" where
  "SUPPORTED_PROTOCOLS = [''PLAINTEXT'', ''SSL'', ''SASL_SSL'']"

definition given_texts :: "(string \<times> string) list \<Rightarrow> config" where
  "given_texts kvs = map (\<lambda>(name, v). (name, Text v)) (filter (\<lambda>(name, v). v \<noteq> []) kvs)"

definition tls_settings :: "settings \<Rightarrow> (string \<times> string) list" where
  "tls_settings s =
     [(''ssl.ca.location'', text_setting s ''KAFKA_SSL_CA_LOCATION''),
      (''ssl.certificate.location'', text_setting s ''KAFKA_SSL_CERTIFICATE_LOCATION''),
      (''ssl.key.location'', text_setting s ''KAFKA_SSL_KEY_LOCATION''),
      (''ssl.key.password'', text_setting s ''KAFKA_SSL_KEY_PASSWORD'')]"

definition missing_oauth :: "settings \<Rightarrow> string list" where
  "missing_oauth s =
     filter (\<lambda>name. text_setting s name = [])
       [''KAFKA_OAUTH_TOKEN_URL'', ''KAFKA_OAUTH_CLIENT_ID'', ''KAFKA_OAUTH_CLIENT_SECRET'']"

definition oauth_settings :: "settings \<Rightarrow> config" where
  "oauth_settings s =
     [(''sasl.mechanisms'', Text ''OAUTHBEARER''), (''sasl.oauthbearer.method'', Text ''oidc''),
      (''sasl.oauthbearer.token.endpoint.url'', Text (text_setting s ''KAFKA_OAUTH_TOKEN_URL'')),
      (''sasl.oauthbearer.client.id'', Text (text_setting s ''KAFKA_OAUTH_CLIENT_ID'')),
      (''sasl.oauthbearer.client.secret'', Text (text_setting s ''KAFKA_OAUTH_CLIENT_SECRET''))] @
     given_texts [(''sasl.oauthbearer.scope'', text_setting s ''KAFKA_OAUTH_SCOPE'')]"

definition security_config :: "settings \<Rightarrow> config_error + config" where
  "security_config s =
     (let protocol = to_upper (text_setting s ''KAFKA_SECURITY_PROTOCOL'');
          config = (''security.protocol'', Text protocol) #
            (if protocol \<in> set [''SSL'', ''SASL_SSL''] then given_texts (tls_settings s) else [])
      in if protocol \<notin> set SUPPORTED_PROTOCOLS then Inl UnknownProtocol
         else if protocol \<noteq> ''SASL_SSL'' then Inr config
         else if missing_oauth s \<noteq> [] then Inl (MissingOAuth (missing_oauth s))
         else Inr (config @ oauth_settings s))"

definition build_consumer_config :: "settings \<Rightarrow> config_error + config" where
  "build_consumer_config s =
     err_bind (security_config s)
       (\<lambda>security. Inr (
          [(''bootstrap.servers'', Text (text_setting s ''KAFKA_BOOTSTRAP_SERVERS'')),
           (''group.id'', Text (text_setting s ''KAFKA_CONSUMER_GROUP_ID'')),
           (''client.id'', Text ''fraud-worker''),
           (''enable.auto.commit'', Flag True),
           (''enable.auto.offset.store'', Flag False),
           (''auto.commit.interval.ms'', Number 1000),
           (''auto.offset.reset'', Text ''earliest''),
           (''partition.assignment.strategy'', Text ''cooperative-sticky''),
           (''session.timeout.ms'', Number 45000),
           (''max.poll.interval.ms'', Number 300000)] @ security))"

definition build_producer_config :: "settings \<Rightarrow> config_error + config" where
  "build_producer_config s =
     err_bind (security_config s)
       (\<lambda>security. Inr (
          [(''bootstrap.servers'', Text (text_setting s ''KAFKA_BOOTSTRAP_SERVERS'')),
           (''client.id'', Text ''fraud-worker-dlq''),
           (''acks'', Text ''all''),
           (''enable.idempotence'', Flag True),
           (''linger.ms'', Number 5),
           (''delivery.timeout.ms'', Number 30000)] @ security))"

section \<open>Connection pools\<close>

text \<open>\<open>_async_url\<close>: the first occurrence is the prefix itself.\<close>

definition async_url :: "string \<Rightarrow> string" where
  "async_url url =
     (if take 13 url = ''postgresql://'' then ''postgresql+asyncpg://'' @ drop 13 url else url)"

definition create_engine :: "settings \<Rightarrow> string \<times> config" where
  "create_engine s =
     (async_url (text_setting s ''DATABASE_URL''),
      [(''pool_size'', Number (int_setting s ''DB_POOL_SIZE'')),
       (''max_overflow'', Number (int_setting s ''DB_POOL_MAX_OVERFLOW'')),
       (''pool_timeout'', Seconds (float_setting s ''DB_POOL_TIMEOUT_SECONDS'')),
       (''pool_pre_ping'', Flag True),
       (''statement_timeout'', Text (show_int (int_setting s ''DB_STATEMENT_TIMEOUT_MS''))),
       (''timeout'', Seconds (float_setting s ''DB_POOL_TIMEOUT_SECONDS''))])"

definition create_redis_client :: "settings \<Rightarrow> string \<times> config" where
  "create_redis_client s =
     (text_setting s ''REDIS_URL'',
      [(''max_connections'', Number (int_setting s ''REDIS_MAX_CONNECTIONS'')),
       (''socket_timeout'', Seconds (float_setting s ''REDIS_SOCKET_TIMEOUT_SECONDS'')),
       (''socket_connect_timeout'', Seconds (float_setting s ''REDIS_SOCKET_TIMEOUT_SECONDS'')),
       (''health_check_interval'', Number 30),
       (''decode_responses'', Flag True)])"

section \<open>What the other components take from the settings\<close>

definition limits_of :: "settings \<Rightarrow> limits option" where
  "limits_of s =
     (if bool_setting s ''RATE_LIMIT_ENABLED''
      then Some \<lparr>max_requests = int_setting s ''RATE_LIMIT_REQUESTS'', window_seconds = int_setting s ''RATE_LIMIT_WINDOW_SECONDS''\<rparr>
      else None)"

definition high_watermark_of :: "settings \<Rightarrow> nat" where
  "high_watermark_of s = nat (int_setting s ''WORKER_PARTITION_HIGH_WATERMARK'')"

definition max_unexpected_attempts_of :: "settings \<Rightarrow> nat" where
  "max_unexpected_attempts_of s = nat (int_setting s ''WORKER_MAX_UNEXPECTED_ERROR_ATTEMPTS'')"

end
