(* ===== verification/Settings_Facts.thy ===== *)
theory Settings_Facts
  imports Kafka_Config
begin

text \<open>
  Every \<open>Settings\<close> object that is loaded meets the bounds that the rest of the program relies on, and
  Kafka credentials are only configured over an encrypted connection.
\<close>

section \<open>Loaded settings\<close>

lemma FIELDS_distinct: "distinct (map fst FIELDS)"
  by code_simp

lemma defaults_in_range:
  "list_all (\<lambda>(name, kind, d). case d of None \<Rightarrow> True | Some v \<Rightarrow> in_range kind v \<and> field_validator name v = Inr v) FIELDS"
  by code_simp

lemma log_levels_upper: "list_all (\<lambda>x. to_upper x = x) LOG_LEVELS"
  by code_simp

lemma field_validator_Inr:
  assumes "field_validator name v = Inr w" "in_range kind v"
  shows "in_range kind w \<and> field_validator name w = Inr w"
  using assms log_levels_upper
  by (cases kind; cases v)
    (auto simp: field_validator_def list_all_iff Let_def split: if_splits)

lemma validate_fields_Inr:
  assumes "validate_fields rd given_data fs = Inr s" "distinct (map fst fs)" "(name, kind, d) \<in> set fs"
  shows "case given_data name of
      None \<Rightarrow> s name = d
    | Some t \<Rightarrow> \<exists>v. validate_field rd name kind t = Inr v \<and> s name = Some v"
  using assms
proof (induction fs arbitrary: s)
  case (Cons f fs)
  obtain n k e where f: "f = (n, k, e)" by (cases f)
  from Cons.prems(1) obtain v s' where
    v: "(case given_data n of Some t \<Rightarrow> map_sum (\<lambda>p. p) Some (validate_field rd n k t) | None \<Rightarrow> Inr e) = Inr v"
    and s': "validate_fields rd given_data fs = Inr s'" "s = s'(n := v)"
    by (auto simp: f split: sum.splits)
  show ?case
  proof (cases "name = n")
    case True
    with Cons.prems(2,3) have "kind = k" "d = e" by (force simp: f)+
    then show ?thesis using v s'(2) True
      by (cases "given_data n"; cases "validate_field rd n k (the (given_data n))") auto
  next
    case False
    then have "(name, kind, d) \<in> set fs" using Cons.prems(3) by (auto simp: f)
    then show ?thesis using Cons.IH [OF s'(1)] Cons.prems(2) False s'(2) by (simp split: option.splits)
  qed
qed simp

lemma read_fields_missing:
  "read_fields env fs = Inr (given_data, missing) \<Longrightarrow> distinct (map fst fs) \<Longrightarrow> (name, kind, None) \<in> set fs \<Longrightarrow>
   name \<notin> set missing \<Longrightarrow> given_data name \<noteq> None"
proof (induction fs arbitrary: given_data missing)
  case (Cons f fs)
  obtain n k d where f: "f = (n, k, d)" by (cases f)
  obtain v g m where "read_fields env fs = Inr (g, m)" "given_data = g(n := v)"
    "missing = (if v = None \<and> d = None then n # m else m)"
    using Cons.prems(1) by (auto simp: f)
  then show ?case
    using Cons.IH [of g m] Cons.prems(2-4) by (cases "name = n") (auto simp: f image_iff split: if_splits)
qed simp

definition field_ok :: "settings \<Rightarrow> string \<times> field_kind \<times> 'a \<Rightarrow> bool" where
  "field_ok s = (\<lambda>(name, kind, d). \<exists>v. s name = Some v \<and> in_range kind v \<and> field_validator name v = Inr v)"

lemma validated_ok:
  assumes "read_fields env FIELDS = Inr (given_data, [])" "validate_fields rd given_data FIELDS = Inr s" "f \<in> set FIELDS"
  shows "field_ok s f"
proof -
  obtain name kind d where f: "f = (name, kind, d)" by (cases f)
  note v = validate_fields_Inr [OF assms(2) FIELDS_distinct assms(3) [unfolded f]]
  show ?thesis
  proof (cases "given_data name")
    case None
    then obtain w where "d = Some w" using read_fields_missing [OF assms(1) FIELDS_distinct, of name kind] assms(3) f by (cases d) auto
    moreover have "case d of None \<Rightarrow> True | Some v \<Rightarrow> in_range kind v \<and> field_validator name v = Inr v"
      using bspec [OF defaults_in_range [unfolded list_all_iff] assms(3) [unfolded f]] by (simp only: prod.case)
    ultimately show ?thesis using None v by (simp add: field_ok_def f)
  next
    case (Some t)
    then obtain w where "validate_field rd name kind t = Inr w" "s name = Some w" using v by auto
    moreover from this obtain u where "field_validator name u = Inr w" "in_range kind u"
      by (auto simp: validate_field_def split: option.splits if_splits)
    ultimately show ?thesis using field_validator_Inr [of name u w kind] by (simp only: field_ok_def f prod.case) blast
  qed
qed

lemma derive_defaults_ok:
  assumes "derive_defaults s = Inr s'"
  shows "(\<forall>name. name \<noteq> ''KAFKA_DLQ_TOPIC_NAME'' \<longrightarrow> s' name = s name) \<and> text_setting s' ''KAFKA_DLQ_TOPIC_NAME'' \<noteq> [] \<and>
    (s' ''KAFKA_DLQ_TOPIC_NAME'' = s ''KAFKA_DLQ_TOPIC_NAME'' \<or> (\<exists>t. s' ''KAFKA_DLQ_TOPIC_NAME'' = Some (TextS t))) \<and>
    \<not> float_less (float_setting s' ''WORKER_RETRY_MAX_BACKOFF_SECONDS'') (float_setting s' ''WORKER_RETRY_INITIAL_BACKOFF_SECONDS'')"
  using assms by (auto simp: derive_defaults_def Let_def text_setting_def float_setting_def split: if_splits)

text \<open>The bounds of single fields, for the proofs that use them.\<close>

lemma int_field:
  assumes "(name, IntField lo hi, d) \<in> set FIELDS" "\<forall>f \<in> set FIELDS. field_ok s f"
  shows "lo \<le> int_setting s name"
  using bspec [OF assms(2,1)] by (auto simp: field_ok_def int_setting_def elim: in_range.elims)

section \<open>Kafka credentials\<close>

lemma given_texts_names: "(name, v) \<in> set (given_texts kvs) \<Longrightarrow> name \<in> fst ` set kvs"
  by (force simp: given_texts_def)

lemma security_encrypted:
  assumes "security_config s = Inr c" "(''sasl.oauthbearer.client.secret'', v) \<in> set c"
  shows "(''security.protocol'', Text ''SASL_SSL'') \<in> set c"
proof (cases "to_upper (text_setting s ''KAFKA_SECURITY_PROTOCOL'') = ''SASL_SSL''")
  case True
  then show ?thesis using assms(1) by (auto simp: security_config_def Let_def split: if_splits)
next
  case False
  then have "(''sasl.oauthbearer.client.secret'', v) \<in> set (given_texts (tls_settings s))"
    using assms by (auto simp: security_config_def Let_def split: if_splits)
  then show ?thesis by (auto simp: tls_settings_def dest: given_texts_names)
qed

lemma credentials_encrypted:
  assumes "build_consumer_config s = Inr c \<or> build_producer_config s = Inr c"
    and "(''sasl.oauthbearer.client.secret'', v) \<in> set c"
  shows "(''security.protocol'', Text ''SASL_SSL'') \<in> set c"
  using assms by (auto simp: build_consumer_config_def build_producer_config_def dest: security_encrypted)

text \<open>At-least-once: only offsets that the worker stored itself are committed.\<close>

lemma manual_offset_store:
  "build_consumer_config s = Inr c \<Longrightarrow> map_of c ''enable.auto.offset.store'' = Some (Flag False) \<and>
     map_of c ''enable.auto.commit'' = Some (Flag True)"
  by (auto simp: build_consumer_config_def)

text \<open>The driver is selected once, whether or not the URL names it already.\<close>

lemma async_url_idem: "async_url (async_url url) = async_url url"
  by (simp add: async_url_def)

section \<open>The contract of the settings\<close>

lemma dlq_field: "(''KAFKA_DLQ_TOPIC_NAME'', kind, d) \<in> set FIELDS \<Longrightarrow> kind = TextField"
  by (auto simp: FIELDS_def)

lemma from_env_Inr:
  assumes "from_env rd env = Inr s"
  shows "(\<forall>f \<in> set FIELDS. field_ok s f) \<and> text_setting s ''KAFKA_DLQ_TOPIC_NAME'' \<noteq> [] \<and>
    \<not> float_less (float_setting s ''WORKER_RETRY_MAX_BACKOFF_SECONDS'') (float_setting s ''WORKER_RETRY_INITIAL_BACKOFF_SECONDS'')"
proof -
  obtain given_data s0 where r: "read_fields env FIELDS = Inr (given_data, [])"
    "validate_fields rd given_data FIELDS = Inr s0" "derive_defaults s0 = Inr s"
    using assms by (auto simp: from_env_def split: if_splits sum.splits)
  note d = derive_defaults_ok [OF r(3)]
  have "field_ok s f" if f: "f \<in> set FIELDS" for f
  proof -
    obtain name kind e where eq: "f = (name, kind, e)" by (cases f)
    show ?thesis using validated_ok [OF r(1,2) f] d dlq_field [of kind e] f
      by (cases "name = ''KAFKA_DLQ_TOPIC_NAME''") (auto simp: field_ok_def field_validator_def eq)
  qed
  with d show ?thesis by blast
qed

text \<open>
  C17: settings that load are within bounds. Whatever the environment holds, a loaded \<open>Settings\<close> object
  has every field, of its type and inside its bounds; the accepted token algorithms are a non-empty set
  of asymmetric ones; the log level is a standard one; the dead-letter topic has a name; the backoff
  cap is not below the first delay. So the conditions hold under which the worker, the rate limiter
  and the key cache are shown to work.
\<close>

theorem loaded_settings_bounded:
  assumes "from_env rd env = Inr s"
  shows "(\<forall>(name, kind, d) \<in> set FIELDS. \<exists>v. s name = Some v \<and> in_range kind v) \<and>
    texts_setting s ''JWT_ALGORITHMS'' \<noteq> [] \<and> set (texts_setting s ''JWT_ALGORITHMS'') \<subseteq> set ALLOWED_JWT_ALGORITHMS \<and>
    text_setting s ''OBSERVABILITY_LOG_LEVEL'' \<in> set LOG_LEVELS \<and>
    text_setting s ''KAFKA_DLQ_TOPIC_NAME'' \<noteq> [] \<and>
    \<not> float_less (float_setting s ''WORKER_RETRY_MAX_BACKOFF_SECONDS'') (float_setting s ''WORKER_RETRY_INITIAL_BACKOFF_SECONDS'') \<and>
    1 \<le> high_watermark_of s \<and> 1 \<le> max_unexpected_attempts_of s \<and>
    (\<forall>l. limits_of s = Some l \<longrightarrow> 0 < window_seconds l \<and> 0 \<le> max_requests l)"
proof -
  note ok = from_env_Inr [OF assms]
  then have fields: "\<forall>f \<in> set FIELDS. field_ok s f" by simp
  have jwt: "field_ok s (''JWT_ALGORITHMS'', CsvField, Some (TextsS [''RS256'']))"
    and level: "field_ok s (''OBSERVABILITY_LOG_LEVEL'', TextField, Some (TextS ''INFO''))"
    using fields by (simp_all add: FIELDS_def)
  have "1 \<le> int_setting s ''WORKER_PARTITION_HIGH_WATERMARK''" "1 \<le> int_setting s ''WORKER_MAX_UNEXPECTED_ERROR_ATTEMPTS''"
    "1 \<le> int_setting s ''RATE_LIMIT_REQUESTS''" "1 \<le> int_setting s ''RATE_LIMIT_WINDOW_SECONDS''"
    by (rule int_field [OF _ fields], simp add: FIELDS_def)+
  then have numbers: "1 \<le> high_watermark_of s" "1 \<le> max_unexpected_attempts_of s"
    "\<And>l. limits_of s = Some l \<Longrightarrow> 0 < window_seconds l \<and> 0 \<le> max_requests l"
    by (auto simp: high_watermark_of_def max_unexpected_attempts_of_def limits_of_def split: if_splits)
  have "\<forall>(name, kind, d) \<in> set FIELDS. \<exists>v. s name = Some v \<and> in_range kind v"
    using fields by (fastforce simp: field_ok_def)
  moreover have "texts_setting s ''JWT_ALGORITHMS'' \<noteq> [] \<and> set (texts_setting s ''JWT_ALGORITHMS'') \<subseteq> set ALLOWED_JWT_ALGORITHMS"
    using jwt by (auto simp: field_ok_def texts_setting_def field_validator_def Let_def filter_empty_conv
        elim: in_range.elims split: if_splits)
  moreover have "text_setting s ''OBSERVABILITY_LOG_LEVEL'' \<in> set LOG_LEVELS"
  proof -
    obtain t where "s ''OBSERVABILITY_LOG_LEVEL'' = Some (TextS t)"
      "field_validator ''OBSERVABILITY_LOG_LEVEL'' (TextS t) = Inr (TextS t)"
      using level by (auto simp: field_ok_def elim: in_range.elims)
    then show ?thesis by (auto simp: text_setting_def field_validator_def split: if_splits)
  qed
  ultimately show ?thesis using ok numbers by blast
qed

text \<open>An environment with the required variables, one of them as a secret file.\<close>

definition example_process_env :: process_env where
  "example_process_env =
     \<lparr>pe_getenv = map_of [(''DATABASE_URL_FILE'', ''/run/secrets/db''), (''REDIS_URL'', ''redis://''),
        (''KAFKA_BOOTSTRAP_SERVERS'', ''kafka:9092''), (''KAFKA_TOPIC_NAME'', ''transactions''),
        (''KAFKA_CONSUMER_GROUP_ID'', ''fraud''), (''JWT_ISSUER'', ''https://idp''), (''JWT_AUDIENCE'', ''fraud-api''),
        (''JWT_ALGORITHMS'', ''ES256, RS256'')],
      pe_read = (\<lambda>path. if path = ''/run/secrets/db'' then FileText ''postgresql://'' else FileUnreadable)\<rparr>"

definition example_readers :: text_readers where
  "example_readers = \<lparr>read_int = (\<lambda>s. Some (int (read_nat s))), read_float = (\<lambda>s. None), read_bool = (\<lambda>s. None)\<rparr>"

theorem loaded_settings_bounded_witness:
  "\<exists>s. from_env example_readers example_process_env = Inr s \<and> text_setting s ''KAFKA_DLQ_TOPIC_NAME'' = ''transactions.dlq'' \<and>
     set (texts_setting s ''JWT_ALGORITHMS'') \<subseteq> set ALLOWED_JWT_ALGORITHMS"
proof -
  have "case from_env example_readers example_process_env of
      Inr s \<Rightarrow> text_setting s ''KAFKA_DLQ_TOPIC_NAME'' = ''transactions.dlq'' | Inl _ \<Rightarrow> False"
    by code_simp
  then obtain s where s: "from_env example_readers example_process_env = Inr s"
    "text_setting s ''KAFKA_DLQ_TOPIC_NAME'' = ''transactions.dlq''" by (auto split: sum.splits)
  from loaded_settings_bounded [OF s(1)] s show ?thesis by blast
qed


end
