(* ===== verification/Batch.thy ===== *)
theory Batch
  imports Transaction_Facts Errors Settings_Facts
begin

text \<open>
  The daily summary (\<open>app/batch_worker.py\<close>) and the container probe (\<open>app/healthcheck.py\<close>). Times are
  microseconds since the epoch, in UTC; what a run meets (clocks, signals, failures) is an input.
\<close>

section \<open>The schedule\<close>

definition DAY :: int where "DAY = 24 * 60 * 60 * 1000000"

definition next_run :: "int \<Rightarrow> int \<Rightarrow> int \<Rightarrow> int" where
  "next_run now run_hour run_minute =
     (let target = now - now mod DAY + (run_hour * 60 + run_minute) * 60 * 1000000
      in if target \<le> now then target + DAY else target)"

definition seconds_until_next_run :: "int \<Rightarrow> int \<Rightarrow> int \<Rightarrow> rat" where
  "seconds_until_next_run now run_hour run_minute = of_int (next_run now run_hour run_minute - now) / 1000000"

section \<open>The summary\<close>

type_synonym summary = "int \<times> int \<times> (string \<times> int) list"

text \<open>The ping and the queries may fail; the tables are those the queries see.\<close>

definition run_summary :: "py_exception option \<Rightarrow> int \<Rightarrow> int \<Rightarrow> tx_tables \<Rightarrow> py_exception + summary" where
  "run_summary outage now window_hours db =
     (case outage of
        Some x \<Rightarrow> Inl x
      | None \<Rightarrow> Inr (summarize_transactions db (now - window_hours * 60 * 60 * 1000000)))"

text \<open>\<open>--once\<close>: the exit code.\<close>

definition main_once :: "py_exception + summary \<Rightarrow> int" where
  "main_once r = (case r of Inl _ \<Rightarrow> 1 | Inr _ \<Rightarrow> 0)"

text \<open>
  One pass of the resident loop: the time when it starts to wait, whether a signal ends the wait, the
  run after it, and whether a signal arrives during the run. A failed run keeps the schedule alive.
\<close>

record wake =
  bw_now :: int
  bw_stop :: bool
  bw_run_at :: int
  bw_outage :: "py_exception option"
  bw_tables :: tx_tables
  bw_stop_after :: bool

definition delay_of :: "settings \<Rightarrow> int \<Rightarrow> rat" where
  "delay_of s now = seconds_until_next_run now (int_setting s ''BATCH_RUN_HOUR'') (int_setting s ''BATCH_RUN_MINUTE'')"

definition summary_of :: "settings \<Rightarrow> wake \<Rightarrow> py_exception + summary" where
  "summary_of s w = run_summary (bw_outage w) (bw_run_at w) (int_setting s ''BATCH_SUMMARY_WINDOW_HOURS'') (bw_tables w)"

fun resident :: "settings \<Rightarrow> wake list \<Rightarrow> (rat \<times> (py_exception + summary)) list" where
  "resident s [] = []"
| "resident s (w # ws) =
     (if bw_stop w then []
      else (delay_of s (bw_now w), summary_of s w) # (if bw_stop_after w then [] else resident s ws))"

text \<open>\<open>main\<close>: the exit code and the runs. The first wake is the one that \<open>--once\<close> runs at.\<close>

definition batch_main :: "settings \<Rightarrow> string list \<Rightarrow> wake \<Rightarrow> wake list \<Rightarrow> int \<times> (rat \<times> (py_exception + summary)) list" where
  "batch_main s argv w ws =
     (if ''--once'' \<in> set argv then (main_once (summary_of s w), [(0, summary_of s w)])
      else if \<not> bool_setting s ''BATCH_JOB_ENABLED'' then (0, [])
      else (0, resident s (w # ws)))"

section \<open>The probe\<close>

definition HEARTBEAT_MAX_AGE_SECONDS :: rat where "HEARTBEAT_MAX_AGE_SECONDS = 60"

text \<open>\<open>None\<close> stands for the \<open>OSError\<close> of a missing file or of a connection.\<close>

definition check_worker :: "rat \<Rightarrow> rat option \<Rightarrow> bool" where
  "check_worker now mtime = (case mtime of None \<Rightarrow> False | Some t \<Rightarrow> now - t < HEARTBEAT_MAX_AGE_SECONDS)"

definition check_api :: "int option \<Rightarrow> bool" where
  "check_api status = (case status of None \<Rightarrow> False | Some st \<Rightarrow> st = 200)"

definition probe :: "string list \<Rightarrow> rat \<Rightarrow> rat option \<Rightarrow> int option \<Rightarrow> int" where
  "probe argv now mtime status =
     (let target = (case argv of _ # t # _ \<Rightarrow> t | _ \<Rightarrow> '''')
      in if target = ''api'' then (if check_api status then 0 else 1)
         else if target = ''worker'' then (if check_worker now mtime then 0 else 1)
         else 2)"

section \<open>One run a day\<close>

lemma next_run_bounds:
  assumes "0 \<le> h" "h \<le> 23" "0 \<le> m" "m \<le> 59"
  shows "now < next_run now h m" "next_run now h m \<le> now + DAY"
    "next_run now h m mod DAY = (h * 60 + m) * 60 * 1000000"
proof -
  let ?t = "(h * 60 + m) * 60 * 1000000"
  have t: "0 \<le> ?t" "?t < DAY" using assms by (simp_all add: DAY_def)
  have r: "0 \<le> now mod DAY" "now mod DAY < DAY" by (simp_all add: DAY_def)
  let ?target = "now - now mod DAY + ?t"
  have n: "next_run now h m = ?target + DAY \<and> ?target \<le> now \<or> next_run now h m = ?target \<and> now < ?target"
    by (simp add: next_run_def Let_def not_le)
  then show "now < next_run now h m" using t r by linarith
  show "next_run now h m \<le> now + DAY" using n t r by linarith
  have "(now - now mod DAY + ?t) mod DAY = ?t" "(now - now mod DAY + ?t + DAY) mod DAY = ?t"
    using t by (simp_all add: minus_mod_eq_mult_div)
  then show "next_run now h m mod DAY = ?t" by (simp add: next_run_def Let_def)
qed

lemma delay_positive:
  assumes "0 \<le> h" "h \<le> 23" "0 \<le> m" "m \<le> 59"
  shows "0 < seconds_until_next_run now h m" "seconds_until_next_run now h m \<le> 86400"
  using next_run_bounds(1,2) [OF assms, of now] by (simp_all add: seconds_until_next_run_def DAY_def flip: of_int_le_iff)

text \<open>A run that starts on time and takes less than a day is followed by the run of the next day.\<close>

lemma next_run_next_day:
  assumes "0 \<le> h" "h \<le> 23" "0 \<le> m" "m \<le> 59" "next_run now h m \<le> later" "later < next_run now h m + DAY"
  shows "next_run later h m = next_run now h m + DAY"
proof -
  note a = next_run_bounds [OF assms(1-4), of now] and b = next_run_bounds [OF assms(1-4), of later]
  have "(next_run later h m - next_run now h m) mod DAY = 0"
    using a(3) b(3) mod_diff_cong [of "next_run later h m" DAY "next_run now h m" "next_run now h m" "next_run now h m"] by simp
  then obtain k where k: "next_run later h m - next_run now h m = DAY * k" by (auto simp: mod_eq_0_iff_dvd)
  moreover have "0 < DAY * k" "DAY * k < DAY * 2" using assms(5,6) b(1,2) k by (simp_all add: DAY_def)
  ultimately show ?thesis by (simp add: DAY_def)
qed

text \<open>
  The resident loop wakes on time: the timer does not fire early and fires before the time of the next
  day, and a run is over before the next one is due.
\<close>

fun on_time :: "settings \<Rightarrow> wake list \<Rightarrow> bool" where
  "on_time s (w # v # ws) \<longleftrightarrow>
     (let target = next_run (bw_now w) (int_setting s ''BATCH_RUN_HOUR'') (int_setting s ''BATCH_RUN_MINUTE'')
      in target \<le> bw_run_at w \<and> bw_run_at w \<le> bw_now v \<and> bw_now v < target + DAY) \<and> on_time s (v # ws)"
| "on_time s ws = True"

definition targets :: "settings \<Rightarrow> wake list \<Rightarrow> int list" where
  "targets s ws = map (\<lambda>w. next_run (bw_now w) (int_setting s ''BATCH_RUN_HOUR'') (int_setting s ''BATCH_RUN_MINUTE'')) ws"

lemma schedule_bounds:
  assumes "from_env rd env = Inr s"
  shows "0 \<le> int_setting s ''BATCH_RUN_HOUR''" "int_setting s ''BATCH_RUN_HOUR'' \<le> 23"
    "0 \<le> int_setting s ''BATCH_RUN_MINUTE''" "int_setting s ''BATCH_RUN_MINUTE'' \<le> 59"
proof -
  have "field_ok s (''BATCH_RUN_HOUR'', IntField 0 (Some 23), Some (IntS 0))"
    "field_ok s (''BATCH_RUN_MINUTE'', IntField 0 (Some 59), Some (IntS 0))"
    using from_env_Inr [OF assms] by (simp_all add: FIELDS_def)
  then show "0 \<le> int_setting s ''BATCH_RUN_HOUR''" "int_setting s ''BATCH_RUN_HOUR'' \<le> 23"
    "0 \<le> int_setting s ''BATCH_RUN_MINUTE''" "int_setting s ''BATCH_RUN_MINUTE'' \<le> 59"
    by (auto simp: field_ok_def int_setting_def elim: in_range.elims)
qed

text \<open>
  With loaded settings every wait is positive and at most a day, and a loop that wakes on time runs on
  every day: its times are consecutive days, at the configured hour and minute.
\<close>

lemma resident_daily:
  assumes "from_env rd env = Inr s" "on_time s (w # ws)"
  shows "targets s (w # ws) = map (\<lambda>k. hd (targets s (w # ws)) + int k * DAY) [0..<length (w # ws)]"
  using assms(2)
proof (induction ws arbitrary: w)
  case (Cons v ws)
  note b = schedule_bounds [OF assms(1)]
  have step: "hd (targets s (v # ws)) = hd (targets s (w # v # ws)) + DAY"
    using Cons.prems by (auto simp: targets_def Let_def intro!: next_run_next_day b)
  have "targets s (w # v # ws) = hd (targets s (w # v # ws)) # targets s (v # ws)" by (simp add: targets_def)
  also have "targets s (v # ws) = map (\<lambda>k. hd (targets s (w # v # ws)) + DAY + int k * DAY) [0..<length (v # ws)]"
    using Cons.IH [of v] Cons.prems step by simp
  also have "hd (targets s (w # v # ws)) # \<dots> = map (\<lambda>k. hd (targets s (w # v # ws)) + int k * DAY) [0..<length (w # v # ws)]"
    by (simp add: upt_conv_Cons map_Suc_upt [symmetric] algebra_simps del: upt_Suc)
  finally show ?case .
qed (simp add: targets_def)

lemma resident_delays:
  assumes "from_env rd env = Inr s" "(delay, r) \<in> set (resident s ws)"
  shows "0 < delay \<and> delay \<le> 86400"
  using assms(2) delay_positive [OF schedule_bounds [OF assms(1)]]
  by (induction ws rule: resident.induct [of _ s]) (auto simp: delay_of_def split: if_splits)

text \<open>
  Consecutive windows leave a gap when a run starts later after its time than the run before: a decision
  recorded in the gap is counted by neither.
\<close>

lemma late_run_misses:
  assumes "run1 < created" "created < run2 - window_hours * 60 * 60 * 1000000"
    and "transactions db = [r]" "tr_created_at r = created"
  shows "run_summary None run1 window_hours no_rows = Inr (0, 0, [])"
    "run_summary None run2 window_hours db = Inr (0, 0, [])"
  using assms by (simp_all add: run_summary_def summarize_transactions_def no_rows_def Let_def)

end
