(* ===== verification/Worker_Run.thy ===== *)
theory Worker_Run
  imports Worker_Facts Metrics Batch
begin

text \<open>
  The life of the worker process (\<open>FraudWorker.run\<close> and \<open>_shutdown\<close>): the poll loop over what each pass
  meets, its exits, the heartbeat file that the container probe reads, and the way down.
\<close>

section \<open>The loop\<close>

text \<open>
  A pass: whether \<open>stop\<close> was called before it, the answer of \<open>memberid\<close>, the monotonic and the wall
  clock, what \<open>poll\<close> returns, and what callbacks and tasks do to the partitions meanwhile.
\<close>

record pass =
  pa_stopped :: bool
  pa_member :: bool
  pa_now :: rat
  pa_wall :: rat
  pa_polled :: polled
  pa_others :: "partitions \<Rightarrow> partitions"

record run_state =
  rn_poll :: poll_state
  rn_heartbeat :: "rat option"

datatype ending = StillRunning | Stopped | Exited exit_reason

definition touch_heartbeat :: "pass \<Rightarrow> run_state \<Rightarrow> run_state" where
  "touch_heartbeat p st = st\<lparr>rn_heartbeat := Some (pa_wall p)\<rparr>"

definition meanwhile :: "pass \<Rightarrow> poll_state \<Rightarrow> poll_state" where
  "meanwhile p st = st\<lparr>pl_partitions := pa_others p (pl_partitions st)\<rparr>"

fun run_loop :: "rat \<Rightarrow> nat \<Rightarrow> pass list \<Rightarrow> run_state \<Rightarrow> run_state \<times> ending" where
  "run_loop max_absence high_watermark [] st = (st, StillRunning)"
| "run_loop max_absence high_watermark (p # ps) st =
     (if pa_stopped p then (st, Stopped)
      else if check_group_membership max_absence (pa_member p) (pa_now p) (pl_last_member (rn_poll st)) = None
      then (st, Exited NotInGroup)
      else
        (let st = touch_heartbeat p st
         in case poll_once max_absence high_watermark (pa_member p) (pa_now p) (pa_polled p) (meanwhile p (rn_poll st)) of
              Inl e \<Rightarrow> (st, Exited e)
            | Inr q \<Rightarrow> run_loop max_absence high_watermark ps (st\<lparr>rn_poll := q\<rparr>)))"

text \<open>\<open>stop\<close> only sets a flag, which the next pass sees.\<close>

text \<open>
  \<open>_shutdown\<close>: every partition is stopped, its task ends or is cancelled, \<open>close\<close> commits what is stored and
  leaves the group. The metrics of the partitions go, and Kafka counts as down.
\<close>

definition begin_shutdown :: "topic_partition list \<Rightarrow> worker_state \<Rightarrow> worker_state" where
  "begin_shutdown tps s = s\<lparr>wk_partitions := stop_partitions tps (wk_partitions s)\<rparr>"

definition finish_shutdown :: "topic_partition list \<Rightarrow> worker_state \<Rightarrow> worker_state" where
  "finish_shutdown tps s =
     unassign tps (commit_stored (s\<lparr>wk_partitions := release_partitions tps (wk_partitions s)\<rparr>))"

definition shutdown_metrics :: "string \<Rightarrow> topic_partition list \<Rightarrow> registry \<Rightarrow> registry" where
  "shutdown_metrics service tps m =
     set_kafka_health service ''consumer'' False (fold (\<lambda>tp. remove_partition_metrics service (snd tp)) tps m)"

section \<open>How it ends\<close>

text \<open>
  The loop ends on its own only for a fatal error, or after an absence from the group longer than
  configured, counted from the last check that found the consumer in it.
\<close>

lemma poll_once_exit:
  assumes "poll_once max_absence high_watermark member now polled st = Inl e"
    and "check_group_membership max_absence member now (pl_last_member st) \<noteq> None"
  shows "e = FatalKafkaError \<and> (\<exists>err. polled = polled.Failed err \<and> fatal err)"
  using assms by (auto simp: poll_once_def handle_poll_error_def Let_def split: option.splits polled.splits if_splits)

lemma touch_heartbeat_poll [simp]: "rn_poll (touch_heartbeat p st) = rn_poll st"
  by (simp add: touch_heartbeat_def)

lemma run_loop_exit:
  assumes "run_loop max_absence high_watermark ps st = (st', Exited e)"
  shows "\<exists>p \<in> set ps. \<not> pa_stopped p \<and>
    (e = NotInGroup \<and> \<not> pa_member p \<and> pa_now p - pl_last_member (rn_poll st') > max_absence \<or>
     e = FatalKafkaError \<and> (\<exists>err. pa_polled p = polled.Failed err \<and> fatal err))"
  using assms
proof (induction ps arbitrary: st)
  case (Cons p ps)
  show ?case
  proof (cases "pa_stopped p \<or> check_group_membership max_absence (pa_member p) (pa_now p) (pl_last_member (rn_poll st)) = None")
    case True
    with Cons.prems show ?thesis by (auto simp: check_group_membership_def split: if_splits)
  next
    case False
    let ?st = "touch_heartbeat p st"
    have member: "pl_last_member (meanwhile p (rn_poll st)) = pl_last_member (rn_poll st)"
      by (simp add: meanwhile_def)
    show ?thesis
    proof (cases "poll_once max_absence high_watermark (pa_member p) (pa_now p) (pa_polled p) (meanwhile p (rn_poll st))")
      case (Inl x)
      with poll_once_exit [OF Inl] False Cons.prems show ?thesis by (auto simp: member Let_def)
    next
      case (Inr q)
      with False Cons.prems have "run_loop max_absence high_watermark ps (?st\<lparr>rn_poll := q\<rparr>) = (st', Exited e)"
        by (auto simp: Let_def)
      from Cons.IH [OF this] show ?thesis by auto
    qed
  qed
qed simp

section \<open>The heartbeat\<close>

text \<open>
  The probe sees the last pass that began: while the passes are less than a minute apart the worker
  counts as healthy, and a loop that hangs for a minute does not.
\<close>

lemma run_loop_heartbeat:
  assumes "run_loop max_absence high_watermark ps st = (st', StillRunning)" "ps \<noteq> []"
  shows "rn_heartbeat st' = Some (pa_wall (last ps))"
  using assms
proof (induction ps arbitrary: st)
  case (Cons p ps)
  then obtain q where rest: "run_loop max_absence high_watermark ps ((touch_heartbeat p st)\<lparr>rn_poll := q\<rparr>) = (st', StillRunning)"
    by (auto simp: Let_def split: if_splits sum.splits)
  show ?case
  proof (cases ps)
    case Nil
    with rest show ?thesis by (auto simp: touch_heartbeat_def)
  next
    case (Cons p' ps')
    with Cons.IH [OF rest] show ?thesis by simp
  qed
qed simp

lemma heartbeat_probe:
  assumes "run_loop max_absence high_watermark ps st = (st', StillRunning)" "ps \<noteq> []"
  shows "check_worker now (rn_heartbeat st') \<longleftrightarrow> now - pa_wall (last ps) < HEARTBEAT_MAX_AGE_SECONDS"
  by (simp add: run_loop_heartbeat [OF assms] check_worker_def)

section \<open>A clean shutdown\<close>

text \<open>Both halves are steps of the worker, so everything proved about its steps holds on the way down.\<close>

lemma shutdown_steps:
  "worker_step high_watermark s (begin_shutdown tps s)" "worker_step high_watermark s (finish_shutdown tps s)"
  unfolding begin_shutdown_def finish_shutdown_def by (rule worker_step.stop, rule worker_step.revoked)

text \<open>What was stored is committed, and the partition is free for the next owner.\<close>

lemma finish_shutdown_commits:
  "wk_stored s tp = Some n \<Longrightarrow> wk_committed (finish_shutdown tps s) tp = n"
  "tp \<in> set tps \<Longrightarrow> wk_position (finish_shutdown tps s) tp = None \<and> wk_partitions (finish_shutdown tps s) tp = None"
  by (simp_all add: finish_shutdown_def unassign_def commit_stored_def release_partitions_def)

text \<open>No series of a released partition is left.\<close>

lemma fold_removed:
  "fold (\<lambda>tp. remove_partition_metrics service (snd tp)) tps m (name, labels) =
     (if name \<in> {''fraud_worker_partition_backlog'', ''fraud_worker_partition_blocked_seconds''} \<and>
         labels \<in> (\<lambda>tp. [service, show_int (snd tp)]) ` set tps
      then None else m (name, labels))"
  by (induction tps arbitrary: m) (auto simp: partition_metrics_removed)

lemma shutdown_silences:
  "tp \<in> set tps \<Longrightarrow> shutdown_metrics service tps m (''fraud_worker_partition_backlog'', [service, show_int (snd tp)]) = None"
  "shutdown_metrics service tps m (''fraud_kafka_up'', [service, ''consumer'']) = Some 0"
  by (auto simp: shutdown_metrics_def set_kafka_health_def set_gauge_def fold_removed)

end
