(* ===== verification/Handling_Metrics.thy ===== *)
theory Handling_Metrics
  imports Worker_Services Metrics Worker
begin

text \<open>
  What \<open>FraudWorker._handle\<close> counts while it handles messages, beside the retry loop of
  \<open>Message_Handling\<close>: the world is paired with the registry of the metrics. The loop runs as it does
  without them; what the counters say about its results, and about the stored decisions, is proved here.
\<close>

named_theorems metric_frames

section \<open>The loop with its metrics\<close>

text \<open>What the worker measures with: its name, and the duration of a call of the handler.\<close>

record 'w meter =
  mt_service :: string
  mt_elapsed :: "'w \<Rightarrow> 'w \<Rightarrow> rat"

text \<open>After a successful call of the handler, in the order of the code.\<close>

definition count_processed :: "'w meter \<Rightarrow> kafka_message \<Rightarrow> handling \<Rightarrow> record_result \<Rightarrow> registry \<Rightarrow> registry" where
  "count_processed mt m h r reg =
     (let reg = worker_message_outcome (mt_service mt) (km_topic m) (outcome_value (rr_outcome r)) reg;
          reg = (if rr_outcome r = EVALUATED
                 then worker_fraud_decision (mt_service mt) (td_verdict (rr_decision r)) (td_triggered_rules (rr_decision r)) reg
                 else reg)
      in clear_blocked (mt_service mt) (km_partition m) (hs_failing_since h) reg)"

definition count_dead_lettered :: "'w meter \<Rightarrow> kafka_message \<Rightarrow> handling \<Rightarrow> registry \<Rightarrow> registry" where
  "count_dead_lettered mt m h reg =
     worker_message_outcome (mt_service mt) (km_topic m) ''dlq''
       (clear_blocked (mt_service mt) (km_partition m) (hs_failing_since h) reg)"

text \<open>
  From the computation of the delay to the wait. When \<open>retry_delay\<close> raises, nothing is counted; the age
  of the failure is taken before the wait.
\<close>

definition metered_back_off ::
    "'w meter \<Rightarrow> 'w operations \<Rightarrow> retry_settings \<Rightarrow> kafka_message \<Rightarrow> string \<Rightarrow> handling \<Rightarrow> 'w \<times> registry \<Rightarrow>
     ('w \<times> registry) \<times> (handle_result + handling)" where
  "metered_back_off mt ops cfg m label h = (\<lambda>(w, reg).
     case retry_delay (hs_attempt h) (retry_initial_backoff cfg) (retry_max_backoff cfg) (op_jitter ops w) of
       None \<Rightarrow> ((w, reg), Inl TaskCrashed)
     | Some delay \<Rightarrow>
         (let blocked = (case hs_failing_since h of None \<Rightarrow> 0 | Some since \<Rightarrow> op_clock ops w - since)
          in ((op_wait ops delay w,
               set_partition_blocked (mt_service mt) (km_partition m) blocked (worker_retry (mt_service mt) label reg)),
              Inr h)))"

definition metered_processing_failure ::
    "'w meter \<Rightarrow> 'w operations \<Rightarrow> retry_settings \<Rightarrow> kafka_message \<Rightarrow> py_exception \<Rightarrow> handling \<Rightarrow> 'w \<times> registry \<Rightarrow>
     ('w \<times> registry) \<times> (handle_result + handling)" where
  "metered_processing_failure mt ops cfg m e h = (\<lambda>(w, reg).
     let failure = classify_failure e;
         h' = (if failure = UNEXPECTED then h\<lparr>hs_unexpected_failures := hs_unexpected_failures h + 1\<rparr> else h)
     in if failure = PERMANENT \<or>
           failure = UNEXPECTED \<and> max_unexpected_error_attempts cfg \<le> hs_unexpected_failures h'
        then ((w, reg), Inr (h'\<lparr>hs_pending_letter := Some (new_letter m e (hs_attempt h') (op_correlation ops w))\<rparr>))
        else metered_back_off mt ops cfg m (failure_value failure) h' (w, reg))"

text \<open>One pass: the timer also observes a call that raised.\<close>

definition metered_attempt ::
    "'w meter \<Rightarrow> 'w operations \<Rightarrow> retry_settings \<Rightarrow> kafka_message \<Rightarrow> handling \<Rightarrow> 'w \<times> registry \<Rightarrow>
     ('w \<times> registry) \<times> (handle_result + handling)" where
  "metered_attempt mt ops cfg m h = (\<lambda>(w, reg).
     let h = h\<lparr>hs_attempt := hs_attempt h + 1\<rparr>; w = op_clear_context ops w
     in case hs_pending_letter h of
          None \<Rightarrow>
            (case op_process ops (km_value m) (provenance_of m) w of
               (w', r) \<Rightarrow>
                 (let reg = worker_message_timer (mt_service mt) (km_topic m) (mt_elapsed mt w w') reg
                  in case r of
                       Inr r \<Rightarrow> ((w', count_processed mt m h r reg), Inl (Processed r))
                     | Inl e \<Rightarrow> metered_processing_failure mt ops cfg m e (mark_failing (op_clock ops w') h) (w', reg)))
        | Some letter \<Rightarrow>
            (case op_publish ops letter w of
               (w', Inr _) \<Rightarrow> ((w', count_dead_lettered mt m h reg), Inl (DeadLettered letter))
             | (w', Inl e) \<Rightarrow> metered_back_off mt ops cfg m ''dlq_publish'' (mark_failing (op_clock ops w') h) (w', reg)))"

definition metered_handle ::
    "'w meter \<Rightarrow> 'w operations \<Rightarrow> retry_settings \<Rightarrow> kafka_message \<Rightarrow> 'w \<times> registry \<Rightarrow> (('w \<times> registry) \<times> handle_result) option" where
  "metered_handle mt ops cfg m wr =
     retry_loop (\<lambda>(w, reg). op_stopping ops w) (metered_attempt mt ops cfg m) first_attempt wr"

text \<open>A partition's task: the messages of its queue one after the other, until one is not handled.\<close>

fun metered_task ::
    "'w meter \<Rightarrow> 'w operations \<Rightarrow> retry_settings \<Rightarrow> kafka_message list \<Rightarrow> 'w \<times> registry \<Rightarrow>
     (('w \<times> registry) \<times> handle_result list) option" where
  "metered_task mt ops cfg [] wr = Some (wr, [])"
| "metered_task mt ops cfg (m # ms) wr =
     (case metered_handle mt ops cfg m wr of
        None \<Rightarrow> None
      | Some (wr', res) \<Rightarrow>
          if handled res = Some True
          then map_option (\<lambda>(wr'', rs). (wr'', res # rs)) (metered_task mt ops cfg ms wr')
          else Some (wr', [res]))"

section \<open>The metrics do not change the handling\<close>

lemma metered_back_off_part:
  "map_prod fst id (metered_back_off mt ops cfg m label h (w, reg)) = back_off ops cfg h w"
  by (simp add: metered_back_off_def back_off_def Let_def split: option.split)

lemma metered_failure_part:
  "map_prod fst id (metered_processing_failure mt ops cfg m e h (w, reg)) = on_processing_failure ops cfg m e h w"
  by (simp add: metered_processing_failure_def on_processing_failure_def metered_back_off_part Let_def)

lemma metered_attempt_part:
  "map_prod fst id (metered_attempt mt ops cfg m h (w, reg)) = handle_attempt ops cfg m h w"
  by (auto simp: metered_attempt_def handle_attempt_def metered_failure_part metered_back_off_part Let_def
      split: option.splits prod.splits sum.splits)

lemma metered_handle_part:
  "map_option (map_prod fst id) (metered_handle mt ops cfg m wr) = handle ops cfg m (fst wr)"
  unfolding metered_handle_def handle_def handle_loop_def
  by (rule retry_loop_part [symmetric]) (auto simp: metered_attempt_part split: prod.splits)


section \<open>What the counters say\<close>

text \<open>The status a handled message is counted under, and the decision that is counted.\<close>

definition final_status :: "handle_result \<Rightarrow> string option" where
  "final_status res =
     (case res of Processed r \<Rightarrow> Some (outcome_value (rr_outcome r)) | DeadLettered _ \<Rightarrow> Some ''dlq'' | _ \<Rightarrow> None)"

definition new_decision :: "handle_result \<Rightarrow> transaction_decision option" where
  "new_decision res =
     (case res of Processed r \<Rightarrow> if rr_outcome r = EVALUATED then Some (rr_decision r) else None | _ \<Rightarrow> None)"

definition messages_counted :: "'w meter \<Rightarrow> string \<Rightarrow> string \<Rightarrow> registry \<Rightarrow> rat" where
  "messages_counted mt topic status reg = series_value reg ''fraud_worker_messages_total'' [mt_service mt, topic, status]"

definition decisions_counted :: "'w meter \<Rightarrow> string \<Rightarrow> registry \<Rightarrow> rat" where
  "decisions_counted mt verdict reg = series_value reg ''fraud_worker_decisions_total'' [mt_service mt, verdict]"

definition triggers_counted :: "'w meter \<Rightarrow> string \<Rightarrow> registry \<Rightarrow> rat" where
  "triggers_counted mt rule reg = series_value reg ''fraud_worker_rule_triggers_total'' [mt_service mt, rule]"

text \<open>The alert on a blocked partition is off.\<close>

definition not_blocked :: "'w meter \<Rightarrow> int \<Rightarrow> registry \<Rightarrow> bool" where
  "not_blocked mt number reg \<longleftrightarrow>
     reg (''fraud_worker_partition_blocked_seconds'', [mt_service mt, show_int number]) \<in> {None, Some 0}"

lemmas counted_defs = messages_counted_def decisions_counted_def triggers_counted_def

lemma timer_frame [metric_frames]:
  "messages_counted mt topic status (worker_message_timer s t e reg) = messages_counted mt topic status reg"
  "decisions_counted mt verdict (worker_message_timer s t e reg) = decisions_counted mt verdict reg"
  "triggers_counted mt rule (worker_message_timer s t e reg) = triggers_counted mt rule reg"
  "not_blocked mt number (worker_message_timer s t e reg) = not_blocked mt number reg"
  by (simp_all add: counted_defs not_blocked_def worker_message_timer_def metric_defs)

lemma blocked_frame [metric_frames]:
  "messages_counted mt topic status (set_partition_blocked s n e reg) = messages_counted mt topic status reg"
  "decisions_counted mt verdict (set_partition_blocked s n e reg) = decisions_counted mt verdict reg"
  "triggers_counted mt rule (set_partition_blocked s n e reg) = triggers_counted mt rule reg"
  by (simp_all add: counted_defs set_partition_blocked_def metric_defs)

lemma clear_frame [metric_frames]:
  "messages_counted mt topic status (clear_blocked s n since reg) = messages_counted mt topic status reg"
  "decisions_counted mt verdict (clear_blocked s n since reg) = decisions_counted mt verdict reg"
  "triggers_counted mt rule (clear_blocked s n since reg) = triggers_counted mt rule reg"
  by (simp_all add: clear_blocked_def metric_frames split: option.split)

lemma retry_frame [metric_frames]:
  "messages_counted mt topic status (worker_retry s label reg) = messages_counted mt topic status reg"
  "decisions_counted mt verdict (worker_retry s label reg) = decisions_counted mt verdict reg"
  "triggers_counted mt rule (worker_retry s label reg) = triggers_counted mt rule reg"
  "not_blocked mt number (worker_retry s label reg) = not_blocked mt number reg"
  by (simp_all add: counted_defs not_blocked_def worker_retry_def metric_defs)

lemma outcome_frame [metric_frames]:
  "messages_counted mt topic status (worker_message_outcome (mt_service mt) t st reg) =
     messages_counted mt topic status reg + of_bool (t = topic \<and> st = status)"
  "decisions_counted mt verdict (worker_message_outcome s t st reg) = decisions_counted mt verdict reg"
  "triggers_counted mt rule (worker_message_outcome s t st reg) = triggers_counted mt rule reg"
  "not_blocked mt number (worker_message_outcome s t st reg) = not_blocked mt number reg"
  by (auto simp: counted_defs not_blocked_def worker_message_outcome_def metric_defs)

lemma fold_inc_frame:
  "n \<noteq> name \<Longrightarrow> fold (\<lambda>rule. inc name [s, rule]) triggered m (n, ls) = m (n, ls)"
  by (induction triggered arbitrary: m) (simp_all add: metric_defs)

lemma decision_frame [metric_frames]:
  "messages_counted mt topic status (worker_fraud_decision s v triggered reg) = messages_counted mt topic status reg"
  "decisions_counted mt verdict (worker_fraud_decision (mt_service mt) v triggered reg) =
     decisions_counted mt verdict reg + of_bool (v = verdict)"
  "triggers_counted mt rule (worker_fraud_decision (mt_service mt) v triggered reg) =
     triggers_counted mt rule reg + of_nat (count_list triggered rule)"
  "not_blocked mt number (worker_fraud_decision s v triggered reg) = not_blocked mt number reg"
proof -
  show "not_blocked mt number (worker_fraud_decision s v triggered reg) = not_blocked mt number reg"
    by (simp add: worker_fraud_decision_def not_blocked_def fold_inc_frame inc_def add_to_def)
qed (simp_all add: counted_defs worker_fraud_decision_def fold_inc_value inc_value count_list_eq_length_filter)

lemma cleared: "not_blocked mt number (clear_blocked (mt_service mt) number since reg) \<longleftrightarrow> since \<noteq> None \<or> not_blocked mt number reg"
  by (simp add: not_blocked_def clear_blocked_def set_partition_blocked_def set_gauge_def split: option.split)

text \<open>What one result adds to the counters.\<close>

definition gains :: "'w meter \<Rightarrow> kafka_message \<Rightarrow> handle_result option \<Rightarrow> registry \<Rightarrow> registry \<Rightarrow> bool" where
  "gains mt m res reg reg' \<longleftrightarrow>
     (\<forall>topic status. messages_counted mt topic status reg' = messages_counted mt topic status reg +
        of_bool (km_topic m = topic \<and> Option.bind res final_status = Some status)) \<and>
     (\<forall>verdict. decisions_counted mt verdict reg' = decisions_counted mt verdict reg +
        of_bool (map_option td_verdict (Option.bind res new_decision) = Some verdict)) \<and>
     (\<forall>rule. triggers_counted mt rule reg' = triggers_counted mt rule reg +
        of_nat (case Option.bind res new_decision of None \<Rightarrow> 0 | Some d \<Rightarrow> count_list (td_triggered_rules d) rule))"

lemma gains_nothing_trans: "gains mt m None reg reg1 \<Longrightarrow> gains mt m res reg1 reg' \<Longrightarrow> gains mt m res reg reg'"
  by (simp add: gains_def)

definition ended_with :: "handle_result + handling \<Rightarrow> handle_result option" where
  "ended_with x = (case x of Inl r \<Rightarrow> Some r | Inr _ \<Rightarrow> None)"

lemma count_processed_gains: "gains mt m (Some (Processed r)) reg (count_processed mt m h r reg)"
  by (simp add: gains_def count_processed_def Let_def metric_frames final_status_def new_decision_def)

lemma count_dead_lettered_gains: "gains mt m (Some (DeadLettered l)) reg (count_dead_lettered mt m h reg)"
  by (simp add: gains_def count_dead_lettered_def metric_frames final_status_def new_decision_def)

lemma metered_back_off_gains:
  "metered_back_off mt ops cfg m label h (w, reg) = ((w', reg'), x) \<Longrightarrow> gains mt m (ended_with x) reg reg'"
  by (auto simp: metered_back_off_def gains_def ended_with_def final_status_def new_decision_def metric_frames Let_def
      split: option.splits)

lemma metered_failure_gains:
  "metered_processing_failure mt ops cfg m e h (w, reg) = ((w', reg'), x) \<Longrightarrow> gains mt m (ended_with x) reg reg'"
  by (auto simp: metered_processing_failure_def Let_def gains_def [of _ _ None] ended_with_def
      split: if_splits dest: metered_back_off_gains [unfolded ended_with_def])

lemma timer_gains: "gains mt m res (worker_message_timer s t e reg) reg' = gains mt m res reg reg'"
  by (simp add: gains_def metric_frames)

lemma metered_attempt_gains:
  assumes "metered_attempt mt ops cfg m h (w, reg) = ((w', reg'), x)"
  shows "gains mt m (ended_with x) reg reg'"
  using assms
  by (auto simp: metered_attempt_def Let_def ended_with_def timer_gains split: option.splits prod.splits sum.splits
      dest!: metered_failure_gains metered_back_off_gains
      intro: count_processed_gains [THEN timer_gains [THEN iffD1]] count_dead_lettered_gains)

text \<open>A loop that runs through passes of which only the last has a result.\<close>

lemma metered_loop_gains:
  assumes "retry_loop (\<lambda>(w, reg). op_stopping ops w) (metered_attempt mt ops cfg m) h wr = Some (wr', res)"
  shows "gains mt m (Some res) (snd wr) (snd wr')"
  using assms
proof (induction rule: retry_loop_rule)
  case (stopped h wr)
  then show ?case by (simp add: gains_def final_status_def new_decision_def)
next
  case (ended h wr wr' r)
  then show ?case using metered_attempt_gains [of mt ops cfg m h "fst wr" "snd wr" "fst wr'" "snd wr'" "Inl r"]
    by (simp add: ended_with_def)
next
  case (repeated h wr h1 wr1 wr' r)
  have "gains mt m None (snd wr) (snd wr1)"
    using metered_attempt_gains [of mt ops cfg m h "fst wr" "snd wr" "fst wr1" "snd wr1" "Inr h1"] repeated(2)
    by (simp add: ended_with_def)
  then show ?case by (rule gains_nothing_trans) (rule repeated(3))
qed

section \<open>The gauge of a blocked partition\<close>

definition blocked_explained :: "'w meter \<Rightarrow> kafka_message \<Rightarrow> handling \<Rightarrow> registry \<Rightarrow> bool" where
  "blocked_explained mt m h reg \<longleftrightarrow> (hs_failing_since h = None \<longrightarrow> not_blocked mt (km_partition m) reg)"

lemma mark_failing_since: "hs_failing_since (mark_failing now h) \<noteq> None"
  by (simp add: mark_failing_def split: option.split)

lemma metered_back_off_explained:
  "metered_back_off mt ops cfg m label h (w, reg) = ((w', reg'), Inr h') \<Longrightarrow> hs_failing_since h \<noteq> None \<Longrightarrow>
     blocked_explained mt m h' reg'"
  by (auto simp: metered_back_off_def blocked_explained_def Let_def split: option.splits)

lemma metered_failure_explained:
  "metered_processing_failure mt ops cfg m e h (w, reg) = ((w', reg'), Inr h') \<Longrightarrow> hs_failing_since h \<noteq> None \<Longrightarrow>
     blocked_explained mt m h' reg'"
  by (auto simp: metered_processing_failure_def blocked_explained_def [of _ _ "_ \<lparr>hs_pending_letter := _\<rparr>"] Let_def
      split: if_splits intro: metered_back_off_explained)

lemma metered_attempt_explained:
  assumes "metered_attempt mt ops cfg m h (w, reg) = ((w', reg'), Inr h')"
  shows "blocked_explained mt m h' reg'"
  using assms mark_failing_since
  by (auto simp: metered_attempt_def Let_def split: option.splits prod.splits sum.splits
      dest!: metered_failure_explained metered_back_off_explained)

lemma metered_back_off_ends: "metered_back_off mt ops cfg m label h wr = (wr', Inl r) \<Longrightarrow> handled r = None"
  by (auto simp: metered_back_off_def Let_def split: option.splits prod.splits)

lemma metered_failure_ends: "metered_processing_failure mt ops cfg m e h wr = (wr', Inl r) \<Longrightarrow> handled r = None"
  by (auto simp: metered_processing_failure_def Let_def split: if_splits prod.splits dest: metered_back_off_ends)

lemma count_processed_clears:
  "blocked_explained mt m h reg \<Longrightarrow> not_blocked mt (km_partition m) (count_processed mt m h r reg)"
  by (auto simp: blocked_explained_def count_processed_def Let_def cleared metric_frames)

lemma count_dead_lettered_clears:
  "blocked_explained mt m h reg \<Longrightarrow> not_blocked mt (km_partition m) (count_dead_lettered mt m h reg)"
  by (auto simp: blocked_explained_def count_dead_lettered_def cleared metric_frames)

lemma metered_attempt_clears:
  assumes "metered_attempt mt ops cfg m h (w, reg) = ((w', reg'), Inl r)" "handled r = Some True"
    and "blocked_explained mt m h reg"
  shows "not_blocked mt (km_partition m) reg'"
proof -
  have "blocked_explained mt m (h\<lparr>hs_attempt := n\<rparr>) reg"
    "blocked_explained mt m (h\<lparr>hs_attempt := n\<rparr>) (worker_message_timer s t e reg)" for n s t e
    using assms(3) by (simp_all add: blocked_explained_def metric_frames)
  then show ?thesis
    using assms(1,2)
    by (auto simp: metered_attempt_def Let_def count_processed_clears count_dead_lettered_clears
        split: option.splits prod.splits sum.splits dest!: metered_failure_ends metered_back_off_ends)
qed

lemma metered_loop_clears:
  assumes "retry_loop (\<lambda>(w, reg). op_stopping ops w) (metered_attempt mt ops cfg m) h wr = Some (wr', res)"
  shows "handled res = Some True \<Longrightarrow> blocked_explained mt m h (snd wr) \<Longrightarrow> not_blocked mt (km_partition m) (snd wr')"
  using assms
proof (induction rule: retry_loop_rule)
  case (ended h wr wr' r)
  then show ?case by (cases wr; cases wr') (auto intro: metered_attempt_clears)
next
  case (repeated h wr h1 wr1 wr' r)
  then show ?case by (cases wr; cases wr1) (auto dest: metered_attempt_explained)
qed simp

section \<open>The metrics of a partition's task\<close>

definition result_count :: "(handle_result \<Rightarrow> bool) \<Rightarrow> handle_result list \<Rightarrow> rat" where
  "result_count P rs = of_nat (length (filter P rs))"

definition rule_firings :: "string \<Rightarrow> handle_result list \<Rightarrow> nat" where
  "rule_firings rule rs =
     (\<Sum>r\<leftarrow>rs. case new_decision r of None \<Rightarrow> 0 | Some d \<Rightarrow> count_list (td_triggered_rules d) rule)"

lemma result_count_simps [simp]:
  "result_count P [] = 0" "result_count P (r # rs) = of_bool (P r) + result_count P rs"
  by (simp_all add: result_count_def)

lemma rule_firings_simps [simp]:
  "rule_firings rule [] = 0"
  "rule_firings rule (r # rs) =
     (case new_decision r of None \<Rightarrow> 0 | Some d \<Rightarrow> count_list (td_triggered_rules d) rule) + rule_firings rule rs"
  by (simp_all add: rule_firings_def)

definition account :: "'w meter \<Rightarrow> string \<Rightarrow> registry \<Rightarrow> registry \<Rightarrow> handle_result list \<Rightarrow> bool" where
  "account mt topic reg reg' rs \<longleftrightarrow>
     (\<forall>status. messages_counted mt topic status reg' =
        messages_counted mt topic status reg + result_count (\<lambda>r. final_status r = Some status) rs) \<and>
     (\<forall>verdict. decisions_counted mt verdict reg' =
        decisions_counted mt verdict reg + result_count (\<lambda>r. map_option td_verdict (new_decision r) = Some verdict) rs) \<and>
     (\<forall>rule. triggers_counted mt rule reg' = triggers_counted mt rule reg + of_nat (rule_firings rule rs))"

lemma gains_account: "gains mt m (Some res) reg reg' \<Longrightarrow> km_topic m = topic \<Longrightarrow> account mt topic reg reg' [res]"
  by (simp add: gains_def account_def)

lemma account_Cons: "account mt topic reg reg1 [r] \<Longrightarrow> account mt topic reg1 reg' rs \<Longrightarrow> account mt topic reg reg' (r # rs)"
  by (simp add: account_def)

lemma metered_task_step:
  assumes "metered_task mt ops cfg (m # ms) wr = Some (wr', rs)" "partition_of m = (topic, number)"
  obtains wr1 res where "metered_handle mt ops cfg m wr = Some (wr1, res)"
    "account mt topic (snd wr) (snd wr1) [res]"
    "handled res = Some True \<Longrightarrow> not_blocked mt number (snd wr) \<Longrightarrow> not_blocked mt number (snd wr1)"
    "if handled res = Some True then \<exists>rs'. metered_task mt ops cfg ms wr1 = Some (wr', rs') \<and> rs = res # rs'
     else wr' = wr1 \<and> rs = [res]"
proof -
  from assms(1) obtain wr1 res where one: "metered_handle mt ops cfg m wr = Some (wr1, res)"
    by (auto split: option.splits)
  have m: "km_topic m = topic" "km_partition m = number" using assms(2) by (simp_all add: partition_of_def)
  show ?thesis
  proof (rule that [OF one])
    show "account mt topic (snd wr) (snd wr1) [res]"
      using metered_loop_gains [OF one [unfolded metered_handle_def]] m(1) by (rule gains_account)
    show "not_blocked mt number (snd wr1)" if "handled res = Some True" "not_blocked mt number (snd wr)"
      using metered_loop_clears [OF one [unfolded metered_handle_def]] that
      by (simp add: blocked_explained_def first_attempt_def m(2))
    show "if handled res = Some True then \<exists>rs'. metered_task mt ops cfg ms wr1 = Some (wr', rs') \<and> rs = res # rs'
        else wr' = wr1 \<and> rs = [res]"
      using assms(1) one by (auto split: if_splits)
  qed
qed

lemma metered_task_account:
  assumes "metered_task mt ops cfg ms wr = Some (wr', rs)" "\<And>m. m \<in> set ms \<Longrightarrow> partition_of m = (topic, number)"
  shows "account mt topic (snd wr) (snd wr') rs \<and>
    (not_blocked mt number (snd wr) \<longrightarrow> (\<forall>r \<in> set rs. handled r = Some True) \<longrightarrow> not_blocked mt number (snd wr'))"
  using assms
proof (induction ms arbitrary: wr rs)
  case (Cons m ms)
  have "partition_of m = (topic, number)" using Cons.prems(2) by simp
  with Cons.prems(1) obtain wr1 res where step: "account mt topic (snd wr) (snd wr1) [res]"
    "handled res = Some True \<Longrightarrow> not_blocked mt number (snd wr) \<Longrightarrow> not_blocked mt number (snd wr1)"
    "if handled res = Some True then \<exists>rs'. metered_task mt ops cfg ms wr1 = Some (wr', rs') \<and> rs = res # rs'
     else wr' = wr1 \<and> rs = [res]" by (rule metered_task_step) blast
  show ?case
  proof (cases "handled res = Some True")
    case True
    with step(3) obtain rs' where rest: "metered_task mt ops cfg ms wr1 = Some (wr', rs')" "rs = res # rs'" by auto
    from Cons.IH [OF rest(1)] Cons.prems(2) account_Cons [OF step(1)] step(2) [OF True] rest(2)
    show ?thesis by auto
  next
    case False
    with step(1,3) show ?thesis by simp
  qed
qed (simp add: account_def)

text \<open>Every message of the task was handled, except for the last one of a task that ended early.\<close>

lemma metered_task_results:
  "metered_task mt ops cfg ms wr = Some (wr', rs) \<Longrightarrow>
     length rs \<le> length ms \<and> (\<forall>r \<in> set (butlast rs). handled r = Some True) \<and>
     (length rs < length ms \<longrightarrow> rs \<noteq> [] \<and> handled (last rs) \<noteq> Some True)"
  by (induction ms arbitrary: wr rs) (fastforce split: option.splits if_splits)+

section \<open>The counted decisions are the stored ones\<close>

text \<open>
  \<open>stored w verdict\<close> is the number of decisions that a store holds; the answer of a commit may be lost,
  and in a world that is \<open>calm\<close> it never is.
\<close>

definition newly_stored :: "string \<Rightarrow> 'e + record_result \<Rightarrow> nat" where
  "newly_stored verdict y =
     (case y of Inl _ \<Rightarrow> 0 | Inr r \<Rightarrow> of_bool (rr_outcome r = EVALUATED \<and> td_verdict (rr_decision r) = verdict))"

locale decision_store =
  fixes ops :: "'w operations" and stored :: "'w \<Rightarrow> string \<Rightarrow> nat" and calm :: "'w \<Rightarrow> bool"
  assumes process_stores: "op_process ops v p w = (w', y) \<Longrightarrow> stored w verdict + newly_stored verdict y \<le> stored w' verdict"
    and process_calm: "calm w \<Longrightarrow> op_process ops v p w = (w', y) \<Longrightarrow>
      calm w' \<and> stored w' verdict = stored w verdict + newly_stored verdict y"
    and publish_keeps: "op_publish ops l w = (w', x) \<Longrightarrow> stored w' = stored w \<and> calm w' = calm w"
    and clear_keeps: "stored (op_clear_context ops w) = stored w \<and> calm (op_clear_context ops w) = calm w"
    and wait_keeps: "stored (op_wait ops delay w) = stored w \<and> calm (op_wait ops delay w) = calm w"
begin

definition counts_stored :: "'w \<Rightarrow> registry \<Rightarrow> 'w \<Rightarrow> registry \<Rightarrow> 'w meter \<Rightarrow> string \<Rightarrow> bool" where
  "counts_stored w reg w' reg' mt verdict \<longleftrightarrow>
     decisions_counted mt verdict reg' - decisions_counted mt verdict reg \<le> of_nat (stored w' verdict) - of_nat (stored w verdict) \<and>
     (calm w \<longrightarrow> calm w' \<and>
        decisions_counted mt verdict reg' - decisions_counted mt verdict reg = of_nat (stored w' verdict) - of_nat (stored w verdict))"

lemma counts_refl: "counts_stored w reg w reg mt verdict"
  by (simp add: counts_stored_def)

lemma counts_trans:
  "counts_stored w reg w1 reg1 mt verdict \<Longrightarrow> counts_stored w1 reg1 w' reg' mt verdict \<Longrightarrow>
     counts_stored w reg w' reg' mt verdict"
  by (auto simp: counts_stored_def)

lemma back_off_counts:
  "metered_back_off mt ops cfg m label h (w, reg) = ((w', reg'), x) \<Longrightarrow> counts_stored w reg w' reg' mt verdict"
  by (auto simp: metered_back_off_def counts_stored_def metric_frames wait_keeps Let_def split: option.splits)

lemma failure_counts:
  "metered_processing_failure mt ops cfg m e h (w, reg) = ((w', reg'), x) \<Longrightarrow> counts_stored w reg w' reg' mt verdict"
  by (auto simp: metered_processing_failure_def Let_def counts_refl split: if_splits dest: back_off_counts)

lemma process_counts:
  assumes "op_process ops v p (op_clear_context ops w) = (w', y)"
    and "decisions_counted mt verdict reg' = decisions_counted mt verdict reg + of_nat (newly_stored verdict y)"
  shows "counts_stored w reg w' reg' mt verdict"
  using process_stores [OF assms(1), of verdict] process_calm [OF _ assms(1), of verdict] assms(2) clear_keeps [of w]
  by (auto simp: counts_stored_def simp flip: of_nat_add simp: algebra_simps)

lemma attempt_counts:
  assumes "metered_attempt mt ops cfg m h (w, reg) = ((w', reg'), x)"
  shows "counts_stored w reg w' reg' mt verdict"
proof (cases "hs_pending_letter h")
  case None
  obtain w1 y where y: "op_process ops (km_value m) (provenance_of m) (op_clear_context ops w) = (w1, y)"
    by (rule prod.exhaust)
  show ?thesis
  proof (cases y)
    case (Inl e)
    have "counts_stored w reg w1 (worker_message_timer (mt_service mt) (km_topic m) t reg) mt verdict" for t
      by (rule process_counts [OF y]) (simp add: Inl newly_stored_def metric_frames)
    from counts_trans [OF this failure_counts] assms None y Inl show ?thesis
      by (auto simp: metered_attempt_def Let_def)
  next
    case (Inr r)
    with assms None y have "w' = w1"
      "reg' = count_processed mt m (h\<lparr>hs_attempt := hs_attempt h + 1\<rparr>) r
         (worker_message_timer (mt_service mt) (km_topic m) (mt_elapsed mt (op_clear_context ops w) w1) reg)"
      by (auto simp: metered_attempt_def Let_def)
    then show ?thesis
      by (auto intro!: process_counts [OF y] simp: Inr newly_stored_def count_processed_def Let_def metric_frames)
  qed
next
  case (Some l)
  obtain w1 y where y: "op_publish ops l (op_clear_context ops w) = (w1, y)" by (rule prod.exhaust)
  have "counts_stored w reg w1 reg mt verdict" "counts_stored w reg w1 (count_dead_lettered mt m h reg) mt verdict" for h
    using publish_keeps [OF y] clear_keeps [of w] by (simp_all add: counts_stored_def count_dead_lettered_def metric_frames)
  with Some y assms counts_trans [OF _ back_off_counts] show ?thesis
    by (auto simp: metered_attempt_def Let_def split: sum.splits)
qed

lemma loop_counts:
  assumes "retry_loop (\<lambda>(w, reg). op_stopping ops w) (metered_attempt mt ops cfg m) h wr = Some (wr', res)"
  shows "counts_stored (fst wr) (snd wr) (fst wr') (snd wr') mt verdict"
  using assms
proof (induction rule: retry_loop_rule)
  case (ended h wr wr' r)
  then show ?case by (cases wr; cases wr') (auto intro: attempt_counts)
next
  case (repeated h wr h1 wr1 wr' r)
  have "counts_stored (fst wr) (snd wr) (fst wr1) (snd wr1) mt verdict"
    using repeated(2) by (cases wr; cases wr1) (auto intro: attempt_counts)
  then show ?case by (rule counts_trans) (rule repeated(3))
qed (rule counts_refl)

lemma task_counts:
  "metered_task mt ops cfg ms wr = Some (wr', rs) \<Longrightarrow> counts_stored (fst wr) (snd wr) (fst wr') (snd wr') mt verdict"
proof (induction ms arbitrary: wr rs)
  case (Cons m ms)
  from Cons.prems obtain wr1 res where one: "metered_handle mt ops cfg m wr = Some (wr1, res)"
    by (auto split: option.splits)
  have "counts_stored (fst wr) (snd wr) (fst wr1) (snd wr1) mt verdict"
    by (rule loop_counts [OF one [unfolded metered_handle_def]])
  with Cons one show ?case by (auto split: if_splits intro: counts_trans)
qed (simp add: counts_refl)

end

text \<open>The tables of the worker: rows by verdict; calm is a world in which no commit is reported as failed.\<close>

definition verdict_rows :: "tx_tables \<Rightarrow> string \<Rightarrow> nat" where
  "verdict_rows db verdict = length (filter (\<lambda>r. td_verdict (tr_decision r) = verdict) (transactions db))"

definition no_lost_answers :: "world \<Rightarrow> bool" where
  "no_lost_answers w \<longleftrightarrow> (\<forall>c \<in> set (wd_conditions w). \<forall>x. c_record_outage c \<noteq> Some (True, x))"

lemma record_decision_rows:
  assumes "record_decision now db d p = (db', r)"
  shows "verdict_rows db' verdict = verdict_rows db verdict + newly_stored verdict r"
  using assms
proof (cases rule: record_decision_cases [of now db d p])
  case (stored row db1)
  have "td_verdict (tr_decision row) = td_verdict d" using stored(3) by (auto simp: transaction_row_Inr)
  moreover from insert_history_Inr [OF stored(4)] assms stored(1) have "transactions db' = transactions db @ [row]" by auto
  ultimately show ?thesis using assms stored(1) by (auto simp: verdict_rows_def newly_stored_def)
qed (auto dest!: insert_history_Inr simp: assms verdict_rows_def newly_stored_def)

lemma record_step_rows:
  assumes "record_step c db d p = (db', r)"
  shows "verdict_rows db verdict + newly_stored verdict r \<le> verdict_rows db' verdict \<and>
    ((\<forall>x. c_record_outage c \<noteq> Some (True, x)) \<longrightarrow> verdict_rows db' verdict = verdict_rows db verdict + newly_stored verdict r)"
proof -
  obtain db1 y where y: "record_decision (c_time c) db d p = (db1, y)" by (rule prod.exhaust)
  from record_decision_rows [OF y] assms y show ?thesis
    by (auto simp: record_step_def newly_stored_def split: option.splits sum.splits if_splits)
qed

lemma process_rows:
  assumes "process px active c payload p (s, db) = ((s', db'), r)"
  shows "verdict_rows db verdict + newly_stored verdict r \<le> verdict_rows db' verdict \<and>
    ((\<forall>x. c_record_outage c \<noteq> Some (True, x)) \<longrightarrow> verdict_rows db' verdict = verdict_rows db verdict + newly_stored verdict r)"
  using assms
proof (cases rule: process_cases [of px payload active c p s db])
  case (scored ev s'' rs sc db'' r'')
  with record_step_rows [OF scored(4)] assms show ?thesis by auto
qed (use assms in \<open>auto simp: newly_stored_def\<close>)

lemma worker_process_rows:
  assumes "worker_process px ext conv v p w = (w', y)"
  shows "verdict_rows (wd_tables w) verdict + newly_stored verdict y \<le> verdict_rows (wd_tables w') verdict \<and>
    (no_lost_answers w \<longrightarrow> no_lost_answers w' \<and>
       verdict_rows (wd_tables w') verdict = verdict_rows (wd_tables w) verdict + newly_stored verdict y)"
proof -
  define c where "c = next_of \<lparr>c_time = 0, c_velocity_outage = None, c_record_outage = None\<rparr> (wd_conditions w)"
  obtain src db r where go: "process px (provider_active ext conv) c v p (wd_source w, wd_tables w) = ((src, db), r)"
    by (metis prod.exhaust)
  have c: "no_lost_answers w \<Longrightarrow> c_record_outage c \<noteq> Some (True, x)" for x
    by (auto simp: no_lost_answers_def c_def next_of_def split: list.split)
  have y: "newly_stored verdict y = newly_stored verdict r" and db: "wd_tables w' = db" "wd_conditions w' = tl (wd_conditions w)"
    using assms go by (auto simp: worker_process_def c_def Let_def newly_stored_def split: sum.splits)
  have "no_lost_answers w \<Longrightarrow> no_lost_answers w'"
    by (cases "wd_conditions w") (auto simp: no_lost_answers_def db(2))
  with process_rows [OF go, of verdict] c show ?thesis by (auto simp: y db(1))
qed

interpretation stored_decisions: decision_store "worker_operations px ext conv dlq_topic"
  "\<lambda>w. verdict_rows (wd_tables w)" no_lost_answers for px ext conv dlq_topic
  by unfold_locales
    (auto simp: worker_operations_def worker_publish_def no_lost_answers_def Let_def split: prod.splits
      dest: worker_process_rows [unfolded no_lost_answers_def])

section \<open>Properties\<close>

text \<open>
  C27: the worker's metrics tell what happened. Whatever messages the task of a partition handles one
  after the other, \<open>fraud_worker_messages_total\<close> grows under every status by the number of messages that
  ended with it, \<open>fraud_worker_decisions_total\<close> under every verdict by the number of newly evaluated
  decisions with it, and \<open>fraud_worker_rule_triggers_total\<close> by how often their rules fired; when all are
  handled, the gauge of a blocked partition is back to zero. Counting does not change the handling.
\<close>

theorem worker_metrics_account:
  assumes "metered_task mt ops cfg ms (w, reg) = Some ((w', reg'), rs)"
    and "\<And>m. m \<in> set ms \<Longrightarrow> partition_of m = (topic, number)"
  shows "(\<forall>status. messages_counted mt topic status reg' =
      messages_counted mt topic status reg + result_count (\<lambda>r. final_status r = Some status) rs) \<and>
    (\<forall>verdict. decisions_counted mt verdict reg' =
      decisions_counted mt verdict reg + result_count (\<lambda>r. map_option td_verdict (new_decision r) = Some verdict) rs) \<and>
    (\<forall>rule. triggers_counted mt rule reg' = triggers_counted mt rule reg + of_nat (rule_firings rule rs)) \<and>
    (not_blocked mt number reg \<and> (\<forall>r \<in> set rs. handled r = Some True) \<longrightarrow> not_blocked mt number reg') \<and>
    (\<forall>m wr. map_option (map_prod fst id) (metered_handle mt ops cfg m wr) = handle ops cfg m (fst wr))"
  using metered_task_account [OF assms] by (simp add: account_def metered_handle_part)

text \<open>
  C16: the decisions the worker counts are decisions it stored. On the real services
  \<open>fraud_worker_decisions_total\<close> never grows by more than the number of rows with that verdict, however
  often messages fail, are retried or redelivered; and by exactly that number unless a commit took
  effect although its answer was lost: its message is then counted as a duplicate.
\<close>

theorem decision_metrics_match_store:
  assumes "metered_task mt (worker_operations px ext conv dlq_topic) cfg ms (w, reg) = Some ((w', reg'), rs)"
  shows "decisions_counted mt verdict reg' - decisions_counted mt verdict reg \<le>
      of_nat (verdict_rows (wd_tables w') verdict) - of_nat (verdict_rows (wd_tables w) verdict) \<and>
    (no_lost_answers w \<longrightarrow>
      decisions_counted mt verdict reg' - decisions_counted mt verdict reg =
        of_nat (verdict_rows (wd_tables w') verdict) - of_nat (verdict_rows (wd_tables w) verdict))"
  using stored_decisions.task_counts [OF assms, of verdict] by (simp add: stored_decisions.counts_stored_def)

section \<open>Examples\<close>

text \<open>A message that is evaluated, then one that is dead-lettered.\<close>

definition example_meter :: "world meter" where
  "example_meter = \<lparr>mt_service = ''fraud-worker'', mt_elapsed = (\<lambda>w w'. 1 / 8)\<rparr>"

abbreviation example_operations :: "world operations" where
  "example_operations \<equiv> worker_operations example_px example_externals example_conversions ''transactions.dlq''"

definition metered_world :: world where
  "metered_world = example_worker_world\<lparr>wd_conditions := [calm]\<rparr>"

definition evaluated_message :: kafka_message where
  "evaluated_message =
     \<lparr>km_topic = ''tx'', km_partition = 0, km_offset = 41, km_timestamp = (1, 5), km_key = Some ''user'', km_value = Some ''{}''\<rparr>"

definition failing_message :: kafka_message where
  "failing_message = evaluated_message\<lparr>km_offset := 42, km_value := Some ''not JSON''\<rparr>"

lemma example_provenance_message: "provenance_of evaluated_message = example_provenance"
  by (simp add: provenance_of_def evaluated_message_def example_provenance_def)

lemma evaluated_pass:
  obtains w1 reg1 res where
    "metered_handle example_meter example_operations example_retry evaluated_message (metered_world, reg) =
       Some ((w1, reg1), Processed res)"
    "rr_outcome res = EVALUATED" "td_verdict (rr_decision res) = ''REJECTED''"
    "wd_stops w1 = []" "wd_deliveries w1 = wd_deliveries metered_world" "wd_jitter w1 = []" "wd_conditions w1 = []"
proof -
  obtain src db res where run: "example_run calm ''{}'' no_rows = ((src, db), Inr res)"
    and res: "rr_outcome res = EVALUATED" "td_verdict (rr_decision res) = ''REJECTED''" by (rule example_first)
  have "process example_px (provider_active example_externals example_conversions) calm (km_value evaluated_message)
      (provenance_of evaluated_message) ((example_provider, [example_world]), no_rows) = ((src, db), Inr res)"
    using run by (simp add: example_run_def example_provenance_message) (simp add: evaluated_message_def)
  then have "\<exists>w1 reg1. metered_handle example_meter example_operations example_retry evaluated_message (metered_world, reg) =
      Some ((w1, reg1), Processed res) \<and> wd_stops w1 = [] \<and> wd_deliveries w1 = wd_deliveries metered_world \<and>
      wd_jitter w1 = [] \<and> wd_conditions w1 = []"
    unfolding metered_handle_def
    by (subst retry_loop.simps)
      (simp add: worker_operations_def metered_attempt_def first_attempt_def metered_world_def example_worker_world_def
        next_of_def Let_def worker_process_def)
  with res that show ?thesis by blast
qed

lemma dead_lettered_pass:
  assumes "wd_stops w = []" "wd_deliveries w = [(''2026-10-29T14:03:11+00:00'', Acknowledged)]" "wd_jitter w = []" "wd_conditions w = []"
  shows "\<exists>w1 reg1 l. metered_handle example_meter example_operations example_retry failing_message (w, reg) =
    Some ((w1, reg1), DeadLettered l)"
  unfolding metered_handle_def using assms
  by (subst retry_loop.simps, subst retry_loop.simps)
    (simp add: worker_operations_def metered_attempt_def first_attempt_def next_of_def Let_def
      worker_process_def process_def parse_transaction_event_def MAX_EVENT_BYTES_def example_px_def failing_message_def
      evaluated_message_def metered_processing_failure_def process_exception_def event_failure_class
      worker_publish_def publish_letter_def del: event_exception.simps)

lemma example_partition: "m \<in> set [evaluated_message, failing_message] \<Longrightarrow> partition_of m = (''tx'', 0)"
  by (auto simp: partition_of_def failing_message_def evaluated_message_def)

lemma example_task:
  obtains w' reg' res l where "metered_task example_meter example_operations example_retry [evaluated_message, failing_message]
      (metered_world, reg) = Some ((w', reg'), [Processed res, DeadLettered l])"
    "rr_outcome res = EVALUATED" "td_verdict (rr_decision res) = ''REJECTED''"
proof -
  obtain w1 reg1 res where one: "metered_handle example_meter example_operations example_retry evaluated_message (metered_world, reg) =
       Some ((w1, reg1), Processed res)"
    and res: "rr_outcome res = EVALUATED" "td_verdict (rr_decision res) = ''REJECTED''"
    and w1: "wd_stops w1 = []" "wd_deliveries w1 = wd_deliveries metered_world" "wd_jitter w1 = []" "wd_conditions w1 = []"
    by (rule evaluated_pass)
  have "wd_deliveries w1 = [(''2026-10-29T14:03:11+00:00'', Acknowledged)]"
    using w1(2) by (simp add: metered_world_def example_worker_world_def)
  from dead_lettered_pass [OF w1(1) this w1(3,4)] obtain w2 reg2 l where
    "metered_handle example_meter example_operations example_retry failing_message (w1, reg1) = Some ((w2, reg2), DeadLettered l)"
    by blast
  with one res that show ?thesis by auto
qed

theorem worker_metrics_account_witness:
  "\<exists>w' reg' rs. metered_task example_meter example_operations example_retry [evaluated_message, failing_message]
       (metered_world, \<lambda>s. None) = Some ((w', reg'), rs) \<and>
     messages_counted example_meter ''tx'' ''evaluated'' reg' = 1 \<and>
     messages_counted example_meter ''tx'' ''dlq'' reg' = 1 \<and>
     decisions_counted example_meter ''REJECTED'' reg' = 1 \<and> not_blocked example_meter 0 reg'"
proof -
  let ?none = "\<lambda>s. None :: rat option"
  obtain w' reg' res l where run: "metered_task example_meter example_operations example_retry [evaluated_message, failing_message]
      (metered_world, ?none) = Some ((w', reg'), [Processed res, DeadLettered l])"
    and res: "rr_outcome res = EVALUATED" "td_verdict (rr_decision res) = ''REJECTED''" by (rule example_task)
  from worker_metrics_account [OF run example_partition] run res show ?thesis
    by (auto simp: final_status_def new_decision_def outcome_value_def not_blocked_def
        messages_counted_def [of _ _ _ ?none] decisions_counted_def [of _ _ ?none] series_value_def)
qed

theorem decision_metrics_match_store_witness:
  "\<exists>w' reg' rs. metered_task example_meter example_operations example_retry [evaluated_message, failing_message]
       (metered_world, \<lambda>s. None) = Some ((w', reg'), rs) \<and>
     verdict_rows (wd_tables w') ''REJECTED'' = 1 \<and> decisions_counted example_meter ''REJECTED'' reg' = 1"
proof -
  let ?none = "\<lambda>s. None :: rat option"
  obtain w' reg' res l where run: "metered_task example_meter example_operations example_retry [evaluated_message, failing_message]
      (metered_world, ?none) = Some ((w', reg'), [Processed res, DeadLettered l])"
    and res: "rr_outcome res = EVALUATED" "td_verdict (rr_decision res) = ''REJECTED''" by (rule example_task)
  have "account example_meter ''tx'' ?none reg' [Processed res, DeadLettered l]"
    using metered_task_account [OF run example_partition] by simp
  then have one: "decisions_counted example_meter ''REJECTED'' reg' = 1"
    using res by (simp add: account_def new_decision_def decisions_counted_def [of _ _ ?none] series_value_def)
  have "no_lost_answers metered_world" by (simp add: no_lost_answers_def metered_world_def calm_def)
  moreover have "verdict_rows (wd_tables metered_world) ''REJECTED'' = 0"
    by (simp add: verdict_rows_def metered_world_def example_worker_world_def no_rows_def)
  moreover have "decisions_counted example_meter ''REJECTED'' ?none = 0"
    by (simp add: decisions_counted_def series_value_def)
  ultimately have "rat_of_nat (verdict_rows (wd_tables w') ''REJECTED'') = 1"
    using decision_metrics_match_store [OF run, of "''REJECTED''"] one by simp
  with run one show ?thesis by fastforce
qed

end
