(* ===== verification/Logging.thy ===== *)
theory Logging
  imports Observability
begin

text \<open>
  The log records of \<open>app/observability.py\<close>: the context that requests and messages bind, the chain of
  processors that \<open>configure_logging\<close> installs, the level below which records are dropped, and the
  decisions of \<open>setup_tracing\<close>. A record is a dictionary with its keys in order. The processors of
  structlog are parameters; \<open>structlog_ok\<close> states what their documentation says of them. The timestamp text
  and the text of an exception are inputs.
\<close>

section \<open>The context\<close>

type_synonym log_dict = "(string \<times> json) list"

record log_context =
  lc_correlation :: "string option"
  lc_bound :: log_dict

definition no_context :: log_context where
  "no_context = \<lparr>lc_correlation = None, lc_bound = []\<rparr>"

text \<open>\<open>d[key] = value\<close>: an existing key keeps its place.\<close>

fun set_item :: "string \<Rightarrow> json \<Rightarrow> log_dict \<Rightarrow> log_dict" where
  "set_item k v [] = [(k, v)]"
| "set_item k v ((k', v') # d) = (if k' = k then (k, v) # d else (k', v') # set_item k v d)"

definition bind_contextvars :: "string \<Rightarrow> json \<Rightarrow> log_context \<Rightarrow> log_context" where
  "bind_contextvars k v ctx = ctx\<lparr>lc_bound := set_item k v (lc_bound ctx)\<rparr>"

definition get_correlation_id :: "log_context \<Rightarrow> string option" where
  "get_correlation_id ctx = lc_correlation ctx"

definition bind_correlation :: "string \<Rightarrow> string option \<Rightarrow> log_context \<Rightarrow> log_context" where
  "bind_correlation new_id v ctx =
     (let resolved = bind_correlation_id new_id v
      in bind_contextvars ''correlation_id'' (JStr resolved) (ctx\<lparr>lc_correlation := Some resolved\<rparr>))"

definition clear_log_context :: "log_context \<Rightarrow> log_context" where
  "clear_log_context ctx = no_context"

text \<open>What \<open>RequestContextMiddleware.dispatch\<close> binds before it handles the request.\<close>

definition request_context :: "string \<Rightarrow> string \<Rightarrow> request_headers \<Rightarrow> log_context \<Rightarrow> log_context" where
  "request_context fresh_request fresh_correlation h ctx =
     (let ctx = clear_log_context ctx;
          request_id = (case rh_request_id h of
            None \<Rightarrow> fresh_request
          | Some s \<Rightarrow> (case sanitise_correlation_id (JStr s) of None \<Rightarrow> fresh_request | Some t \<Rightarrow> t))
      in bind_contextvars ''request_id'' (JStr request_id) (bind_correlation fresh_correlation (rh_correlation_id h) ctx))"

section \<open>Processors\<close>

text \<open>The processors of structlog: those that add a key take its text.\<close>

record structlog =
  merge_contextvars :: "log_dict \<Rightarrow> log_dict \<Rightarrow> log_dict"
  add_logger_name :: "string \<Rightarrow> log_dict \<Rightarrow> log_dict"
  add_log_level :: "string \<Rightarrow> log_dict \<Rightarrow> log_dict"
  time_stamper :: "string \<Rightarrow> log_dict \<Rightarrow> log_dict"
  format_exc_info :: "string \<Rightarrow> log_dict \<Rightarrow> log_dict"

definition service_processor :: "string \<Rightarrow> log_dict \<Rightarrow> log_dict" where
  "service_processor service d = set_item ''service'' (JStr service) d"

text \<open>\<open>add_log_level\<close> writes the level that a method stands for.\<close>

definition level_of_method :: "string \<Rightarrow> string" where
  "level_of_method method =
     (if method = ''warn'' then ''warning'' else if method = ''exception'' then ''error'' else method)"

definition LEVELS :: "(string \<times> nat) list" where
  "LEVELS = [(''DEBUG'', 10), (''INFO'', 20), (''WARNING'', 30), (''ERROR'', 40), (''CRITICAL'', 50)]"

text \<open>\<open>getattr(logging, level.upper(), logging.INFO)\<close>, for the levels that the settings admit.\<close>

definition root_level :: "string \<Rightarrow> nat" where
  "root_level level = (case map_of LEVELS (to_upper level) of None \<Rightarrow> 20 | Some n \<Rightarrow> n)"

definition enabled :: "string \<Rightarrow> string \<Rightarrow> bool" where
  "enabled level method \<longleftrightarrow> root_level level \<le> root_level (level_of_method method)"

record log_event =
  le_logger :: string
  le_method :: string
  le_timestamp :: string
  le_fields :: log_dict
  le_exception :: "string option"

definition redact_dict :: "string list \<Rightarrow> log_dict \<Rightarrow> log_dict" where
  "redact_dict redact_fields d = (case redaction_processor redact_fields (JDict d) of JDict d' \<Rightarrow> d' | _ \<Rightarrow> [])"

text \<open>The shared processors, in the order of the list.\<close>

definition shared_processors :: "structlog \<Rightarrow> string \<Rightarrow> string list \<Rightarrow> log_context \<Rightarrow> log_event \<Rightarrow> log_dict" where
  "shared_processors sl service redact_fields ctx e =
     redact_dict redact_fields
       (time_stamper sl (le_timestamp e)
         (add_log_level sl (le_method e)
           (add_logger_name sl (le_logger e)
             (service_processor service (merge_contextvars sl (lc_bound ctx) (le_fields e))))))"

text \<open>\<open>format_exc_info\<close> runs after the redaction.\<close>

definition emit :: "structlog \<Rightarrow> string \<Rightarrow> string \<Rightarrow> string list \<Rightarrow> log_context \<Rightarrow> log_event \<Rightarrow> log_dict option" where
  "emit sl service level redact_fields ctx e =
     (if \<not> enabled level (le_method e) then None
      else (let d = shared_processors sl service redact_fields ctx e
            in Some (case le_exception e of None \<Rightarrow> d | Some t \<Rightarrow> format_exc_info sl t d)))"

section \<open>Tracing\<close>

datatype tracing_step = WarnNoEndpoint | InstallProvider string string | InstrumentApp

definition setup_tracing :: "string \<Rightarrow> string \<Rightarrow> bool \<Rightarrow> bool \<Rightarrow> tracing_step list" where
  "setup_tracing service endpoint has_provider has_app =
     (if endpoint = [] then [WarnNoEndpoint]
      else (if has_provider then [] else [InstallProvider service endpoint]) @ (if has_app then [InstrumentApp] else []))"

section \<open>What a record holds\<close>

lemma map_of_set_item: "map_of (set_item k v d) = (map_of d)(k \<mapsto> v)"
  by (induction d) auto

text \<open>What structlog documents: a bound variable is added unless the event has the key, and the others set theirs.\<close>

definition structlog_ok :: "structlog \<Rightarrow> bool" where
  "structlog_ok sl \<longleftrightarrow>
     (\<forall>bound d k. map_of (merge_contextvars sl bound d) k =
        (case map_of d k of Some v \<Rightarrow> Some v | None \<Rightarrow> map_of bound k)) \<and>
     (\<forall>name d. map_of (add_logger_name sl name d) = (map_of d)(''logger'' \<mapsto> JStr name)) \<and>
     (\<forall>method d. map_of (add_log_level sl method d) = (map_of d)(''level'' \<mapsto> JStr (level_of_method method))) \<and>
     (\<forall>now d. map_of (time_stamper sl now d) = (map_of d)(''timestamp'' \<mapsto> JStr now)) \<and>
     (\<forall>exc d. map_of (format_exc_info sl exc d) = (map_of d)(''exception'' \<mapsto> JStr exc))"

definition masked :: "string list \<Rightarrow> string \<Rightarrow> json \<Rightarrow> json" where
  "masked redact_fields k v =
     (if to_lower k \<in> to_lower ` set redact_fields then REDACTED else redact (to_lower ` set redact_fields) v)"

lemma map_of_redact_dict: "map_of (redact_dict redact_fields d) k = map_option (masked redact_fields k) (map_of d k)"
  by (induction d) (auto simp: redact_dict_def redaction_processor_def masked_def)

lemma redact_dict_secrets: "set (secrets_in (to_lower ` set fs) (JDict (redact_dict fs d))) \<subseteq> {REDACTED}"
  using redacted_secrets [of "to_lower ` set fs" "JDict d"] by (simp add: redact_dict_def redaction_processor_def)

text \<open>The correlation id in the context and the one that records carry are the same.\<close>

definition ids_agree :: "log_context \<Rightarrow> bool" where
  "ids_agree ctx \<longleftrightarrow> map_of (lc_bound ctx) ''correlation_id'' = map_option JStr (lc_correlation ctx)"

lemma ids_agree_operations:
  "ids_agree no_context" "ids_agree (clear_log_context ctx)"
  "ids_agree (bind_correlation new_id v ctx)"
  "ids_agree ctx \<Longrightarrow> k \<noteq> ''correlation_id'' \<Longrightarrow> ids_agree (bind_contextvars k v' ctx)"
  by (simp_all add: ids_agree_def no_context_def clear_log_context_def bind_correlation_def bind_contextvars_def
      map_of_set_item Let_def)

text \<open>Nothing of the request before is left: the context of a request depends on its own headers only.\<close>

lemma request_context_fresh: "request_context r c h ctx = request_context r c h ctx'"
  by (simp add: request_context_def clear_log_context_def)

lemma request_ids_agree:
  "ids_agree (request_context r c h ctx)"
  "get_correlation_id (request_context r c h ctx) = Some (bind_correlation_id c (rh_correlation_id h))"
  unfolding request_context_def Let_def
  by (simp_all add: ids_agree_operations)
    (simp add: get_correlation_id_def bind_correlation_def bind_contextvars_def Let_def)

lemma emit_Some:
  "emit sl service level redact_fields ctx e = Some d \<Longrightarrow>
     enabled level (le_method e) \<and>
     d = (case le_exception e of
            None \<Rightarrow> shared_processors sl service redact_fields ctx e
          | Some t \<Rightarrow> format_exc_info sl t (shared_processors sl service redact_fields ctx e))"
  by (auto simp: emit_def Let_def split: if_splits option.splits)

lemma map_of_shared:
  "structlog_ok sl \<Longrightarrow> map_of (shared_processors sl service fs ctx e) k =
     map_option (masked fs k)
       (((\<lambda>k. case map_of (le_fields e) k of Some v \<Rightarrow> Some v | None \<Rightarrow> map_of (lc_bound ctx) k)
           (''service'' \<mapsto> JStr service, ''logger'' \<mapsto> JStr (le_logger e), ''level'' \<mapsto> JStr (level_of_method (le_method e)),
            ''timestamp'' \<mapsto> JStr (le_timestamp e))) k)"
  by (simp add: shared_processors_def map_of_redact_dict map_of_set_item service_processor_def structlog_ok_def)

text \<open>
  C31: what every emitted log record holds. If structlog does what it documents, it carries the service, the level and the timestamp, and the
  correlation id that is bound to the request or message, unless the event sets its own or the id is
  itself a field to mask; an event cannot pass as another service. Below the text of an exception, which
  is added last, no value under a field to mask is left at any depth.
\<close>

theorem log_records_complete:
  assumes "structlog_ok sl" "emit sl service level redact_fields ctx e = Some d" "ids_agree ctx"
  shows "map_of d ''service'' = Some (masked redact_fields ''service'' (JStr service)) \<and>
    map_of d ''level'' = Some (masked redact_fields ''level'' (JStr (level_of_method (le_method e)))) \<and>
    map_of d ''timestamp'' = Some (masked redact_fields ''timestamp'' (JStr (le_timestamp e))) \<and>
    (\<forall>id. get_correlation_id ctx = Some id \<longrightarrow> map_of (le_fields e) ''correlation_id'' = None \<longrightarrow>
       map_of d ''correlation_id'' = Some (masked redact_fields ''correlation_id'' (JStr id))) \<and>
    (\<forall>k v. map_of d k = Some v \<longrightarrow> le_exception e = None \<or> k \<noteq> ''exception'' \<longrightarrow>
       (if to_lower k \<in> to_lower ` set redact_fields then v = REDACTED
        else set (secrets_in (to_lower ` set redact_fields) v) \<subseteq> {REDACTED})) \<and>
    root_level level \<le> root_level (level_of_method (le_method e))"
proof -
  let ?keys = "to_lower ` set redact_fields"
  note emitted = emit_Some [OF assms(2)]
  have shared: "map_of d k = map_of (shared_processors sl service redact_fields ctx e) k"
    if "le_exception e = None \<or> k \<noteq> ''exception''" for k
    using emitted that assms(1) by (auto simp: structlog_ok_def split: option.splits)
  have "if to_lower k \<in> ?keys then v = REDACTED else set (secrets_in ?keys v) \<subseteq> {REDACTED}"
    if "map_of d k = Some v" "le_exception e = None \<or> k \<noteq> ''exception''" for k v
  proof -
    from that shared obtain u where "v = masked redact_fields k u" by (auto simp: map_of_shared [OF assms(1)])
    with redacted_secrets [of ?keys u] show ?thesis by (simp add: masked_def)
  qed
  moreover have "map_of d ''correlation_id'' = Some (masked redact_fields ''correlation_id'' (JStr id))"
    if "get_correlation_id ctx = Some id" "map_of (le_fields e) ''correlation_id'' = None" for id
    using assms(3) that by (simp add: shared map_of_shared [OF assms(1)] ids_agree_def get_correlation_id_def)
  moreover have "map_of d ''service'' = Some (masked redact_fields ''service'' (JStr service))"
    "map_of d ''level'' = Some (masked redact_fields ''level'' (JStr (level_of_method (le_method e))))"
    "map_of d ''timestamp'' = Some (masked redact_fields ''timestamp'' (JStr (le_timestamp e)))"
    by (simp_all add: shared map_of_shared [OF assms(1)])
  moreover have "root_level level \<le> root_level (level_of_method (le_method e))"
    using emitted by (simp add: enabled_def)
  ultimately show ?thesis by blast
qed

text \<open>A key that comes after the redaction is never masked, although it may be named as one to mask.\<close>

lemma exception_not_masked:
  assumes "structlog_ok sl" "enabled level (le_method e)" "le_exception e = Some t"
  shows "\<exists>d. emit sl service level [''exception''] ctx e = Some d \<and> map_of d ''exception'' = Some (JStr t)"
  using assms by (simp add: emit_def Let_def structlog_ok_def)

section \<open>Example\<close>

definition example_structlog :: structlog where
  "example_structlog =
     \<lparr>merge_contextvars = (\<lambda>bound d. d @ filter (\<lambda>(k, v). k \<notin> fst ` set d) bound),
      add_logger_name = (\<lambda>name. set_item ''logger'' (JStr name)),
      add_log_level = (\<lambda>method. set_item ''level'' (JStr (level_of_method method))),
      time_stamper = (\<lambda>now. set_item ''timestamp'' (JStr now)),
      format_exc_info = (\<lambda>exc. set_item ''exception'' (JStr exc))\<rparr>"

lemma map_of_new_keys: "map_of (filter (\<lambda>(k, v). k \<notin> S) kvs) k = (if k \<in> S then None else map_of kvs k)"
  by (induction kvs) auto

lemma example_structlog_ok: "structlog_ok example_structlog"
proof -
  have "map_of (d @ filter (\<lambda>(k, v). k \<notin> fst ` set d) bound) k = (case map_of d k of Some v \<Rightarrow> Some v | None \<Rightarrow> map_of bound k)"
    for d bound :: log_dict and k
    using map_of_eq_None_iff [of d k] by (auto simp: map_add_def map_of_new_keys split: option.splits)
  then show ?thesis by (simp add: structlog_ok_def example_structlog_def map_of_set_item)
qed

definition logging_event :: log_event where
  "logging_event =
     \<lparr>le_logger = ''fraud.http'', le_method = ''warning'', le_timestamp = ''2026-10-29T14:03:11Z'',
      le_fields = [(''event'', JStr ''retry''), (''service'', JStr ''other''),
        (''request'', JDict [(''Authorization'', JStr ''secret'')])], le_exception = None\<rparr>"

definition logging_context :: log_context where
  "logging_context = bind_correlation ''new'' (Some ''trace-7'') no_context"

lemma example_emitted:
  "emit example_structlog ''fraud-worker'' ''INFO'' [''authorization''] logging_context logging_event =
     Some [(''event'', JStr ''retry''), (''service'', JStr ''fraud-worker''),
       (''request'', JDict [(''Authorization'', REDACTED)]), (''correlation_id'', JStr ''trace-7''),
       (''logger'', JStr ''fraud.http''), (''level'', JStr ''warning''), (''timestamp'', JStr ''2026-10-29T14:03:11Z'')]"
  by code_simp

theorem log_records_complete_witness:
  "\<exists>d. emit example_structlog ''fraud-worker'' ''INFO'' [''authorization''] logging_context logging_event = Some d \<and>
     map_of d ''service'' = Some (JStr ''fraud-worker'') \<and> map_of d ''correlation_id'' = Some (JStr ''trace-7'')"
proof -
  have "ids_agree logging_context" by (simp add: logging_context_def ids_agree_operations)
  from log_records_complete [OF example_structlog_ok example_emitted this] example_emitted show ?thesis
    by (auto simp: masked_def to_lower_def)
qed

end
