(* ===== verification/Telemetry.thy ===== *)
theory Telemetry
  imports Handling_Metrics Worker_Run Logging
begin

text \<open>
  The declarations of the metrics in \<open>app/observability.py\<close> and the code that feeds them: every series
  that is recorded was declared with as many labels, the backlog gauge follows the queue of a partition,
  and a request leaves one log record with the id that its response carries.
\<close>

section \<open>Declarations\<close>

datatype metric_kind = Counter | Gauge | Histogram

text \<open>The metrics of the module with the names of their labels.\<close>

definition METRICS :: "(metric_kind \<times> string \<times> string list) list" where
  "METRICS =
     [(Counter, ''fraud_http_requests_total'', [''service'', ''method'', ''route'', ''status_code'']),
      (Histogram, ''fraud_http_request_duration_seconds'', [''service'', ''method'', ''route'']),
      (Counter, ''fraud_worker_messages_total'', [''service'', ''topic'', ''status'']),
      (Counter, ''fraud_worker_retries_total'', [''service'', ''failure_class'']),
      (Counter, ''fraud_worker_decisions_total'', [''service'', ''verdict'']),
      (Counter, ''fraud_worker_rule_triggers_total'', [''service'', ''rule'']),
      (Histogram, ''fraud_worker_message_duration_seconds'', [''service'', ''topic'']),
      (Gauge, ''fraud_worker_partition_backlog'', [''service'', ''partition'']),
      (Gauge, ''fraud_worker_partition_blocked_seconds'', [''service'', ''partition'']),
      (Counter, ''fraud_rule_cache_lookups_total'', [''layer'']),
      (Counter, ''fraud_rule_set_rejected_total'', [''rule_set_key'']),
      (Counter, ''fraud_rate_limiter_errors_total'', []),
      (Gauge, ''fraud_database_up'', [''service'']),
      (Gauge, ''fraud_kafka_up'', [''service'', ''component''])]"

text \<open>The series of a metric and the number of their labels.\<close>

definition series_of :: "metric_kind \<times> string \<times> string list \<Rightarrow> (string \<times> nat) list" where
  "series_of = (\<lambda>(kind, name, labels).
     case kind of
       Histogram \<Rightarrow> [(name @ ''_count'', length labels), (name @ ''_sum'', length labels)]
     | _ \<Rightarrow> [(name, length labels)])"

definition declared_series :: "(string \<times> nat) list" where
  "declared_series = concat (map series_of METRICS)"

definition well_labelled :: "registry \<Rightarrow> bool" where
  "well_labelled m \<longleftrightarrow> (\<forall>name labels. m (name, labels) \<noteq> None \<longrightarrow> (name, length labels) \<in> set declared_series)"

lemma declared:
  "(''fraud_http_requests_total'', 4) \<in> set declared_series"
  "(''fraud_http_request_duration_seconds'' @ ''_count'', 3) \<in> set declared_series"
  "(''fraud_http_request_duration_seconds'' @ ''_sum'', 3) \<in> set declared_series"
  "(''fraud_worker_messages_total'', 3) \<in> set declared_series"
  "(''fraud_worker_retries_total'', 2) \<in> set declared_series"
  "(''fraud_worker_decisions_total'', 2) \<in> set declared_series"
  "(''fraud_worker_rule_triggers_total'', 2) \<in> set declared_series"
  "(''fraud_worker_message_duration_seconds'' @ ''_count'', 2) \<in> set declared_series"
  "(''fraud_worker_message_duration_seconds'' @ ''_sum'', 2) \<in> set declared_series"
  "(''fraud_worker_partition_backlog'', 2) \<in> set declared_series"
  "(''fraud_worker_partition_blocked_seconds'', 2) \<in> set declared_series"
  "(''fraud_rule_cache_lookups_total'', 1) \<in> set declared_series"
  "(''fraud_rule_set_rejected_total'', 1) \<in> set declared_series"
  "(''fraud_rate_limiter_errors_total'', 0) \<in> set declared_series"
  "(''fraud_database_up'', 1) \<in> set declared_series"
  "(''fraud_kafka_up'', 2) \<in> set declared_series"
  by code_simp+

lemma well_labelled_empty: "well_labelled (\<lambda>k. None)"
  by (simp add: well_labelled_def)

lemma well_labelled_update:
  "well_labelled m \<Longrightarrow> (name, n) \<in> set declared_series \<Longrightarrow> length labels = n \<Longrightarrow>
     well_labelled (m((name, labels) \<mapsto> v))"
  by (auto simp: well_labelled_def)

lemma well_labelled_inc:
  "well_labelled m \<Longrightarrow> (name, n) \<in> set declared_series \<Longrightarrow> length labels = n \<Longrightarrow> well_labelled (inc name labels m)"
  unfolding inc_def add_to_def by (rule well_labelled_update)

lemma well_labelled_set:
  "well_labelled m \<Longrightarrow> (name, n) \<in> set declared_series \<Longrightarrow> length labels = n \<Longrightarrow> well_labelled (set_gauge name labels v m)"
  unfolding set_gauge_def by (rule well_labelled_update)

lemma well_labelled_observe:
  "well_labelled m \<Longrightarrow> (name @ ''_count'', n) \<in> set declared_series \<Longrightarrow>
     (name @ ''_sum'', n) \<in> set declared_series \<Longrightarrow> length labels = n \<Longrightarrow> well_labelled (observe name labels v m)"
  unfolding observe_def add_to_def by (intro well_labelled_update well_labelled_inc)

lemma well_labelled_remove: "well_labelled m \<Longrightarrow> remove_series name labels m = Some m' \<Longrightarrow> well_labelled m'"
  unfolding well_labelled_def remove_series_def by (fastforce split: option.splits if_splits)

lemma well_labelled_triggers:
  "well_labelled m \<Longrightarrow> well_labelled (fold (\<lambda>rule. inc ''fraud_worker_rule_triggers_total'' [service, rule]) triggered m)"
proof (induction triggered arbitrary: m)
  case (Cons rule triggered)
  have "well_labelled (inc ''fraud_worker_rule_triggers_total'' [service, rule] m)"
    by (rule well_labelled_inc [OF Cons.prems declared(7)]) simp
  from Cons.IH [OF this] show ?case by simp
qed simp

text \<open>Every wrapper keeps it, so no call of the Prometheus client is refused for its labels.\<close>

lemmas wrapper_defs =
  worker_message_timer_def worker_message_outcome_def worker_retry_def worker_fraud_decision_def
  set_partition_backlog_def set_partition_blocked_def record_rule_cache_lookup_def record_rule_set_rejected_def
  record_rate_limiter_error_def set_database_health_def set_kafka_health_def record_request_def Let_def

lemmas keeps_labels =
  well_labelled_triggers well_labelled_observe [OF _ declared(2,3)] well_labelled_observe [OF _ declared(8,9)]
  well_labelled_inc [OF _ declared(1)] well_labelled_inc [OF _ declared(4)] well_labelled_inc [OF _ declared(5)]
  well_labelled_inc [OF _ declared(6)] well_labelled_inc [OF _ declared(12)] well_labelled_inc [OF _ declared(13)]
  well_labelled_inc [OF _ declared(14)] well_labelled_set [OF _ declared(10)] well_labelled_set [OF _ declared(11)]
  well_labelled_set [OF _ declared(15)] well_labelled_set [OF _ declared(16)]

lemma wrappers_well_labelled:
  assumes "well_labelled m"
  shows "well_labelled (worker_message_timer service topic elapsed m)"
    and "well_labelled (worker_message_outcome service topic status m)"
    and "well_labelled (worker_retry service label m)"
    and "well_labelled (worker_fraud_decision service verdict triggered m)"
    and "well_labelled (set_partition_backlog service number n m)"
    and "well_labelled (set_partition_blocked service number secs m)"
    and "well_labelled (record_rule_cache_lookup layer m)"
    and "well_labelled (record_rule_set_rejected key m)"
    and "well_labelled (record_rate_limiter_error m)"
    and "well_labelled (set_database_health service healthy m)"
    and "well_labelled (set_kafka_health service part healthy m)"
    and "well_labelled (record_request service method path code elapsed m)"
  using assms by (simp_all add: wrapper_defs keeps_labels)

lemma removal_well_labelled: "well_labelled m \<Longrightarrow> well_labelled (remove_partition_metrics service number m)"
  by (auto simp: remove_partition_metrics_def split: option.splits dest: well_labelled_remove)

text \<open>So does a partition's task, whatever its messages come to.\<close>

lemma clear_well_labelled: "well_labelled m \<Longrightarrow> well_labelled (clear_blocked service number since m)"
  by (simp add: clear_blocked_def wrappers_well_labelled split: option.split)

lemma attempt_well_labelled:
  assumes "metered_attempt mt ops cfg m h (w, reg) = ((w', reg'), x)" "well_labelled reg"
  shows "well_labelled reg'"
  using assms
  by (auto simp: metered_attempt_def metered_processing_failure_def metered_back_off_def count_processed_def
      count_dead_lettered_def wrappers_well_labelled clear_well_labelled Let_def split: prod.splits sum.splits option.splits if_splits)

lemma handle_well_labelled:
  assumes "metered_handle mt ops cfg m wr = Some (wr', res)" "well_labelled (snd wr)"
  shows "well_labelled (snd wr')"
proof -
  have "well_labelled (snd wr) \<longrightarrow> well_labelled (snd wr')"
    using assms(1) unfolding metered_handle_def
  proof (induction rule: retry_loop_rule)
    case (ended h w w' r)
    then show ?case by (cases w; cases w') (auto dest: attempt_well_labelled)
  next
    case (repeated h w h1 w1 w' r)
    then show ?case by (cases w; cases w1) (auto dest: attempt_well_labelled)
  qed simp
  with assms(2) show ?thesis by simp
qed

lemma task_well_labelled:
  "metered_task mt ops cfg ms wr = Some (wr', rs) \<Longrightarrow> well_labelled (snd wr) \<Longrightarrow> well_labelled (snd wr')"
proof (induction ms arbitrary: wr rs)
  case (Cons m ms)
  from Cons.prems(1) obtain wr1 res where one: "metered_handle mt ops cfg m wr = Some (wr1, res)"
    by (auto split: option.splits)
  with handle_well_labelled [OF one Cons.prems(2)] Cons.prems(1) Cons.IH [of wr1] show ?case
    by (auto split: if_splits)
qed simp

section \<open>The backlog of a partition\<close>

text \<open>What \<open>_dispatch\<close> and \<open>_consume_partition\<close> set the gauge to.\<close>

definition dispatch_metrics :: "string \<Rightarrow> kafka_message \<Rightarrow> partitions \<Rightarrow> registry \<Rightarrow> registry" where
  "dispatch_metrics service m ps reg =
     (case ps (partition_of m) of
        None \<Rightarrow> reg
      | Some st \<Rightarrow>
          if ps_stopping st then reg
          else set_partition_backlog service (snd (partition_of m)) (length (ps_queue st @ [Some m])) reg)"

definition after_message_metrics :: "string \<Rightarrow> topic_partition \<Rightarrow> partition_state \<Rightarrow> registry \<Rightarrow> registry" where
  "after_message_metrics service tp st = set_partition_backlog service (snd tp) (length (ps_queue st))"

definition shown_backlog :: "string \<Rightarrow> topic_partition \<Rightarrow> registry \<Rightarrow> rat" where
  "shown_backlog service tp reg = series_value reg ''fraud_worker_partition_backlog'' [service, show_int (snd tp)]"

text \<open>The gauge is the length of the queue; it may still count the message that the task has just taken.\<close>

definition backlog_shown :: "string \<Rightarrow> topic_partition \<Rightarrow> partition_state \<Rightarrow> registry \<Rightarrow> bool" where
  "backlog_shown service tp st reg \<longleftrightarrow>
     shown_backlog service tp reg = of_nat (length (ps_queue st)) \<or>
     ps_task st \<noteq> Waiting \<and> shown_backlog service tp reg = of_nat (length (ps_queue st)) + 1"

lemma shown_after_set: "shown_backlog service tp (set_partition_backlog service (snd tp) n reg) = of_nat n"
  by (simp add: shown_backlog_def set_partition_backlog_def metric_defs)

lemma backlog_shown_dispatch:
  assumes "ps (partition_of m) = Some st" "\<not> ps_stopping st"
  shows "\<exists>st'. dispatch high_watermark m ps (partition_of m) = Some st' \<and>
    backlog_shown service (partition_of m) st' (dispatch_metrics service m ps reg)"
  using assms
  by (simp add: dispatch_def dispatch_metrics_def backlog_shown_def shown_after_set enqueue_def Let_def)

lemma backlog_shown_take:
  assumes "backlog_shown service tp st reg" "ps_task st = Waiting" "ps_queue st \<noteq> []"
  shows "backlog_shown service tp (take_message st) reg"
  using assms by (cases "ps_queue st") (auto simp: backlog_shown_def take_message_def split: option.split)

lemma backlog_shown_after: "backlog_shown service tp (after_message high_watermark st) (after_message_metrics service tp st reg)"
  by (simp add: backlog_shown_def after_message_def after_message_metrics_def shown_after_set)

section \<open>A request\<close>

text \<open>The record \<open>http_request_completed\<close>; the rounded duration is computed by the caller.\<close>

definition request_log :: "string \<Rightarrow> string \<Rightarrow> string \<Rightarrow> int \<Rightarrow> json \<Rightarrow> log_event option" where
  "request_log timestamp method path status duration_ms =
     (if logs_request path status
      then Some \<lparr>le_logger = ''fraud.http'', le_method = (if 500 \<le> status then ''warning'' else ''info''),
        le_timestamp = timestamp,
        le_fields = [(''event'', JStr ''http_request_completed''), (''method'', JStr method), (''route'', JStr path),
          (''status_code'', JInt status), (''duration_ms'', duration_ms)],
        le_exception = None\<rparr>
      else None)"

text \<open>What a request meets that it does not decide itself.\<close>

record middleware_world =
  rw_fresh_request :: string
  rw_fresh_correlation :: string
  rw_scoped :: "string option"
  rw_routes :: "(string \<times> bool) list"
  rw_elapsed :: rat
  rw_duration_ms :: json
  rw_timestamp :: string

text \<open>
  \<open>RequestContextMiddleware.dispatch\<close> as a whole: \<open>call_next\<close> gets the bound context and gives a response,
  or \<open>None\<close> when it raises. The result is the state, the registry, the context that is left, the response
  with its headers, and the log record.
\<close>

definition dispatch_request ::
    "structlog \<Rightarrow> string \<Rightarrow> string \<Rightarrow> string list \<Rightarrow> middleware_world \<Rightarrow> string \<Rightarrow> request_headers \<Rightarrow>
     (log_context \<Rightarrow> 's \<Rightarrow> 's \<times> response option) \<Rightarrow> log_context \<times> 's \<times> registry \<Rightarrow>
     (log_context \<times> 's \<times> registry) \<times> response option \<times> log_dict option" where
  "dispatch_request sl service level redact_fields rw method h call_next = (\<lambda>(ctx, s, reg).
     let ctx = request_context (rw_fresh_request rw) (rw_fresh_correlation rw) h ctx;
         request_id = (case rh_request_id h of
            None \<Rightarrow> rw_fresh_request rw
          | Some v \<Rightarrow> (case sanitise_correlation_id (JStr v) of None \<Rightarrow> rw_fresh_request rw | Some t \<Rightarrow> t));
         correlation_id = bind_correlation_id (rw_fresh_correlation rw) (rh_correlation_id h);
         (s, answered) = call_next ctx s;
         path = resolved_route_template (rw_scoped rw) (rw_routes rw);
         status = (case answered of None \<Rightarrow> 500 | Some r \<Rightarrow> re_status r);
         reg = record_request service method path (map_option re_status answered) (rw_elapsed rw) reg;
         line = Option.bind (request_log (rw_timestamp rw) method path status (rw_duration_ms rw))
           (emit sl service level redact_fields ctx)
     in ((clear_log_context ctx, s, reg),
         map_option (\<lambda>r. r\<lparr>re_headers := set_header ''x-correlation-id'' correlation_id
            (set_header ''x-request-id'' request_id (re_headers r))\<rparr>) answered,
         line))"

text \<open>For a request that does not raise it answers like \<open>with_context\<close>.\<close>

lemma dispatch_answers:
  assumes "dispatch_request sl service level redact_fields rw method h call_next (ctx, s, reg) = (x, Some r, line)"
  shows "r = snd (with_context (rw_fresh_request rw) (rw_fresh_correlation rw) h
    (\<lambda>_. map_prod id the (call_next (request_context (rw_fresh_request rw) (rw_fresh_correlation rw) h ctx) s)))"
  using assms by (auto simp: dispatch_request_def with_context_def Let_def split: prod.splits)

text \<open>
  An error, also one that no handler caught, is logged whatever its route is, when the level admits
  warnings; the record has the correlation id of the response, and nothing of the request is left.
\<close>

lemma emit_enabled: "enabled level (le_method e) \<Longrightarrow> \<exists>d. emit sl service level redact_fields ctx e = Some d"
  by (simp add: emit_def Let_def)

lemma logged_correlation:
  assumes "structlog_ok sl" "emit sl service level fs ctx e = Some d" "ids_agree ctx" "get_correlation_id ctx = Some i"
    and "map_of (le_fields e) ''correlation_id'' = None" "le_exception e = None"
  shows "map_of d ''correlation_id'' = Some (masked fs ''correlation_id'' (JStr i))"
  using emit_Some [OF assms(2)] assms(3-)
  by (simp add: map_of_shared [OF assms(1)] ids_agree_def get_correlation_id_def)

lemma dispatch_logs:
  assumes "dispatch_request sl service level redact_fields rw method h call_next (ctx, s, reg) = ((ctx', s', reg'), answered, line)"
    and "structlog_ok sl" "500 \<le> (case answered of None \<Rightarrow> 500 | Some r \<Rightarrow> re_status r)" "enabled level ''warning''"
  shows "ctx' = no_context \<and> (\<exists>d. line = Some d \<and> map_of d ''correlation_id'' =
      Some (masked redact_fields ''correlation_id'' (JStr (bind_correlation_id (rw_fresh_correlation rw) (rh_correlation_id h)))))"
proof -
  let ?ctx = "request_context (rw_fresh_request rw) (rw_fresh_correlation rw) h ctx"
  obtain s1 a where call: "call_next ?ctx s = (s1, a)" by (rule prod.exhaust)
  let ?status = "case a of None \<Rightarrow> 500 | Some r \<Rightarrow> re_status r"
  let ?path = "resolved_route_template (rw_scoped rw) (rw_routes rw)"
  have status: "500 \<le> ?status" using assms(1,3) call
    by (auto simp: dispatch_request_def Let_def split: option.splits)
  then obtain e where e: "request_log (rw_timestamp rw) method ?path ?status (rw_duration_ms rw) = Some e"
    and level: "le_method e = ''warning''" "le_exception e = None" "map_of (le_fields e) ''correlation_id'' = None"
    by (simp add: request_log_def logs_request_def)
  obtain d where d: "emit sl service level redact_fields ?ctx e = Some d"
    using emit_enabled [of level e sl service redact_fields ?ctx] assms(4) level(1) by auto
  have result: "ctx' = clear_log_context ?ctx" "line = Option.bind (request_log (rw_timestamp rw) method ?path ?status
      (rw_duration_ms rw)) (emit sl service level redact_fields ?ctx)"
    using assms(1) call by (simp_all add: dispatch_request_def Let_def)
  from logged_correlation [OF assms(2) d request_ids_agree(1,2) level(3,2)] d e show ?thesis
    by (simp only: result clear_log_context_def bind.bind_lunit option.inject simp_thms)
qed

end
