(* ===== verification/Load_Tests.thy ===== *)
theory Load_Tests
  imports Security
begin

text \<open>
  The load tests (\<open>scripts/loadtest\<close>) and the reader of env files that they share with the smoke test.
  \<open>pipeline_load.py\<close> measures the delay from publishing to decision across two clocks;
  \<open>run_api_load.py\<close> raises the rate of requests until the API cannot keep up. What the measured system
  answers, the clocks and k6 are inputs. Floats are rational numbers.
\<close>

section \<open>Env files\<close>

text \<open>\<open>str.splitlines\<close>: \<open>\r\n\<close> is one break, and a break at the end starts no further line.\<close>

definition is_break :: "char \<Rightarrow> bool" where
  "is_break c \<longleftrightarrow> (let n = (of_char c :: nat) in 10 \<le> n \<and> n \<le> 13 \<or> 28 \<le> n \<and> n \<le> 30 \<or> n = 133)"

fun lines_from :: "string \<Rightarrow> string \<Rightarrow> string list" where
  "lines_from cur [] = (if cur = [] then [] else [rev cur])"
| "lines_from cur (c # s) =
     (if c = CHR 0x0D \<and> s \<noteq> [] \<and> hd s = CHR 0x0A then rev cur # lines_from [] (tl s)
      else if is_break c then rev cur # lines_from [] s
      else lines_from (c # cur) s)"

definition splitlines :: "string \<Rightarrow> string list" where
  "splitlines s = lines_from [] s"

text \<open>A line \<open>KEY=VALUE\<close>; a later one for the same key replaces it.\<close>

definition env_line :: "string \<Rightarrow> (string \<times> string) option" where
  "env_line raw =
     (let line = py_strip raw
      in if line = [] \<or> hd line = CHR ''#'' \<or> CHR ''='' \<notin> set line then None
         else Some (py_strip (takeWhile (\<lambda>c. c \<noteq> CHR ''='') line),
                    py_strip (tl (dropWhile (\<lambda>c. c \<noteq> CHR ''='') line))))"

definition load_env :: "string \<Rightarrow> string \<Rightarrow> string option" where
  "load_env text' = map_of (rev (List.map_filter env_line (splitlines text')))"

section \<open>The clock offset\<close>

text \<open>A sample: the host clock before and after the query, and the clock of the database in between.\<close>

record clock_sample =
  cs_before :: rat
  cs_db_now :: rat
  cs_after :: rat

definition reading :: "clock_sample \<Rightarrow> rat \<times> rat" where
  "reading s = (cs_after s - cs_before s, cs_db_now s - (cs_before s + cs_after s) / 2)"

text \<open>\<open>min\<close> of pairs compares the second components of equal first ones.\<close>

fun least_reading :: "rat \<times> rat \<Rightarrow> (rat \<times> rat) list \<Rightarrow> rat \<times> rat" where
  "least_reading best [] = best"
| "least_reading best (r # rs) =
     least_reading (if fst r < fst best \<or> fst r = fst best \<and> snd r < snd best then r else best) rs"

definition clock_offset_seconds :: "clock_sample \<Rightarrow> clock_sample list \<Rightarrow> rat" where
  "clock_offset_seconds s ss = snd (least_reading (reading s) (map reading ss))"

section \<open>Publishing at a rate\<close>

text \<open>
  What the publication of one event meets: how much longer than asked \<open>sleep\<close> takes, how often the queue
  of the producer is full, and the time that passes until it is not and until \<open>poll\<close> returns.
\<close>

record pace_step =
  pu_oversleep :: rat
  pu_full :: nat
  pu_drain :: rat
  pu_work :: rat

definition paced :: "rat \<Rightarrow> rat \<Rightarrow> nat \<Rightarrow> pace_step \<Rightarrow> rat \<Rightarrow> rat" where
  "paced started rate sent p now =
     (if 0 < rate
      then (let delay = started + of_nat sent / rate - now in if 0 < delay then now + delay + pu_oversleep p else now)
      else now)"

text \<open>The times at which the events are handed to the producer, and the time at the end.\<close>

fun publish_from :: "rat \<Rightarrow> rat \<Rightarrow> nat \<Rightarrow> pace_step list \<Rightarrow> rat \<Rightarrow> rat list \<times> rat" where
  "publish_from started rate sent [] now = ([], now)"
| "publish_from started rate sent (p # ps) now =
     (let produced = paced started rate sent p now + of_nat (pu_full p) * pu_drain p;
          (handed, end') = publish_from started rate (Suc sent) ps (produced + pu_work p)
      in (produced # handed, end'))"

datatype test_error = NotAcknowledged | DecisionsTimedOut nat | DivisionByZero | TooFewRows | BadDuration | NoSummary

text \<open>\<open>publish\<close>: the achieved rate; \<open>unacknowledged\<close> and \<open>flushed\<close> are the answer and the duration of \<open>flush\<close>.\<close>

definition publish_load :: "rat \<Rightarrow> pace_step list \<Rightarrow> nat \<Rightarrow> rat \<Rightarrow> rat \<Rightarrow> test_error + rat" where
  "publish_load rate steps unacknowledged flushed started =
     (let (handed, end') = publish_from started rate 0 steps started
      in if unacknowledged \<noteq> 0 then Inl NotAcknowledged
         else if end' + flushed = started then Inl DivisionByZero
         else Inr (of_nat (length steps) / (end' + flushed - started)))"

section \<open>Waiting for the decisions\<close>

text \<open>A poll: the number of stored decisions, and the clock after the query. \<open>None\<close> is still waiting.\<close>

fun wait_for_decisions :: "nat \<Rightarrow> rat \<Rightarrow> (nat \<times> rat) list \<Rightarrow> (test_error + unit) option" where
  "wait_for_decisions expected deadline [] = None"
| "wait_for_decisions expected deadline ((done', now) # polls) =
     (if expected \<le> done' then Some (Inr ())
      else if deadline < now then Some (Inl (DecisionsTimedOut done'))
      else wait_for_decisions expected deadline polls)"

section \<open>The report\<close>

record load_row =
  lr_processed_at :: rat
  lr_source_timestamp :: rat
  lr_verdict :: string

definition latency_ms :: "rat \<Rightarrow> load_row \<Rightarrow> rat" where
  "latency_ms offset r = (lr_processed_at r - offset - lr_source_timestamp r / 1000) * 1000"

text \<open>\<open>statistics.quantiles(data, n=100, method="inclusive")\<close>, of sorted data with two values at least.\<close>

definition percentile :: "rat list \<Rightarrow> nat \<Rightarrow> rat" where
  "percentile data i =
     (let m = length data - 1; j = i * m div 100; delta = i * m mod 100
      in (data ! j * of_nat (100 - delta) + data ! Suc j * of_nat delta) / 100)"

definition verdict_counts :: "load_row list \<Rightarrow> (string \<times> nat) list" where
  "verdict_counts rows =
     map (\<lambda>v. (v, length (filter (\<lambda>r. lr_verdict r = v) rows))) (filter (\<lambda>v. v \<in> lr_verdict ` set rows)
       [''APPROVED'', ''REJECTED'', ''REVIEW''])"

record load_report =
  rp_stored :: nat
  rp_verdicts :: "(string \<times> nat) list"
  rp_throughput :: rat
  rp_p50 :: rat
  rp_p95 :: rat
  rp_p99 :: rat
  rp_max :: rat

definition report :: "rat \<Rightarrow> load_row list \<Rightarrow> test_error + load_report" where
  "report offset rows =
     (let latencies = sort (map (latency_ms offset) rows);
          done' = sort (map lr_processed_at rows);
          drain = last done' - hd done'
      in if length rows < 2 then Inl TooFewRows
         else if drain = 0 then Inl DivisionByZero
         else Inr \<lparr>rp_stored = length rows, rp_verdicts = verdict_counts rows,
                   rp_throughput = of_nat (length rows - 1) / drain, rp_p50 = percentile latencies 50,
                   rp_p95 = percentile latencies 95, rp_p99 = percentile latencies 99, rp_max = last latencies\<rparr>)"

section \<open>The API load driver\<close>

text \<open>\<open>float\<close> of digits and points: one point at most, and a digit.\<close>

definition duration_number :: "string \<Rightarrow> rat option" where
  "duration_number s =
     (let whole = takeWhile (\<lambda>c. c \<noteq> CHR ''.'') s; frac = tl (dropWhile (\<lambda>c. c \<noteq> CHR ''.'') s)
      in if whole @ frac = [] \<or> CHR ''.'' \<in> set frac \<or> \<not> list_all is_digit (whole @ frac) then None
         else Some (of_nat (read_nat whole) + of_nat (read_nat frac) / 10 ^ length frac))"

definition unit_seconds :: "char \<Rightarrow> rat option" where
  "unit_seconds c =
     (if c = CHR ''h'' then Some 3600 else if c = CHR ''m'' then Some 60 else if c = CHR ''s'' then Some 1 else None)"

text \<open>Digits without a unit at the end count for nothing.\<close>

fun seconds_from :: "rat \<Rightarrow> string \<Rightarrow> string \<Rightarrow> test_error + rat" where
  "seconds_from secs number [] = Inr secs"
| "seconds_from secs number (c # s) =
     (if is_digit c \<or> c = CHR ''.'' then seconds_from secs (number @ [c]) s
      else (case (duration_number number, unit_seconds c) of
              (Some n, Some u) \<Rightarrow> seconds_from (secs + n * u) [] s
            | _ \<Rightarrow> Inl BadDuration))"

definition seconds :: "string \<Rightarrow> test_error + rat" where
  "seconds duration = seconds_from 0 [] duration"

text \<open>The numbers of k6's summary that \<open>run_step\<close> reads.\<close>

record k6_summary =
  k6_count :: rat
  k6_failed :: rat
  k6_dropped :: "rat option"
  k6_med :: rat
  k6_p95 :: rat
  k6_p99 :: rat
  k6_max :: rat

record step_result =
  sr_achieved :: rat
  sr_failed :: rat
  sr_dropped :: rat
  sr_p50 :: rat
  sr_p95 :: rat
  sr_p99 :: rat
  sr_max :: rat

definition run_step :: "string \<Rightarrow> k6_summary option \<Rightarrow> test_error + step_result" where
  "run_step duration summary =
     (case summary of
        None \<Rightarrow> Inl NoSummary
      | Some k \<Rightarrow>
          err_bind (seconds duration)
            (\<lambda>secs. if secs = 0 then Inl DivisionByZero
               else Inr \<lparr>sr_achieved = k6_count k / secs, sr_failed = k6_failed k,
                         sr_dropped = (case k6_dropped k of None \<Rightarrow> 0 | Some d \<Rightarrow> d), sr_p50 = k6_med k,
                         sr_p95 = k6_p95 k, sr_p99 = k6_p99 k, sr_max = k6_max k\<rparr>))"

datatype step_outcome = StepOk | ErrorsRate rat | RateNotSustained | TooSlow rat

definition step_verdict :: "step_result \<Rightarrow> nat \<Rightarrow> rat \<Rightarrow> step_outcome" where
  "step_verdict r rate p99_slo_ms =
     (if sr_failed r > 1 / 100 then ErrorsRate (sr_failed r)
      else if sr_achieved r < 95 / 100 * of_nat rate then RateNotSustained
      else if sr_p99 r > p99_slo_ms then TooSlow p99_slo_ms
      else StepOk)"

text \<open>The steps of one endpoint: up to the first rate that fails, or that cannot be measured at all.\<close>

fun sweep :: "rat \<Rightarrow> (nat \<Rightarrow> test_error + step_result) \<Rightarrow> nat list \<Rightarrow> (nat \<times> step_result) option \<Rightarrow>
    test_error + (nat \<times> step_result) option" where
  "sweep slo run [] best = Inr best"
| "sweep slo run (rate # rates) best =
     (case run rate of
        Inl e \<Rightarrow> Inl e
      | Inr r \<Rightarrow> if step_verdict r rate slo \<noteq> StepOk then Inr best else sweep slo run rates (Some (rate, r)))"

text \<open>\<open>main\<close>: the highest passing step of each endpoint; a step that cannot be measured ends the run.\<close>

definition api_load ::
    "rat \<Rightarrow> (string \<Rightarrow> nat \<Rightarrow> test_error + step_result) \<Rightarrow> string list \<Rightarrow> nat list \<Rightarrow>
     test_error + (string \<times> (nat \<times> step_result) option) list" where
  "api_load slo run endpoints rates =
     err_bind
       (err_fold (\<lambda>best endpoint.
            err_bind (sweep slo (run endpoint) rates (best endpoint)) (\<lambda>b. Inr (best(endpoint := b))))
          Map.empty endpoints)
       (\<lambda>best. Inr (map (\<lambda>endpoint. (endpoint, best endpoint)) endpoints))"

section \<open>Env files read back\<close>

definition plain_entry :: "string \<times> string \<Rightarrow> bool" where
  "plain_entry e =
     (case e of (k, v) \<Rightarrow>
        k \<noteq> [] \<and> hd k \<noteq> CHR ''#'' \<and> CHR ''='' \<notin> set k \<and> py_strip k = k \<and> py_strip v = v \<and>
        list_all (\<lambda>c. \<not> is_break c) (k @ v))"

definition env_text :: "(string \<times> string) list \<Rightarrow> string" where
  "env_text kvs = concat (map (\<lambda>(k, v). k @ CHR ''='' # v @ [CHR 0x0A]) kvs)"

lemma is_break_newline: "is_break (CHR 0x0A)" "is_break (CHR 0x0D)" "\<not> is_break (CHR ''='')"
  by (simp_all add: is_break_def)

lemma lines_from_line:
  "list_all (\<lambda>c. \<not> is_break c) line \<Longrightarrow> lines_from cur (line @ CHR 0x0A # s) = (rev cur @ line) # lines_from [] s"
  by (induction line arbitrary: cur) (auto simp: is_break_newline)

lemma strip_fixed_hd: "py_strip s = s \<Longrightarrow> s \<noteq> [] \<Longrightarrow> \<not> py_space (hd s) \<and> \<not> py_space (last s)"
proof -
  assume fixed: "py_strip s = s" and "s \<noteq> []"
  then obtain c t where s: "s = c # t" by (cases s) auto
  have len: "length (py_strip u) \<le> length (dropWhile py_space u)" for u
    by (simp add: py_strip_def length_dropWhile_le [of _ "rev (dropWhile py_space u)", simplified])
  have "\<not> py_space c"
    using len [of "c # t"] length_dropWhile_le [of py_space t] fixed [unfolded s] by auto
  moreover have "rev (dropWhile py_space (rev s)) = s"
    using fixed calculation by (simp add: py_strip_def s)
  then have "dropWhile py_space (rev s) = rev s" by (metis rev_rev_ident)
  then have "\<not> py_space (hd (rev s))" using \<open>s \<noteq> []\<close> by (metis hd_dropWhile rev_is_Nil_conv)
  ultimately show ?thesis by (simp add: s hd_rev [of "c # t", simplified])
qed

lemma strip_line:
  assumes "py_strip k = k" "k \<noteq> []" "py_strip v = v"
  shows "py_strip (k @ CHR ''='' # v) = k @ CHR ''='' # v"
proof -
  have e: "\<not> py_space (CHR ''='')" by (simp add: py_space_def is_space_def)
  have k: "\<not> py_space (hd k)" using strip_fixed_hd [OF assms(1,2)] by simp
  have v: "v \<noteq> [] \<Longrightarrow> \<not> py_space (last v)" using strip_fixed_hd [OF assms(3)] by simp
  have "dropWhile py_space (k @ CHR ''='' # v) = k @ CHR ''='' # v" using k assms(2) by (cases k) auto
  moreover have "dropWhile py_space (rev (k @ CHR ''='' # v)) = rev (k @ CHR ''='' # v)"
    using v e by (cases v rule: rev_cases) auto
  ultimately show ?thesis by (simp add: py_strip_def)
qed

lemma env_line_plain: "plain_entry (k, v) \<Longrightarrow> env_line (k @ CHR ''='' # v) = Some (k, v)"
proof -
  assume p: "plain_entry (k, v)"
  then have "takeWhile (\<lambda>c. c \<noteq> CHR ''='') (k @ CHR ''='' # v) = k"
    "dropWhile (\<lambda>c. c \<noteq> CHR ''='') (k @ CHR ''='' # v) = CHR ''='' # v"
    by (auto simp: plain_entry_def takeWhile_append dropWhile_append)
  with p strip_line [of k v] show ?thesis by (auto simp: env_line_def plain_entry_def Let_def)
qed

text \<open>What is written line by line is read back, the last value of a key winning.\<close>

lemma load_env_text:
  assumes "\<And>e. e \<in> set kvs \<Longrightarrow> plain_entry e"
  shows "load_env (env_text kvs) = map_of (rev kvs)"
proof -
  have "List.map_filter env_line (splitlines (env_text kvs)) = kvs"
    using assms
  proof (induction kvs)
    case (Cons e kvs)
    obtain k v where e: "e = (k, v)" by (rule prod.exhaust)
    from Cons.prems [of e] have p: "plain_entry (k, v)" by (simp add: e)
    then have "list_all (\<lambda>c. \<not> is_break c) (k @ CHR ''='' # v)" by (simp add: plain_entry_def is_break_newline)
    from lines_from_line [OF this, of "[]" "env_text kvs"]
    have "splitlines (env_text (e # kvs)) = (k @ CHR ''='' # v) # splitlines (env_text kvs)"
      by (simp add: splitlines_def env_text_def e)
    with Cons env_line_plain [OF p] show ?case by (simp add: e map_filter_simps)
  qed (simp add: env_text_def splitlines_def map_filter_simps)
  then show ?thesis by (simp add: load_env_def)
qed

section \<open>Durations read back\<close>

definition show_duration :: "(nat \<times> char) list \<Rightarrow> string" where
  "show_duration parts = concat (map (\<lambda>(n, u). show_nat n @ [u]) parts)"

lemma show_nat_is_digit: "list_all is_digit (show_nat n)"
  using show_nat_digits [of _ n] by (simp add: list_all_iff is_digit_def)

lemma duration_number_nat: "duration_number (show_nat n) = Some (of_nat n)"
proof -
  have parts: "takeWhile (\<lambda>c. c \<noteq> CHR ''.'') (show_nat n) = show_nat n" "dropWhile (\<lambda>c. c \<noteq> CHR ''.'') (show_nat n) = []"
    using show_nat_is_digit [of n] by (auto simp: list_all_iff is_digit_def takeWhile_eq_all_conv dropWhile_eq_Nil_conv)
  have "read_nat [] = 0" by (simp add: read_nat_def)
  then show ?thesis by (simp add: duration_number_def Let_def parts show_nat_is_digit read_show_nat)
qed

lemma seconds_from_digits: "list_all is_digit ds \<Longrightarrow> seconds_from secs number (ds @ s) = seconds_from secs (number @ ds) s"
  by (induction ds arbitrary: number) auto

lemma unit_seconds_not_digit: "unit_seconds u = Some k \<Longrightarrow> \<not> is_digit u \<and> u \<noteq> CHR ''.''"
  by (auto simp: unit_seconds_def is_digit_def split: if_splits)

lemma seconds_from_parts:
  assumes "\<And>n u. (n, u) \<in> set parts \<Longrightarrow> unit_seconds u \<noteq> None"
  shows "seconds_from secs [] (show_duration parts) =
    Inr (secs + (\<Sum>(n, u)\<leftarrow>parts. of_nat n * the (unit_seconds u)))"
  using assms
proof (induction parts arbitrary: secs)
  case (Cons p parts)
  obtain n u where p: "p = (n, u)" by (rule prod.exhaust)
  from Cons.prems [of n u] obtain k where k: "unit_seconds u = Some k" by (auto simp: p)
  have "seconds_from secs [] (show_duration (p # parts)) = seconds_from secs (show_nat n) (u # show_duration parts)"
    using seconds_from_digits [OF show_nat_is_digit, of secs "[]" n] by (simp add: show_duration_def p)
  also have "\<dots> = seconds_from (secs + of_nat n * k) [] (show_duration parts)"
    using unit_seconds_not_digit [OF k] by (simp add: duration_number_nat k)
  also have "\<dots> = Inr (secs + of_nat n * k + (\<Sum>(n, u)\<leftarrow>parts. of_nat n * the (unit_seconds u)))"
    by (rule Cons.IH) (use Cons.prems in auto)
  finally show ?case by (simp add: p k add.assoc)
qed (simp add: show_duration_def)

text \<open>A duration in hours, minutes and seconds, in any order and number, is read as their sum.\<close>

lemma seconds_parts:
  "(\<And>n u. (n, u) \<in> set parts \<Longrightarrow> unit_seconds u \<noteq> None) \<Longrightarrow>
     seconds (show_duration parts) = Inr (\<Sum>(n, u)\<leftarrow>parts. of_nat n * the (unit_seconds u))"
  using seconds_from_parts [of parts 0] by (simp add: seconds_def)

lemma seconds_examples:
  "seconds ''30s'' = Inr 30" "seconds ''1m30s'' = Inr 90" "seconds ''1.5m'' = Inr 90"
  "seconds ''30'' = Inr 0" "seconds ''500ms'' = Inl BadDuration"
  by code_simp+

section \<open>The offset between the clocks\<close>

text \<open>The clock of the database is \<open>offset\<close> ahead, and reads its time between the two host readings.\<close>

definition honest :: "rat \<Rightarrow> clock_sample \<Rightarrow> bool" where
  "honest offset s \<longleftrightarrow> cs_before s + offset \<le> cs_db_now s \<and> cs_db_now s \<le> cs_after s + offset"

lemma honest_reading: "honest offset s \<Longrightarrow> \<bar>snd (reading s) - offset\<bar> \<le> fst (reading s) / 2"
  unfolding honest_def reading_def fst_conv snd_conv by (intro abs_leI) (auto simp: field_simps)

lemma least_reading_mem: "least_reading best rs \<in> insert best (set rs)"
  by (induction best rs rule: least_reading.induct) (auto split: if_splits)

lemma least_reading_least: "r \<in> insert best (set rs) \<Longrightarrow> fst (least_reading best rs) \<le> fst r"
proof (induction best rs arbitrary: r rule: least_reading.induct)
  case (2 best x rs)
  let ?b = "if fst x < fst best \<or> fst x = fst best \<and> snd x < snd best then x else best"
  have "fst (least_reading ?b rs) \<le> fst ?b" "\<And>r. r \<in> set rs \<Longrightarrow> fst (least_reading ?b rs) \<le> fst r"
    using 2 by blast+
  moreover have "fst ?b \<le> fst x" "fst ?b \<le> fst best" by auto
  ultimately show ?case using 2(2) by fastforce
qed simp

lemma clock_offset_accurate:
  assumes "\<And>x. x \<in> set (s # ss) \<Longrightarrow> honest offset x" "x \<in> set (s # ss)"
  shows "\<bar>clock_offset_seconds s ss - offset\<bar> \<le> (cs_after x - cs_before x) / 2"
proof -
  let ?r = "least_reading (reading s) (map reading ss)"
  obtain y where y: "y \<in> set (s # ss)" "?r = reading y"
    using least_reading_mem [of "reading s" "map reading ss"] by auto
  have "reading x \<in> insert (reading s) (set (map reading ss))" using assms(2) by auto
  from least_reading_least [OF this] have "fst ?r \<le> cs_after x - cs_before x" by (simp add: reading_def)
  with honest_reading [OF assms(1) [OF y(1)]] y(2) show ?thesis
    by (simp add: clock_offset_seconds_def)
qed

section \<open>Percentiles\<close>

lemma percentile_index: "2 \<le> length data \<Longrightarrow> i < 100 \<Longrightarrow> Suc (i * (length data - 1) div 100) < length data"
proof -
  assume "2 \<le> length data" "i < 100"
  then have "i * (length data - 1) div 100 < length data - 1" by (simp add: div_less_iff_less_mult)
  then show ?thesis by linarith
qed

lemma percentile_shift:
  assumes "2 \<le> length data" "i < 100"
  shows "percentile (map (\<lambda>x. x + c) data) i = percentile data i + c"
proof -
  let ?m = "length data - 1"
  have "Suc (i * ?m div 100) < length data" by (rule percentile_index [OF assms])
  then have "i * ?m div 100 < length data" "Suc (i * ?m div 100) < length data" by simp_all
  moreover have "i * ?m mod 100 < 100" by simp
  then have "rat_of_nat (100 - i * ?m mod 100) + rat_of_nat (i * ?m mod 100) = 100"
    by (simp flip: of_nat_add)
  then have "c * rat_of_nat (100 - i * ?m mod 100) + c * rat_of_nat (i * ?m mod 100) = c * 100"
    by (simp flip: distrib_left)
  ultimately show ?thesis by (simp add: percentile_def Let_def field_simps)
qed

lemma insort_shift: "insort (x + c) (map (\<lambda>x. x + c) xs) = map (\<lambda>x. x + c) (insort x xs)" for c :: rat
  by (induction xs) auto

lemma sort_shift: "sort (map (\<lambda>x. x + c) xs) = map (\<lambda>x. x + c) (sort xs)" for c :: rat
  by (induction xs) (simp_all add: insort_shift)

text \<open>A percentile lies between the smallest and the largest value, and percentiles grow.\<close>

lemma percentile_bounds:
  assumes "sorted data" "2 \<le> length data" "i < 100"
  shows "hd data \<le> percentile data i" "percentile data i \<le> last data"
proof -
  let ?m = "length data - 1"
  let ?j = "i * ?m div 100"
  let ?d = "i * ?m mod 100"
  have j: "Suc ?j < length data" by (rule percentile_index [OF assms(2,3)])
  have d: "?d < 100" by simp
  then have w: "rat_of_nat (100 - ?d) + rat_of_nat ?d = 100" by (simp flip: of_nat_add)
  have ends: "hd data \<le> data ! n \<and> data ! n \<le> last data" if "n < length data" for n
  proof -
    from assms(2) have "data \<noteq> []" by auto
    with that sorted_nth_mono [OF assms(1), of 0 n] sorted_nth_mono [OF assms(1), of n "length data - 1"]
    show ?thesis by (simp add: hd_conv_nth last_conv_nth)
  qed
  let ?a = "data ! ?j" and ?b = "data ! Suc ?j"
  have "hd data * 100 = hd data * rat_of_nat (100 - ?d) + hd data * rat_of_nat ?d" by (simp only: w flip: distrib_left)
  also have "\<dots> \<le> ?a * rat_of_nat (100 - ?d) + ?b * rat_of_nat ?d"
    using ends [of ?j] ends [of "Suc ?j"] j by (intro add_mono mult_right_mono) auto
  finally show "hd data \<le> percentile data i" by (simp add: percentile_def Let_def)
  have "?a * rat_of_nat (100 - ?d) + ?b * rat_of_nat ?d \<le> last data * rat_of_nat (100 - ?d) + last data * rat_of_nat ?d"
    using ends [of ?j] ends [of "Suc ?j"] j by (intro add_mono mult_right_mono) auto
  also have "\<dots> = last data * 100" by (simp only: w flip: distrib_left)
  finally show "percentile data i \<le> last data" by (simp add: percentile_def Let_def)
qed

section \<open>Pacing\<close>

lemma paced_late: "0 < rate \<Longrightarrow> 0 \<le> pu_oversleep p \<Longrightarrow> started + of_nat sent / rate \<le> paced started rate sent p now"
  by (simp add: paced_def Let_def)

lemma paced_forward: "0 \<le> pu_oversleep p \<Longrightarrow> now \<le> paced started rate sent p now"
  by (simp add: paced_def Let_def)

definition forward :: "pace_step \<Rightarrow> bool" where
  "forward p \<longleftrightarrow> 0 \<le> pu_oversleep p \<and> 0 \<le> pu_drain p \<and> 0 \<le> pu_work p"

text \<open>No event is handed over before its time: the generator never publishes faster than asked.\<close>

lemma publish_from_paced:
  assumes "0 < rate" "\<And>p. p \<in> set ps \<Longrightarrow> forward p" "publish_from started rate sent ps now = (handed, end')"
  shows "length handed = length ps \<and> now \<le> end' \<and>
    (\<forall>k < length handed. started + of_nat (sent + k) / rate \<le> handed ! k \<and> handed ! k \<le> end')"
  using assms(2,3)
proof (induction ps arbitrary: sent now handed end')
  case (Cons p ps)
  let ?t = "paced started rate sent p now + of_nat (pu_full p) * pu_drain p"
  obtain handed1 end1 where rest: "publish_from started rate (Suc sent) ps (?t + pu_work p) = (handed1, end1)"
    by (rule prod.exhaust)
  with Cons.prems(2) have eq: "handed = ?t # handed1" "end' = end1" by (simp_all add: Let_def)
  have p: "forward p" using Cons.prems(1) by simp
  then have drain: "0 \<le> of_nat (pu_full p) * pu_drain p" by (simp add: forward_def)
  from Cons.IH [OF _ rest] Cons.prems(1) have IH: "length handed1 = length ps" "?t + pu_work p \<le> end1"
    "\<And>k. k < length handed1 \<Longrightarrow> started + of_nat (Suc sent + k) / rate \<le> handed1 ! k \<and> handed1 ! k \<le> end1" by auto
  have first: "started + of_nat sent / rate \<le> ?t" "now \<le> ?t"
    using paced_late [OF assms(1), of p started sent now] paced_forward [of p now started rate sent] p
      add_mono [OF _ drain, of _ "paced started rate sent p now"] by (auto simp: forward_def)
  show ?case
    unfolding eq
  proof (intro conjI allI impI)
    show "now \<le> end1" using first IH(2) p by (auto simp: forward_def)
    fix k assume k: "k < length (?t # handed1)"
    show "started + of_nat (sent + k) / rate \<le> (?t # handed1) ! k" "(?t # handed1) ! k \<le> end1"
      using first IH(2) IH(3) [of "k - 1"] p k by (cases k; auto simp: forward_def)+
  qed (simp add: IH(1))
qed simp

section \<open>Waiting ends\<close>

lemma wait_ends:
  assumes "polls \<noteq> []" "\<And>k. k < length polls \<Longrightarrow> start + of_nat k / 2 \<le> snd (polls ! k)"
    and "2 * (deadline - start) < of_nat (length polls) - 1"
  shows "wait_for_decisions expected deadline polls \<noteq> None"
proof -
  have late: "wait_for_decisions expected deadline polls \<noteq> None" if "\<exists>p \<in> set polls. deadline < snd p" for polls
    using that by (induction expected deadline polls rule: wait_for_decisions.induct) auto
  have "deadline < snd (polls ! (length polls - 1))"
    using assms(2) [of "length polls - 1"] assms(1,3) by (simp add: of_nat_diff field_simps)
  then show ?thesis using late [of polls] last_in_set [OF assms(1)] by (auto simp: last_conv_nth [OF assms(1)])
qed

section \<open>The sweep\<close>

definition step_passes :: "rat \<Rightarrow> (nat \<Rightarrow> test_error + step_result) \<Rightarrow> nat \<Rightarrow> step_result \<Rightarrow> bool" where
  "step_passes slo run rate r \<longleftrightarrow> run rate = Inr r \<and> step_verdict r rate slo = StepOk"

text \<open>
  The result is the last rate before the first one that fails; among rising rates it is the highest rate
  such that it and every smaller one passed.
\<close>

lemma sweep_Inr:
  assumes "sweep slo run rates best = Inr b"
  shows "\<exists>passed rest. rates = passed @ rest \<and> (\<forall>r \<in> set passed. \<exists>x. step_passes slo run r x) \<and>
    (rest = [] \<or> (\<forall>x. \<not> step_passes slo run (hd rest) x)) \<and>
    (if passed = [] then b = best else \<exists>x. step_passes slo run (last passed) x \<and> b = Some (last passed, x))"
  using assms
proof (induction rates arbitrary: best)
  case (Cons rate rates)
  then obtain r where r: "run rate = Inr r" by (auto split: sum.splits)
  show ?case
  proof (cases "step_verdict r rate slo = StepOk")
    case True
    with r Cons.prems have "sweep slo run rates (Some (rate, r)) = Inr b" by simp
    from Cons.IH [OF this] obtain passed rest where IH: "rates = passed @ rest"
      "\<forall>r \<in> set passed. \<exists>x. step_passes slo run r x" "rest = [] \<or> (\<forall>x. \<not> step_passes slo run (hd rest) x)"
      "if passed = [] then b = Some (rate, r) else \<exists>x. step_passes slo run (last passed) x \<and> b = Some (last passed, x)"
      by blast
    moreover have "step_passes slo run rate r" using r True by (simp add: step_passes_def)
    ultimately show ?thesis by (intro exI [of _ "rate # passed"] exI [of _ rest]) auto
  next
    case False
    with r Cons.prems show ?thesis by (intro exI [of _ "[]"] exI [of _ "rate # rates"]) (auto simp: step_passes_def)
  qed
qed simp

lemma sustainable_rate:
  assumes "sweep slo run rates None = Inr (Some (rate, r))" "sorted rates"
  shows "step_passes slo run rate r \<and> rate \<in> set rates \<and>
    (\<forall>q \<in> set rates. q < rate \<longrightarrow> (\<exists>x. step_passes slo run q x))"
proof -
  from sweep_Inr [OF assms(1)] obtain passed rest where s: "rates = passed @ rest" "passed \<noteq> []"
    "\<forall>r \<in> set passed. \<exists>x. step_passes slo run r x" "step_passes slo run (last passed) r" "rate = last passed"
    by (auto split: if_splits)
  have "rate \<le> q" if "q \<in> set rest" for q
    using that assms(2) last_in_set [OF s(2)] by (simp add: s(1,5) sorted_append)
  then have "q \<in> set passed" if "q \<in> set rates" "q < rate" for q
    using that by (fastforce simp: s(1))
  with s show ?thesis by auto
qed

lemma unsustainable:
  "sweep slo run rates None = Inr None \<Longrightarrow> rates \<noteq> [] \<Longrightarrow> \<not> step_passes slo run (hd rates) x"
  using sweep_Inr [of slo run rates None None] by (auto split: if_splits)

section \<open>What the pipeline test reports\<close>

text \<open>
  C40: the reported latencies can be trusted to within half the shortest round trip of the clock samples.
  If the database reads its clock between the two host readings of every sample, each reported
  percentile and the maximum differ by at most that from those of the true latencies (in milliseconds),
  and no percentile exceeds the maximum; the throughput does not depend on the offset at all.
\<close>

theorem measured_latency_accurate:
  assumes "\<And>x. x \<in> set (s # ss) \<Longrightarrow> honest offset x" "x \<in> set (s # ss)"
    and "report (clock_offset_seconds s ss) rows = Inr measured" "report offset rows = Inr true'"
  shows "\<bar>rp_p50 measured - rp_p50 true'\<bar> \<le> 500 * (cs_after x - cs_before x) \<and>
    \<bar>rp_p95 measured - rp_p95 true'\<bar> \<le> 500 * (cs_after x - cs_before x) \<and>
    \<bar>rp_p99 measured - rp_p99 true'\<bar> \<le> 500 * (cs_after x - cs_before x) \<and>
    \<bar>rp_max measured - rp_max true'\<bar> \<le> 500 * (cs_after x - cs_before x) \<and>
    rp_p50 measured \<le> rp_max measured \<and> rp_p95 measured \<le> rp_max measured \<and> rp_p99 measured \<le> rp_max measured \<and>
    rp_throughput measured = rp_throughput true'"
proof -
  define c where "c = (offset - clock_offset_seconds s ss) * 1000"
  have c: "\<bar>c\<bar> \<le> 500 * (cs_after x - cs_before x)"
  proof -
    have "\<bar>c\<bar> = 1000 * \<bar>clock_offset_seconds s ss - offset\<bar>" by (simp only: c_def abs_mult) (simp add: abs_minus_commute)
    with clock_offset_accurate [OF assms(1,2)] show ?thesis by simp
  qed
  let ?true = "sort (map (latency_ms offset) rows)"
  have "latency_ms (clock_offset_seconds s ss) = (\<lambda>r. latency_ms offset r + c)"
    by (rule ext) (simp add: latency_ms_def c_def algebra_simps)
  then have "map (latency_ms (clock_offset_seconds s ss)) rows = map (\<lambda>x. x + c) (map (latency_ms offset) rows)"
    by (simp add: comp_def)
  then have shifted: "sort (map (latency_ms (clock_offset_seconds s ss)) rows) = map (\<lambda>x. x + c) ?true"
    by (simp only: sort_shift)
  have len: "2 \<le> length ?true" using assms(4) by (auto simp: report_def Let_def split: if_splits)
  then have "0 < length ?true" by linarith
  then have "?true \<noteq> []" by (rule length_greater_0_conv [THEN iffD1])
  then have last: "last (map (\<lambda>x. x + c) ?true) = last ?true + c" by (simp add: last_map)
  have p: "percentile (map (\<lambda>x. x + c) ?true) i = percentile ?true i + c" "percentile ?true i \<le> last ?true" if "i < 100" for i
    using percentile_shift [OF len that] percentile_bounds(2) [OF _ len that] by simp_all
  have m: "rp_p50 measured = percentile ?true 50 + c" "rp_p95 measured = percentile ?true 95 + c"
    "rp_p99 measured = percentile ?true 99 + c" "rp_max measured = last ?true + c"
    using assms(3) p(1) last by (auto simp: report_def Let_def shifted split: if_splits)
  have t: "rp_p50 true' = percentile ?true 50" "rp_p95 true' = percentile ?true 95"
    "rp_p99 true' = percentile ?true 99" "rp_max true' = last ?true"
    using assms(4) by (auto simp: report_def Let_def split: if_splits)
  have "rp_throughput measured = rp_throughput true'"
    using assms(3,4) by (auto simp: report_def Let_def split: if_splits)
  then show ?thesis using c p(2) [of 50] p(2) [of 95] p(2) [of 99] by (simp add: m t)
qed

definition example_rows :: "load_row list" where
  "example_rows =
     [\<lparr>lr_processed_at = 1001 / 10, lr_source_timestamp = 100000, lr_verdict = ''APPROVED''\<rparr>,
      \<lparr>lr_processed_at = 1003 / 10, lr_source_timestamp = 100050, lr_verdict = ''REVIEW''\<rparr>,
      \<lparr>lr_processed_at = 1004 / 10, lr_source_timestamp = 100100, lr_verdict = ''APPROVED''\<rparr>]"

definition example_samples :: "clock_sample list" where
  "example_samples =
     [\<lparr>cs_before = 10, cs_db_now = 10 + 1 / 20 + 3 / 100, cs_after = 10 + 1 / 25\<rparr>,
      \<lparr>cs_before = 11, cs_db_now = 11 + 1 / 20 + 1 / 500, cs_after = 11 + 1 / 100\<rparr>]"

theorem measured_latency_accurate_witness:
  "\<exists>measured. report (clock_offset_seconds (hd example_samples) (tl example_samples)) example_rows = Inr measured \<and>
     \<bar>rp_p50 measured - 200\<bar> \<le> 5"
proof -
  have t: "report (1 / 20) example_rows =
      Inr \<lparr>rp_stored = 3, rp_verdicts = [(''APPROVED'', 2), (''REVIEW'', 1)], rp_throughput = 20 / 3, rp_p50 = 200,
           rp_p95 = 245, rp_p99 = 249, rp_max = 250\<rparr>"
    by code_simp
  obtain measured where m: "report (clock_offset_seconds (hd example_samples) (tl example_samples)) example_rows = Inr measured"
    by (cases "report (clock_offset_seconds (hd example_samples) (tl example_samples)) example_rows")
      (auto simp: report_def Let_def example_rows_def split: if_splits)
  have "honest (1 / 20) x" if "x \<in> set (hd example_samples # tl example_samples)" for x
    using that by (auto simp: example_samples_def honest_def)
  from measured_latency_accurate [OF this _ m t, of "example_samples ! 1"] m show ?thesis
    by (simp add: example_samples_def)
qed

end
