(* ===== verification/Lifecycle.thy ===== *)
theory Lifecycle
  imports Kafka_Config Http_Api
begin

text \<open>
  How the processes are put together and taken down: the cached settings, the clients that the worker, the
  API and the daily job open and close, the middleware and the routes of the API application, the
  options of the command-line clients, and the database address of the migrations. Which actions raise
  is an input; FastAPI, Starlette and configparser do what their documentation says.
\<close>

section \<open>The cached settings\<close>

text \<open>\<open>lru_cache\<close> keeps a returned value, not an exception.\<close>

definition get_settings :: "text_readers \<Rightarrow> process_env \<Rightarrow> settings option \<Rightarrow> settings option \<times> (settings_error + settings)" where
  "get_settings rd env cache =
     (case cache of
        Some s \<Rightarrow> (cache, Inr s)
      | None \<Rightarrow> (case from_env rd env of Inl e \<Rightarrow> (None, Inl e) | Inr s \<Rightarrow> (Some s, Inr s)))"

definition clear_settings_cache :: "settings option \<Rightarrow> settings option" where
  "clear_settings_cache cache = None"

text \<open>Settings that were read once hold for the life of the process, whatever happens to the environment.\<close>

lemma settings_read_once:
  "get_settings rd env cache = (cache', Inr s) \<Longrightarrow> get_settings rd env' cache' = (cache', Inr s)"
  by (auto simp: get_settings_def split: option.splits sum.splits)

section \<open>Clients\<close>

datatype client = Engine | RedisPool | DlqProducer | KafkaConsumer

datatype lifecycle_action =
    Configure | ServeMetrics | SetUpTracing | BuildTokenVerifier | Open client | PingDatabase | RunWorker | ServeRequests
  | Summarise | FlushProducer | Close client

text \<open>The actions that were completed, and the exception of the first one that raised.\<close>

fun run_actions :: "(lifecycle_action \<Rightarrow> py_exception option) \<Rightarrow> lifecycle_action list \<Rightarrow>
    lifecycle_action list \<times> py_exception option" where
  "run_actions raises [] = ([], None)"
| "run_actions raises (a # as) =
     (case raises a of
        Some x \<Rightarrow> ([], Some x)
      | None \<Rightarrow> (let (completed, x) = run_actions raises as in (a # completed, x)))"

text \<open>\<open>try: body finally: cleanup\<close>: an exception of the cleanup replaces the one of the body.\<close>

definition try_finally ::
    "(lifecycle_action \<Rightarrow> py_exception option) \<Rightarrow> lifecycle_action list \<Rightarrow> lifecycle_action list \<Rightarrow>
     lifecycle_action list \<times> py_exception option" where
  "try_finally raises body cleanup =
     (let (done', x) = run_actions raises body; (cleaned, y) = run_actions raises cleanup
      in (done' @ cleaned, case y of Some e \<Rightarrow> Some e | None \<Rightarrow> x))"

definition started_then ::
    "(lifecycle_action \<Rightarrow> py_exception option) \<Rightarrow> lifecycle_action list \<Rightarrow> lifecycle_action list \<Rightarrow> lifecycle_action list \<Rightarrow>
     lifecycle_action list \<times> py_exception option" where
  "started_then raises startup body cleanup =
     (case run_actions raises startup of
        (opened, Some x) \<Rightarrow> (opened, Some x)
      | (opened, None) \<Rightarrow> (let (rest, x) = try_finally raises body cleanup in (opened @ rest, x)))"

definition worker_main :: "(lifecycle_action \<Rightarrow> py_exception option) \<Rightarrow> lifecycle_action list \<times> py_exception option" where
  "worker_main raises =
     started_then raises
       [Configure, ServeMetrics, Open Engine, Open RedisPool, Open DlqProducer, Open KafkaConsumer]
       [PingDatabase, RunWorker] [FlushProducer, Close RedisPool, Close Engine]"

definition api_lifespan ::
    "bool \<Rightarrow> (lifecycle_action \<Rightarrow> py_exception option) \<Rightarrow> lifecycle_action list \<times> py_exception option" where
  "api_lifespan tracing raises =
     started_then raises
       ([Configure] @ (if tracing then [SetUpTracing] else []) @ [BuildTokenVerifier, Open Engine, Open RedisPool])
       [ServeRequests] [Close RedisPool, Close Engine]"

text \<open>\<open>database_session_factory\<close> around a body, and the body of the daily summary.\<close>

definition database_session_factory ::
    "lifecycle_action list \<Rightarrow> (lifecycle_action \<Rightarrow> py_exception option) \<Rightarrow> lifecycle_action list \<times> py_exception option" where
  "database_session_factory body raises = started_then raises [Open Engine] body [Close Engine]"

definition summary_session :: "(lifecycle_action \<Rightarrow> py_exception option) \<Rightarrow> lifecycle_action list \<times> py_exception option" where
  "summary_session raises = database_session_factory [PingDatabase, Summarise] raises"

text \<open>Whatever the body does, the cleanup runs to its own first exception.\<close>

lemma run_actions_all: "(\<And>a. a \<in> set as \<Longrightarrow> raises a = None) \<Longrightarrow> run_actions raises as = (as, None)"
  by (induction as) auto

lemma started_then_cleans:
  assumes "\<And>a. a \<in> set startup \<Longrightarrow> raises a = None" "\<And>a. a \<in> set cleanup \<Longrightarrow> raises a = None"
  obtains completed x where "run_actions raises body = (completed, x)"
    "started_then raises startup body cleanup = (startup @ completed @ cleanup, x)"
  using run_actions_all [of startup raises, OF assms(1)] run_actions_all [of cleanup raises, OF assms(2)] that
  by (cases "run_actions raises body") (auto simp: started_then_def try_finally_def)

text \<open>
  The worker flushes its producer and closes its clients in that order whether or not the database
  answers and however its run ends, and the exception of the run is what the process ends with.
\<close>

lemma worker_main_cleans:
  assumes "\<And>a. a \<notin> {PingDatabase, RunWorker} \<Longrightarrow> raises a = None"
  shows "\<exists>completed. worker_main raises =
    ([Configure, ServeMetrics, Open Engine, Open RedisPool, Open DlqProducer, Open KafkaConsumer] @ completed @
     [FlushProducer, Close RedisPool, Close Engine],
     case raises PingDatabase of None \<Rightarrow> raises RunWorker | Some x \<Rightarrow> Some x)"
  using assms by (simp add: worker_main_def started_then_def try_finally_def split: option.split)

text \<open>A flush that raises leaves Redis and the database open, and hides the exception of the run.\<close>

lemma worker_main_flush_raises:
  assumes "\<And>a. a \<notin> {RunWorker, FlushProducer} \<Longrightarrow> raises a = None" "raises FlushProducer = Some x"
  shows "snd (worker_main raises) = Some x \<and> Close Engine \<notin> set (fst (worker_main raises))"
  using assms by (simp add: worker_main_def started_then_def try_finally_def split: option.split)

lemma api_lifespan_cleans:
  assumes "\<And>a. a \<noteq> ServeRequests \<Longrightarrow> raises a = None"
  shows "\<exists>opened. api_lifespan tracing raises =
    (opened @ (if raises ServeRequests = None then [ServeRequests] else []) @ [Close RedisPool, Close Engine], raises ServeRequests)"
  using assms by (simp add: api_lifespan_def started_then_def try_finally_def split: option.split)

lemma summary_session_cleans:
  assumes "\<And>a. a \<notin> {PingDatabase, Summarise} \<Longrightarrow> raises a = None"
  shows "last (fst (summary_session raises)) = Close Engine"
  using assms
  by (simp add: summary_session_def database_session_factory_def started_then_def try_finally_def split: option.split)

text \<open>\<open>_run_on_loop\<close>: the callback fails before \<open>run\<close> set the loop, and gives up after the drain time and five seconds.\<close>

datatype callback_error = NotStarted | CallbackTimedOut

definition run_on_loop :: "bool \<Rightarrow> rat \<Rightarrow> rat \<Rightarrow> callback_error + unit" where
  "run_on_loop has_loop shutdown_timeout duration =
     (if \<not> has_loop then Inl NotStarted else if shutdown_timeout + 5 < duration then Inl CallbackTimedOut else Inr ())"

section \<open>The API application\<close>

datatype middleware = Cors "string list" | RequestContext | UnhandledError

text \<open>\<open>add_middleware\<close> wraps what was added before; the first of the list is the outermost.\<close>

definition add_middleware :: "middleware \<Rightarrow> middleware list \<Rightarrow> middleware list" where
  "add_middleware m app = m # app"

definition create_app :: "settings \<Rightarrow> middleware list" where
  "create_app s =
     (let app = add_middleware UnhandledError [];
          app = add_middleware RequestContext app;
          origins = (case s ''CORS_ALLOWED_ORIGINS'' of Some (TextsS xs) \<Rightarrow> xs | _ \<Rightarrow> [])
      in if origins \<noteq> [] then add_middleware (Cors origins) app else app)"

text \<open>Unhandled errors are turned into responses inside the request context.\<close>

lemma context_around_errors: "\<exists>outer. create_app s = outer @ [RequestContext, UnhandledError]"
  by (simp add: create_app_def add_middleware_def Let_def)

section \<open>Routes\<close>

datatype segment = Lit string | Param string

record api_route =
  ro_method :: string
  ro_path :: "segment list"

definition V1 :: "segment list" where "V1 = [Lit ''api'', Lit ''v1'']"

definition RULE_SET :: "segment list" where "RULE_SET = V1 @ [Lit ''rule-sets'', Param ''key'']"

definition v1_routes :: "api_route list" where
  "v1_routes =
     [\<lparr>ro_method = ''GET'', ro_path = V1 @ [Lit ''transactions'', Param ''transaction_id'']\<rparr>,
      \<lparr>ro_method = ''GET'', ro_path = V1 @ [Lit ''transactions'']\<rparr>,
      \<lparr>ro_method = ''GET'', ro_path = RULE_SET @ [Lit ''versions'']\<rparr>,
      \<lparr>ro_method = ''GET'', ro_path = RULE_SET @ [Lit ''active'']\<rparr>,
      \<lparr>ro_method = ''GET'', ro_path = RULE_SET @ [Lit ''versions'', Param ''version'']\<rparr>,
      \<lparr>ro_method = ''POST'', ro_path = RULE_SET @ [Lit ''versions'']\<rparr>,
      \<lparr>ro_method = ''POST'', ro_path = RULE_SET @ [Lit ''evaluate'']\<rparr>]"

text \<open>\<open>FastAPI()\<close> itself serves the schema and its viewers.\<close>

definition docs_routes :: "api_route list" where
  "docs_routes =
     [\<lparr>ro_method = ''GET'', ro_path = [Lit ''openapi.json'']\<rparr>, \<lparr>ro_method = ''GET'', ro_path = [Lit ''docs'']\<rparr>,
      \<lparr>ro_method = ''GET'', ro_path = [Lit ''docs'', Lit ''oauth2-redirect'']\<rparr>,
      \<lparr>ro_method = ''GET'', ro_path = [Lit ''redoc'']\<rparr>]"

definition open_routes :: "api_route list" where
  "open_routes = docs_routes @
     [\<lparr>ro_method = ''GET'', ro_path = [Lit ''metrics'']\<rparr>, \<lparr>ro_method = ''GET'', ro_path = [Lit ''live'']\<rparr>,
      \<lparr>ro_method = ''GET'', ro_path = [Lit ''ready'']\<rparr>]"

definition app_routes :: "api_route list" where
  "app_routes = open_routes @ v1_routes"

text \<open>A parameter matches one segment that is not empty. The result is the values of the parameters.\<close>

fun match_path :: "segment list \<Rightarrow> string list \<Rightarrow> (string \<times> string) list option" where
  "match_path [] [] = Some []"
| "match_path (Lit s # ss) (p # ps) = (if p = s then match_path ss ps else None)"
| "match_path (Param n # ss) (p # ps) = (if p = [] then None else map_option (\<lambda>vs. (n, p) # vs) (match_path ss ps))"
| "match_path _ _ = None"

datatype resolution = Matched api_route "(string \<times> string) list" | MethodNotAllowed | NoRoute

text \<open>
  The first route whose path and method match; a path that matches with another method only gives 405. The
  redirect of a path with a slash too many is left out.
\<close>

fun resolve :: "api_route list \<Rightarrow> string \<Rightarrow> string list \<Rightarrow> resolution" where
  "resolve [] method path = NoRoute"
| "resolve (r # rs) method path =
     (case match_path (ro_path r) path of
        None \<Rightarrow> resolve rs method path
      | Some vs \<Rightarrow>
          if ro_method r = method then Matched r vs
          else (case resolve rs method path of NoRoute \<Rightarrow> MethodNotAllowed | x \<Rightarrow> x))"

text \<open>Starlette's exceptions for a path without a route go through the handler for HTTP errors.\<close>

definition routing_error :: "string option \<Rightarrow> resolution \<Rightarrow> response option" where
  "routing_error correlation x =
     (case x of
        Matched _ _ \<Rightarrow> None
      | MethodNotAllowed \<Rightarrow> Some (error_response correlation 405 ''Method Not Allowed'' [] [] None)
      | NoRoute \<Rightarrow> Some (error_response correlation 404 ''Not Found'' [] [] None))"

lemma resolve_Matched: "resolve rs method path = Matched r vs \<Longrightarrow>
    r \<in> set rs \<and> ro_method r = method \<and> match_path (ro_path r) path = Some vs"
  by (induction rs) (auto split: option.splits if_splits resolution.splits)

lemma match_path_prefix: "match_path (map Lit pre @ ss) path = Some vs \<Longrightarrow> \<exists>rest. path = pre @ rest"
  by (induction pre arbitrary: path) (case_tac path; auto split: if_splits)+

lemma match_literals: "match_path (map Lit ss) path = Some vs \<Longrightarrow> path = ss"
  by (induction ss arbitrary: path vs) (case_tac path; auto split: if_splits)+

definition open_paths :: "string list list" where
  "open_paths = [[''openapi.json''], [''docs''], [''docs'', ''oauth2-redirect''], [''redoc''], [''metrics''], [''live''], [''ready'']]"

lemma open_routes_paths: "map ro_path open_routes = map (map Lit) open_paths"
  by (simp add: open_routes_def docs_routes_def open_paths_def)

text \<open>What is answered without a token is not below \<open>/api/v1\<close>, and nothing there is answered without one.\<close>

lemma open_without_token:
  assumes "resolve app_routes method path = Matched r vs"
  shows "r \<in> set open_routes \<longleftrightarrow> path \<in> set open_paths"
    and "r \<in> set v1_routes \<Longrightarrow> \<exists>rest. path = ''api'' # ''v1'' # rest"
proof -
  note m = resolve_Matched [OF assms]
  show v1: "\<exists>rest. path = ''api'' # ''v1'' # rest" if "r \<in> set v1_routes"
  proof -
    from that obtain ss where "ro_path r = map Lit [''api'', ''v1''] @ ss" by (auto simp: v1_routes_def RULE_SET_def V1_def)
    with m match_path_prefix [of "[''api'', ''v1'']" ss path vs] show ?thesis by simp
  qed
  have "path \<in> set open_paths" if "r \<in> set open_routes"
  proof -
    from that have "ro_path r \<in> set (map (map Lit) open_paths)" unfolding open_routes_paths [symmetric] by simp
    then obtain ss where "ss \<in> set open_paths" "ro_path r = map Lit ss" by auto
    with m match_literals [of ss path vs] show ?thesis by simp
  qed
  moreover have "path \<notin> set open_paths" if "r \<notin> set open_routes"
  proof -
    from that m have "r \<in> set v1_routes" by (simp add: app_routes_def)
    from v1 [OF this] show ?thesis by (auto simp: open_paths_def)
  qed
  ultimately show "r \<in> set open_routes \<longleftrightarrow> path \<in> set open_paths" by blast
qed

section \<open>Options of the command-line clients\<close>

definition replay_consumer_config :: "string \<Rightarrow> string \<Rightarrow> config" where
  "replay_consumer_config bootstrap group' =
     [(''bootstrap.servers'', Text bootstrap), (''group.id'', Text group'), (''enable.auto.commit'', Flag False),
      (''auto.offset.reset'', Text ''earliest'')]"

definition replay_producer_config :: "string \<Rightarrow> config" where
  "replay_producer_config bootstrap =
     [(''bootstrap.servers'', Text bootstrap), (''acks'', Text ''all''), (''enable.idempotence'', Flag True)]"

definition publish_producer_config :: "string \<Rightarrow> config" where
  "publish_producer_config bootstrap = replay_producer_config bootstrap @ [(''broker.address.family'', Text ''v4'')]"

definition load_producer_config :: "string \<Rightarrow> config" where
  "load_producer_config bootstrap =
     [(''bootstrap.servers'', Text bootstrap), (''broker.address.family'', Text ''v4''), (''acks'', Text ''all''),
      (''enable.idempotence'', Flag True), (''linger.ms'', Number 5)]"

text \<open>Every producer waits for all replicas and is idempotent; the replay commits offsets itself only.\<close>

lemma client_options:
  "c \<in> {replay_producer_config b, publish_producer_config b, load_producer_config b} \<Longrightarrow>
     map_of c ''acks'' = Some (Text ''all'') \<and> map_of c ''enable.idempotence'' = Some (Flag True)"
  "map_of (replay_consumer_config b g) ''enable.auto.commit'' = Some (Flag False)"
  by (auto simp: replay_producer_config_def publish_producer_config_def load_producer_config_def replay_consumer_config_def)

section \<open>The database address of the migrations\<close>

text \<open>\<open>.replace("%", "%%")\<close>, and configparser's interpolation of a value that names no other option.\<close>

definition escape_percent :: "string \<Rightarrow> string" where
  "escape_percent s = concat (map (\<lambda>c. if c = CHR ''%'' then [c, c] else [c]) s)"

fun interpolate :: "string \<Rightarrow> string option" where
  "interpolate [] = Some []"
| "interpolate [c] = (if c = CHR ''%'' then None else Some [c])"
| "interpolate (c # d # s) =
     (if c \<noteq> CHR ''%'' then map_option (\<lambda>t. c # t) (interpolate (d # s))
      else if d = CHR ''%'' then map_option (\<lambda>t. d # t) (interpolate s) else None)"

datatype migration_error = NoDatabaseUrl | UnreadableDatabaseUrl settings_error

text \<open>The option \<open>sqlalchemy.url\<close>: the one of the configuration file, or the address of the environment.\<close>

definition migration_url :: "process_env \<Rightarrow> string option \<Rightarrow> migration_error + string" where
  "migration_url env configured =
     (case given configured of
        Some url \<Rightarrow> Inr url
      | None \<Rightarrow>
          (case read_env env ''DATABASE_URL'' of
             Inl e \<Rightarrow> Inl (UnreadableDatabaseUrl e)
           | Inr None \<Rightarrow> Inl NoDatabaseUrl
           | Inr (Some url) \<Rightarrow> if url = [] then Inl NoDatabaseUrl else Inr (escape_percent (async_url url))))"

lemma interpolate_plain: "c \<noteq> CHR ''%'' \<Longrightarrow> interpolate (c # s) = map_option (\<lambda>t. c # t) (interpolate s)"
  by (cases s) simp_all

lemma interpolate_escaped: "interpolate (escape_percent s) = Some s"
  by (induction s) (simp_all add: escape_percent_def interpolate_plain)

text \<open>A password with percent signs survives the configuration: migrations use the address of the other processes.\<close>

lemma migration_url_exact:
  assumes "read_env env ''DATABASE_URL'' = Inr (Some url)" "url \<noteq> []"
  shows "\<exists>option'. migration_url env None = Inr option' \<and> interpolate option' = Some (async_url url)"
  using assms by (simp add: migration_url_def given_def interpolate_escaped)

end
