(* ===== verification/Publishing.thy ===== *)
theory Publishing
  imports Event_Facts
begin

text \<open>
  The producer side of the event contract: the events that \<open>scripts/publish_event.py\<close> and the load
  generator \<open>scripts/loadtest/pipeline_load.py\<close> publish, and that the worker accepts them. New ids, the
  clock, \<open>json.dumps\<close> and \<open>isoformat\<close> are inputs.
\<close>

section \<open>publish_event\<close>

record publish_args =
  pv_transaction_id :: "string option"
  pv_amount :: string
  pv_currency :: string
  pv_category :: string
  pv_occurred_at :: "int option"
  pv_count :: nat
  pv_raw :: "string option"

text \<open>An empty id on the command line counts as none.\<close>

definition given_or :: "string option \<Rightarrow> string \<Rightarrow> string" where
  "given_or v other = (case v of None \<Rightarrow> other | Some s \<Rightarrow> if s = [] then other else s)"

definition build_event :: "(int \<Rightarrow> string) \<Rightarrow> publish_args \<Rightarrow> int \<Rightarrow> nat \<Rightarrow> string \<Rightarrow> string \<Rightarrow> string \<Rightarrow> json" where
  "build_event isoformat a now index user_id new_id new_correlation =
     (let occurred_at = (case pv_occurred_at a of None \<Rightarrow> now | Some t \<Rightarrow> t) + int index * 1000000
      in JDict
           [(''schema_version'', JInt 1), (''event_type'', JStr ''TransactionCreated''),
            (''transaction_id'', JStr (given_or (pv_transaction_id a) new_id)), (''user_id'', JStr user_id),
            (''amount'', JStr (pv_amount a)), (''currency'', JStr (pv_currency a)), (''category'', JStr (pv_category a)),
            (''occurred_at'', JStr (isoformat occurred_at)), (''correlation_id'', JStr (''cli-'' @ new_correlation))])"

text \<open>
  \<open>main\<close>: the keys and values produced, and the exit code; \<open>unacknowledged\<close> is what \<open>flush\<close> returns. The
  functions give the clock and the new ids of each event.
\<close>

definition published ::
    "(json \<Rightarrow> string) \<Rightarrow> (int \<Rightarrow> string) \<Rightarrow> publish_args \<Rightarrow> string \<Rightarrow> (nat \<Rightarrow> int \<times> string \<times> string) \<Rightarrow> (string \<times> string) list" where
  "published dumps isoformat a user_id fresh_values =
     (case pv_raw a of
        Some raw \<Rightarrow> [(''raw'', raw)]
      | None \<Rightarrow> map (\<lambda>i. case fresh_values i of (now, new_id, new_correlation) \<Rightarrow>
                  (user_id, dumps (build_event isoformat a now i user_id new_id new_correlation))) [0..<pv_count a])"

definition publish_exit :: "nat \<Rightarrow> int" where
  "publish_exit unacknowledged = (if unacknowledged \<noteq> 0 then 1 else 0)"

section \<open>The load generator\<close>

definition build_load_event :: "(int \<Rightarrow> string) \<Rightarrow> string \<Rightarrow> string \<Rightarrow> string \<Rightarrow> string \<Rightarrow> string \<Rightarrow> int \<Rightarrow> json" where
  "build_load_event isoformat user_id correlation_id new_id amount category now =
     JDict
       [(''schema_version'', JInt 1), (''event_type'', JStr ''TransactionCreated''), (''transaction_id'', JStr new_id),
        (''user_id'', JStr user_id), (''amount'', JStr amount), (''currency'', JStr ''ZAR''), (''category'', JStr category),
        (''occurred_at'', JStr (isoformat now)), (''correlation_id'', JStr correlation_id)]"

definition CATEGORIES :: "string list" where
  "CATEGORIES = [''GROCERIES'', ''FUEL'', ''RESTAURANTS'', ''TRAVEL'', ''ELECTRONICS'', ''GAMBLING'', ''CRYPTO'']"

section \<open>The worker accepts them\<close>

text \<open>What an event needs: its texts convert, and codes and ids are in the form the contract asks for.\<close>

definition plain_text :: "(char \<Rightarrow> bool) \<Rightarrow> nat \<Rightarrow> nat \<Rightarrow> string \<Rightarrow> bool" where
  "plain_text allowed lo hi s \<longleftrightarrow> strip_whitespace s = s \<and> lo \<le> length s \<and> length s \<le> hi \<and> list_all allowed s"

lemma accepted_event:
  assumes "json_loads px bytes = Some (Some (JDict
       [(''schema_version'', JInt 1), (''event_type'', JStr ''TransactionCreated''), (''transaction_id'', JStr tid),
        (''user_id'', JStr uid), (''amount'', JStr amount), (''currency'', JStr currency), (''category'', JStr category),
        (''occurred_at'', JStr occurred), (''correlation_id'', JStr correlation)]))"
    and "bytes \<noteq> []" "length bytes \<le> MAX_EVENT_BYTES" "is_literal_1 px (JInt 1)"
    and "to_uuid px (JStr tid) = Some t" "to_uuid px (JStr uid) = Some u"
    and "to_finite_decimal px (JStr amount) = Some d" "decimal_ok 18 2 d" "0 < coeff d"
    and "plain_text is_letter 3 3 currency" "plain_text category_char 1 64 category"
    and "to_aware_datetime px (JStr occurred) = Some instant" "datetime_ok instant"
    and "1 \<le> length correlation" "length correlation \<le> 128" "list_all correlation_char correlation"
  shows "parse_transaction_event px (Some bytes) = Inr
    \<lparr>ev_transaction_id = t, ev_user_id = u, ev_amount = d, ev_currency = to_upper currency,
     ev_category = to_upper category, ev_occurred_at = instant, ev_channel = None, ev_country = None,
     ev_correlation_id = Some correlation, ev_enrichment = None\<rparr>"
proof -
  let ?kvs = "[(''schema_version'', JInt 1), (''event_type'', JStr ''TransactionCreated''), (''transaction_id'', JStr tid),
    (''user_id'', JStr uid), (''amount'', JStr amount), (''currency'', JStr currency), (''category'', JStr category),
    (''occurred_at'', JStr occurred), (''correlation_id'', JStr correlation)]"
  have "Money px (JStr amount) = Inr d" "CurrencyCode (JStr currency) = Inr (to_upper currency)"
    "Category (JStr category) = Inr (to_upper category)" "CorrelationId (JStr correlation) = Inr correlation"
    using assms(7-11,14-16)
    by (auto simp: Money_def decimal_ok_def CurrencyCode_def Category_def CorrelationId_def constrained_Inr
        exact_letters_Inr plain_text_def)
  then have "check_event px ?kvs = Inr
      \<lparr>ev_transaction_id = t, ev_user_id = u, ev_amount = d, ev_currency = to_upper currency,
       ev_category = to_upper category, ev_occurred_at = instant, ev_channel = None, ev_country = None,
       ev_correlation_id = Some correlation, ev_enrichment = None\<rparr>"
    using assms(4-6,12)
    by (simp add: check_event_def optional_field_def model_field_def check_literal_def converted_def located_def err_guard_def)
  then show ?thesis
    using assms(1-3,12,13) by (simp add: parse_transaction_event_def timezone_overflows_def not_less)
qed

text \<open>Every event of the command-line tool: ids and amount as the tool's defaults have them, or given in that form.\<close>

lemma published_event_accepted:
  assumes "json_loads px (dumps j) = Some (Some j)" "dumps j \<noteq> []" "length (dumps j) \<le> MAX_EVENT_BYTES"
    and "j = build_event isoformat a now index user_id new_id new_correlation" "is_literal_1 px (JInt 1)"
    and "to_uuid px (JStr (given_or (pv_transaction_id a) new_id)) = Some t" "to_uuid px (JStr user_id) = Some u"
    and "to_finite_decimal px (JStr (pv_amount a)) = Some d" "decimal_ok 18 2 d" "0 < coeff d"
    and "plain_text is_letter 3 3 (pv_currency a)" "plain_text category_char 1 64 (pv_category a)"
    and "\<And>t. datetime_ok t \<Longrightarrow> to_aware_datetime px (JStr (isoformat t)) = Some t"
    and "datetime_ok ((case pv_occurred_at a of None \<Rightarrow> now | Some t \<Rightarrow> t) + int index * 1000000)"
    and "length new_correlation = 36" "list_all correlation_char new_correlation"
  shows "\<exists>ev. parse_transaction_event px (Some (dumps j)) = Inr ev \<and> ev_transaction_id ev = t \<and> ev_user_id ev = u \<and>
    ev_amount ev = d \<and> ev_correlation_id ev = Some (''cli-'' @ new_correlation) \<and>
    ev_occurred_at ev = (case pv_occurred_at a of None \<Rightarrow> now | Some t \<Rightarrow> t) + int index * 1000000"
proof -
  have correlation: "list_all correlation_char (''cli-'' @ new_correlation)"
    using assms(16) by (simp add: correlation_char_def is_letter_def is_lower_def)
  have event: "j = JDict
       [(''schema_version'', JInt 1), (''event_type'', JStr ''TransactionCreated''),
        (''transaction_id'', JStr (given_or (pv_transaction_id a) new_id)), (''user_id'', JStr user_id),
        (''amount'', JStr (pv_amount a)), (''currency'', JStr (pv_currency a)), (''category'', JStr (pv_category a)),
        (''occurred_at'', JStr (isoformat ((case pv_occurred_at a of None \<Rightarrow> now | Some t \<Rightarrow> t) + int index * 1000000))),
        (''correlation_id'', JStr (''cli-'' @ new_correlation))]"
    by (simp add: assms(4) build_event_def Let_def)
  have "json_loads px (dumps j) = Some (Some j)" by (rule assms(1))
  from accepted_event [OF this [unfolded event [THEN arg_cong [of _ _ "\<lambda>j. Some (Some j)"]]] assms(2,3,5-12) assms(13) [OF assms(14)] assms(14) _ _ correlation]
    assms(15) show ?thesis by simp
qed

end
