(* ===== verification/Smoke.thy ===== *)
theory Smoke
  imports Processing_Examples Publishing
begin

text \<open>
  The rule scenarios of \<open>scripts/smoke_test.py\<close>, run on the model: the events that \<open>Smoke.run\<close> publishes,
  scored and recorded one after the other with the seeded rules, get the decisions that the script
  expects of a running system. Ids are small numbers, times microseconds after the start of the run.
\<close>

definition smoke_event :: "uuid \<Rightarrow> uuid \<Rightarrow> int \<Rightarrow> string \<Rightarrow> string \<Rightarrow> int \<Rightarrow> transaction_created" where
  "smoke_event user tid amount category currency seconds =
     \<lparr>ev_transaction_id = tid, ev_user_id = user, ev_amount = Dec amount (- 2), ev_currency = currency,
      ev_category = to_upper category, ev_occurred_at = seconds * 1000000, ev_channel = None, ev_country = None,
      ev_correlation_id = None, ev_enrichment = None\<rparr>"

text \<open>Rules, verdict and score of each event in turn; \<open>None\<close> for an event that is not scored or not recorded.\<close>

fun decide_all :: "rule_set \<Rightarrow> transaction_created list \<Rightarrow> tx_tables \<Rightarrow> (string list \<times> string \<times> int) option list" where
  "decide_all rs [] db = []"
| "decide_all rs (ev # evs) db =
     (case score_transaction None db rs (request_of ev) of
        Inl _ \<Rightarrow> None # decide_all rs evs db
      | Inr sc \<Rightarrow>
          (let p = \<lparr>mp_topic = ''transactions'', mp_partition = 0, mp_offset = int (ev_transaction_id ev), mp_timestamp_ms = None\<rparr>;
               (db', r) = record_decision 0 db (decision_of ev rs (sc_assessment sc)) p
           in (case r of
                 Inl _ \<Rightarrow> None
               | Inr res \<Rightarrow> Some (td_triggered_rules (rr_decision res), td_verdict (rr_decision res), td_risk_score (rr_decision res)))
              # decide_all rs evs db'))"

text \<open>\<open>enriched\<close>, and \<open>cases\<close>: one user each.\<close>

definition enriched :: "transaction_created \<Rightarrow> transaction_created" where
  "enriched ev = ev\<lparr>ev_channel := Some ''ONLINE'', ev_country := Some ''ZA'',
     ev_enrichment := Some \<lparr>en_distance_from_last_tx_km = Some (Dec 52 (- 1)), en_minutes_since_last_tx = None,
       en_user_historical_avg_spend = None, en_is_new_merchant_for_user = Some True, en_is_travel_itinerary_active = None\<rparr>\<rparr>"

definition smoke_cases :: "transaction_created list" where
  "smoke_cases =
     [enriched (smoke_event 1 1 12550 ''GROCERIES'' ''ZAR'' 0),
      smoke_event 2 2 1000000 ''GROCERIES'' ''ZAR'' 0,
      smoke_event 3 3 500001 ''crypto'' ''ZAR'' 0,
      smoke_event 4 4 500000 ''GAMBLING'' ''ZAR'' 0,
      enriched (smoke_event 5 5 1450000 ''CRYPTO'' ''ZAR'' 0),
      smoke_event 6 6 2000 ''GROCERIES'' ''USD'' 0]"

text \<open>Six payments of one user within the window, and two large ones of another.\<close>

definition smoke_velocity :: "transaction_created list" where
  "smoke_velocity = map (\<lambda>i. smoke_event 7 (10 + i) 1000 ''GROCERIES'' ''ZAR'' (int i)) [0..<6]"

definition smoke_amounts :: "transaction_created list" where
  "smoke_amounts = [smoke_event 8 20 3000000 ''GROCERIES'' ''ZAR'' 0, smoke_event 8 21 2500000 ''GROCERIES'' ''ZAR'' 5]"

lemma smoke_cases_decided:
  "decide_all cached_rule_set smoke_cases no_rows =
     [Some ([], ''APPROVED'', 0), Some ([''HIGH_VALUE_THRESHOLD''], ''REVIEW'', 40),
      Some ([''RISKY_CATEGORY_LIMIT''], ''REVIEW'', 50), Some ([], ''APPROVED'', 0),
      Some ([''HIGH_VALUE_THRESHOLD'', ''RISKY_CATEGORY_LIMIT''], ''REJECTED'', 90),
      Some ([''FOREIGN_CURRENCY''], ''REVIEW'', 30)]"
  by code_simp

lemma smoke_velocity_decided:
  "decide_all cached_rule_set smoke_velocity no_rows =
     replicate 5 (Some ([], ''APPROVED'', 0)) @ [Some ([''VELOCITY_COUNT_EXCEEDED''], ''REVIEW'', 40)]"
  by code_simp

lemma smoke_amounts_decided:
  "decide_all cached_rule_set smoke_amounts no_rows =
     [Some ([''HIGH_VALUE_THRESHOLD''], ''REVIEW'', 40),
      Some ([''HIGH_VALUE_THRESHOLD'', ''VELOCITY_AMOUNT''], ''REJECTED'', 90)]"
  by code_simp

end
