(* ===== verification/Rule_Updates.thy ===== *)
theory Rule_Updates
  imports Http_Api_Facts Stored_Documents
begin

text \<open>
  What publishing a version through the API means for everyone else: the routes of \<open>app/api.py\<close> composed
  over the store of versions.
\<close>

lemma create_version_Inr:
  assumes "create_version env c p key body s = (s', Inr (st, hs, a))"
  obtains k b d h t' rs where
    "checked_input (both (check_key key) (check_body (check_create_request (ae_ext env)) body)) = Inr (k, b)"
    "create_rule_set_version (ae_ext env) (ac_now c) (st_versions s) key d h (cr_description b) (pr_subject p)
       (cr_expected_current_version b) = (t', Inr rs)"
    "s' = cache_active env c rs (s\<lparr>st_versions := t'\<rparr>)" "st = 201" "a = VersionAnswer (from_rule_set rs)"
proof -
  from assms obtain k b d h s1 rs where one:
    "checked_input (both (check_key key) (check_body (check_create_request (ae_ext env)) body)) = Inr (k, b)"
    "publish_version env c key b d h p s = (s1, Inr rs)" "s' = cache_active env c rs s1"
    "st = 201" "a = VersionAnswer (from_rule_set rs)"
    by (fastforce simp: create_version_def split: sum.splits option.splits prod.splits)
  obtain t' r' where t': "create_rule_set_version (ae_ext env) (ac_now c) (st_versions s) key d h (cr_description b)
      (pr_subject p) (cr_expected_current_version b) = (t', r')" by (rule prod.exhaust)
  with one(2) have "s1 = s\<lparr>st_versions := t'\<rparr>" "r' = Inr rs"
    by (auto simp: publish_version_def stored_def split: option.splits sum.splits)
  with one t' that show ?thesis by simp
qed

text \<open>A publication of a definition that is in order but was written against another version.\<close>

definition stale_request :: "'k api_env \<Rightarrow> api_conditions \<Rightarrow> string \<Rightarrow> request_body \<Rightarrow> int \<Rightarrow> bool" where
  "stale_request env c key body current \<longleftrightarrow>
     ac_commit_outage c = None \<and>
     (\<exists>k b d n. checked_input (both (check_key key) (check_body (check_create_request (ae_ext env)) body)) = Inr (k, b) \<and>
        parse_rule_set_definition (coerce_int (ae_ext env)) (cr_definition b) = Inr d \<and>
        content_hash (sha256 (ae_ext env)) (repr_float (ae_ext env)) d \<noteq> None \<and>
        cr_expected_current_version b = Some n \<and> n \<noteq> current)"

lemma stale_refused:
  assumes "stale_request env c key body (current_version (st_versions s) key)"
  shows "\<exists>r. create_version env c p key body s = (s, r) \<and> re_status (respond text' correlation r) = 409"
proof -
  from assms obtain k b d h n where
    "checked_input (both (check_key key) (check_body (check_create_request (ae_ext env)) body)) = Inr (k, b)"
    "parse_rule_set_definition (coerce_int (ae_ext env)) (cr_definition b) = Inr d"
    "content_hash (sha256 (ae_ext env)) (repr_float (ae_ext env)) d = Some h"
    "cr_expected_current_version b = Some n" "n \<noteq> current_version (st_versions s) key" "ac_commit_outage c = None"
    by (auto simp: stale_request_def)
  then show ?thesis
    by (auto simp: create_version_def publish_version_def create_rule_set_version_def check_expected_def stored_def
        store_exception_def respond_def respond_error_def exception_response_def own_error_def HANDLED_def
        error_response_def own_mro Let_def)
qed

lemma cache_active_versions [simp]: "st_versions (cache_active env c rs s) = st_versions s"
  by (simp add: cache_active_def Let_def)

lemma created_current:
  assumes "create_rule_set_version ext now t key d h description by expected = (t', Inr rs)"
  shows "current_version t' key = rs_version rs"
proof -
  let ?r = "new_record ext now key d h description by (current_version t key)"
  from create_Inr [OF assms] have ins: "insert_version t ?r = Inr t'" and load: "rule_set_from_record ext ?r = Inr rs" by blast+
  have "rs_version rs = current_version t key + 1" using load by (auto simp: rule_set_from_record_Inr new_record_def)
  then show ?thesis
    using insert_version_Inr [OF ins] by (simp add: current_version_snoc) (simp add: new_record_def)
qed

text \<open>
  C12: a version that was published through the API is in force at once, for every caller. It has the
  next number; from then on the active version is the one that was returned, every dry run is scored
  with it, and whoever still publishes against another version gets a 409 and changes nothing.
\<close>

theorem rule_update_effective:
  assumes "contiguous (st_versions s)" "create_version env c p key body s = (s', Inr (st, hs, a))"
  shows "\<exists>v. st = 201 \<and> a = VersionAnswer v \<and> vr_key v = key \<and> vr_version v = current_version (st_versions s) key + 1 \<and>
    current_version (st_versions s') key = vr_version v \<and>
    (\<forall>c'. ac_outage c' = None \<longrightarrow> get_active_version (ae_ext env) c' key s' = Inr (200, [], VersionAnswer v)) \<and>
    (\<forall>c' body' st' hs' e. evaluate_rules env c' key body' s' = Inr (st', hs', EvaluateAnswer e) \<longrightarrow> er_rule_set e = vr_label v) \<and>
    (\<forall>c' p' body' text' correlation. stale_request env c' key body' (vr_version v) \<longrightarrow>
       (\<exists>r. create_version env c' p' key body' s' = (s', r) \<and> re_status (respond text' correlation r) = 409))"
proof -
  from create_version_Inr [OF assms(2)] obtain k b d h t' rs where one:
    "checked_input (both (check_key key) (check_body (check_create_request (ae_ext env)) body)) = Inr (k, b)"
    "create_rule_set_version (ae_ext env) (ac_now c) (st_versions s) key d h (cr_description b) (pr_subject p)
       (cr_expected_current_version b) = (t', Inr rs)"
    "s' = cache_active env c rs (s\<lparr>st_versions := t'\<rparr>)" "st = 201" "a = VersionAnswer (from_rule_set rs)" by metis
  note latest = create_latest [OF assms(1) one(2)]
  have key: "key_pattern key" using one(1) by (auto simp: check_key_def checked_input_def split: sum.splits if_splits)
  have versions: "st_versions s' = t'" by (simp add: one(3))
  let ?r = "new_record (ae_ext env) (ac_now c) key d h (cr_description b) (pr_subject p) (current_version (st_versions s) key)"
  from create_Inr [OF one(2)] have load: "rule_set_from_record (ae_ext env) ?r = Inr rs" by blast
  have rs: "rs_key rs = key" "rs_version rs = current_version (st_versions s) key + 1"
    using load by (auto simp: rule_set_from_record_Inr new_record_def)
  have current: "current_version t' key = rs_version rs" by (rule created_current [OF one(2)])
  have active: "get_active_version (ae_ext env) c' key s' = Inr (200, [], VersionAnswer (from_rule_set rs))"
    if "ac_outage c' = None" for c'
    using latest that key
    by (simp add: get_active_version_def query_def stored_def check_key_def checked_input_def versions)
  have dry: "er_rule_set e = rule_set_label rs"
    if "evaluate_rules env c' key body' s' = Inr (st', hs', EvaluateAnswer e)" for c' body' st' hs' e
    using latest that
    by (auto simp: evaluate_rules_def query_def stored_def versions evaluate_answer_def split: option.splits sum.splits)
  have stale: "\<exists>r. create_version env c' p' key body' s' = (s', r) \<and> re_status (respond text' correlation r) = 409"
    if "stale_request env c' key body' (rs_version rs)" for c' p' body' text' correlation
    by (rule stale_refused) (use that in \<open>simp add: versions current\<close>)
  show ?thesis
    using rs current active dry stale
    by (intro exI [of _ "from_rule_set rs"]) (simp add: one(4,5) versions from_rule_set_def)
qed

lemma publication_made:
  assumes "contiguous (st_versions s)" "key_pattern key" "check_create_request (ae_ext env) j = Inr b"
    and "parse_rule_set_definition (coerce_int (ae_ext env)) (cr_definition b) = Inr d"
    and "content_hash (sha256 (ae_ext env)) (repr_float (ae_ext env)) d = Some h"
    and "float_free (model_dump d)" "keeps_documents (jsonb (ae_ext env))" "\<And>n. coerce_int (ae_ext env) (JInt n) = Some n"
    and "cr_expected_current_version b = None \<or> cr_expected_current_version b = Some (current_version (st_versions s) key)"
    and "length h \<le> 64" "length (cr_description b) \<le> 500" "length (pr_subject p) \<le> 255"
    and "current_version (st_versions s) key < 2 ^ 31 - 1" "ac_commit_outage c = None"
  shows "\<exists>s' hs rs. create_version env c p key (JsonBody j) s = (s', Inr (201, hs, VersionAnswer (from_rule_set rs))) \<and>
    rs_definition rs = d \<and> rs_key rs = key \<and> rs_version rs = current_version (st_versions s) key + 1 \<and>
    contiguous (st_versions s') \<and> st_tables s' = st_tables s \<and>
    current_version (st_versions s') key = rs_version rs \<and> get_latest_rule_set (ae_ext env) (st_versions s') key = Inr rs"
proof -
  have key: "length key \<le> 64" using assms(2) by (simp add: key_pattern_def)
  from accepted_definition_publishes [OF assms(1,4-9) key assms(10-13)] obtain t' rs where
    made: "create_rule_set_version (ae_ext env) (ac_now c) (st_versions s) key d h (cr_description b) (pr_subject p)
       (cr_expected_current_version b) = (t', Inr rs)"
    and rs: "rs_definition rs = d" "rs_version rs = current_version (st_versions s) key + 1"
      "get_latest_rule_set (ae_ext env) t' key = Inr rs" by blast
  have "contiguous t'" using created_contiguous [OF assms(1) made] .
  moreover have "current_version t' key = rs_version rs" by (rule created_current [OF made])
  moreover have "rs_key rs = key" using create_Inr [OF made] by (auto simp: rule_set_from_record_Inr new_record_def)
  moreover have "create_version env c p key (JsonBody j) s =
      (cache_active env c rs (s\<lparr>st_versions := t'\<rparr>),
       Inr (201, [(''Location'', ''/api/v1/rule-sets/'' @ key @ ''/versions/'' @ show_int (rs_version rs))],
            VersionAnswer (from_rule_set rs)))"
    using assms(2-5,14) made
    by (simp add: create_version_def publish_version_def check_key_def check_body_def located_def checked_input_def stored_def)
  ultimately show ?thesis using rs by (auto simp: cache_active_def Let_def)
qed


end
