(* ===== verification/Dry_Run.thy ===== *)
theory Dry_Run
  imports Http_Api_Facts Processing_Facts
begin

text \<open>
  The dry run of the API (\<open>evaluate\<close> in \<open>app/api.py\<close>) and the worker (\<open>TransactionProcessor.process\<close>)
  share \<open>score_transaction\<close>; the dry run of a transaction gives what the worker decides about it.
\<close>

lemma velocity_context_own:
  assumes "transactions db' = transactions db @ [row]" "td_transaction_id (tr_decision row) = ev_transaction_id ev"
  shows "velocity_context db' rs (request_of ev) = velocity_context db rs (request_of ev)"
  using assms by (simp add: velocity_context_def request_of_def get_velocity_aggregates_def velocity_rows_def)

lemma evaluated_step:
  assumes "process px active c payload p (src, db) = ((src', db'), Inr res)" "rr_outcome res = EVALUATED"
    and "parse_transaction_event px payload = Inr ev" "snd (active src) = Inr rs"
  obtains sc row where "score_transaction None db rs (request_of ev) = Inr sc"
    "rr_decision res = decision_of ev rs (sc_assessment sc)"
    "transactions db' = transactions db @ [row]" "td_transaction_id (tr_decision row) = ev_transaction_id ev"
  using assms(1)
proof (cases rule: process_cases [of px payload active c p src db])
  case (scored ev' s'' rs' sc db'' r)
  with assms have eq: "ev' = ev" "rs' = rs" "db'' = db'" "r = Inr res" by auto
  have score: "score_transaction None db rs (request_of ev) = Inr sc"
    using scored(3) by (auto simp: eq score_transaction_Inr)
  have rec: "record_decision (c_time c) db (decision_of ev rs (sc_assessment sc)) p = (db', Inr res)"
    using scored(4) by (simp add: eq record_step_Inr)
  have id: "td_transaction_id (decision_of ev rs (sc_assessment sc)) = ev_transaction_id ev" by (simp add: decision_of_def)
  from rec show ?thesis
  proof (cases rule: record_decision_cases [of "c_time c" db "decision_of ev rs (sc_assessment sc)" p])
    case (stored row db3)
    with rec have "db3 = db'" by simp
    with stored(4) have "transactions db' = transactions db @ [row]" by (auto dest: insert_history_Inr)
    moreover have "td_transaction_id (tr_decision row) = ev_transaction_id ev"
      using transaction_row_id [OF stored(3)] id by simp
    moreover have "rr_decision res = decision_of ev rs (sc_assessment sc)"
      using record_decision_stored [OF rec] assms(2) by auto
    ultimately show ?thesis using that [OF score] by blast
  qed (use rec assms(2) in auto)
qed (use assms in auto)

text \<open>
  C15: the dry run predicts the worker. When the rule set that the worker scored a new message with is
  the active one, a dry run of the same transaction, before the message is processed as well as
  afterwards (its own row is left out of the velocity), answers with the risk score, verdict, fraud
  flag, triggered rules and rule-set version that the worker stored.
\<close>

theorem dry_run_predicts:
  assumes "process px active c payload p (src, db) = ((src', db'), Inr res)" "rr_outcome res = EVALUATED"
    and "parse_transaction_event px payload = Inr ev" "snd (active src) = Inr rs"
    and "get_latest_rule_set (ae_ext env) (st_versions s) key = Inr rs" "key_pattern key"
    and "check_evaluate_request (ae_px env) (ac_now c') body = Inr (request_of ev)"
    and "ac_outage c' = None" "ac_velocity_outage c' = None" "st_tables s = db \<or> st_tables s = db'"
  shows "\<exists>a. evaluate_rules env c' key (JsonBody body) s = Inr (200, [], EvaluateAnswer a) \<and>
    er_risk_score a = td_risk_score (rr_decision res) \<and> verdict_value (er_verdict a) = td_verdict (rr_decision res) \<and>
    er_is_fraud a = td_is_fraud (rr_decision res) \<and> er_triggered_rules a = td_triggered_rules (rr_decision res) \<and>
    er_rule_set a = td_rules_version (rr_decision res)"
proof -
  obtain sc row where sc: "score_transaction None db rs (request_of ev) = Inr sc"
    "rr_decision res = decision_of ev rs (sc_assessment sc)"
    "transactions db' = transactions db @ [row]" "td_transaction_id (tr_decision row) = ev_transaction_id ev"
    using evaluated_step [OF assms(1-4)] .
  have "score_transaction None (st_tables s) rs (request_of ev) = Inr sc"
    using sc(1) assms(10) velocity_context_own [OF sc(3,4)] by (auto simp: score_transaction_Inr)
  then have "evaluate_rules env c' key (JsonBody body) s = Inr (200, [], EvaluateAnswer (evaluate_answer rs sc))"
    using assms(5-9) by (simp add: evaluate_rules_def checked_input_def check_key_def check_body_def located_def
        query_def stored_def)
  then show ?thesis by (simp add: sc(2) evaluate_answer_def decision_of_def)
qed

end
