(* ===== verification/Api_Examples.thy ===== *)
theory Api_Examples
  imports Dry_Run Processing_Examples
begin

text \<open>
  An API process with one signing key and one token, in front of the example tables and of the default
  rule set, to show that the hypotheses of the theorems about the API can be met.
\<close>

section \<open>Cursor texts\<close>

text \<open>Fixed-width hexadecimal texts serve for dates as well as for UUIDs.\<close>

definition hex_text :: "nat \<Rightarrow> nat \<Rightarrow> string" where
  "hex_text n u = map (\<lambda>i. hex_digit (u div 16 ^ i mod 16)) (rev [0..<n])"

definition hex_value :: "char \<Rightarrow> nat" where
  "hex_value c = (if is_digit c then of_char c - 48 else of_char c - 87)"

definition read_hex :: "string \<Rightarrow> nat" where
  "read_hex s = foldl (\<lambda>a c. a * 16 + hex_value c) 0 (filter (\<lambda>c. c \<noteq> CHR ''-'') s)"

lemma hex_value_digit: "n < 16 \<Longrightarrow> hex_value (hex_digit n) = n"
  by (auto simp: hex_value_def hex_digit_def is_digit_def)

lemma hex_digit_plain: "n < 16 \<Longrightarrow> hex_digit n \<noteq> CHR ''-'' \<and> hex_digit n \<noteq> CHR 0x22 \<and> escape_char (hex_digit n) = [hex_digit n]"
  by (auto simp: hex_digit_def escape_char_def Let_def dest: arg_cong [of _ _ "of_char :: char \<Rightarrow> nat"])

lemma foldl_hex_text:
  "foldl (\<lambda>a c. a * 16 + hex_value c) a (hex_text n u) = a * 16 ^ n + u mod 16 ^ n"
proof (induction n arbitrary: a)
  case (Suc n)
  have "u mod 16 ^ Suc n = 16 ^ n * (u div 16 ^ n mod 16) + u mod 16 ^ n"
    using mod_mult2_eq [of u "16 ^ n" 16] by (simp add: mult.commute)
  then show ?case using Suc.IH [of "a * 16 + u div 16 ^ n mod 16"]
    by (simp add: hex_text_def hex_value_digit algebra_simps)
qed (simp add: hex_text_def)

lemma read_hex_text: "filter (\<lambda>c. c \<noteq> CHR ''-'') s = hex_text n u \<Longrightarrow> u < 16 ^ n \<Longrightarrow> read_hex s = u"
  by (simp add: read_hex_def foldl_hex_text)

lemma take_drop_step: "take 4 (drop n s) @ drop (n + 4) s = drop n s"
  by (metis add.commute append_take_drop_id drop_drop)

lemma hex_text_plain:
  "c \<in> set (hex_text n u) \<Longrightarrow> c \<noteq> CHR ''-'' \<and> c \<noteq> CHR 0x22 \<and> escape_char c = [c]"
proof -
  assume "c \<in> set (hex_text n u)"
  then obtain i where "c = hex_digit (u div 16 ^ i mod 16)" by (auto simp: hex_text_def)
  then show ?thesis using hex_digit_plain [of "u div 16 ^ i mod 16"] by simp
qed

lemma show_uuid_hex:
  "show_uuid u = join ''-'' [take 8 (hex_text 32 u), take 4 (drop 8 (hex_text 32 u)), take 4 (drop 12 (hex_text 32 u)),
     take 4 (drop 16 (hex_text 32 u)), drop 20 (hex_text 32 u)]"
  by (simp add: show_uuid_def hex_text_def Let_def)

lemma show_uuid_digits: "filter (\<lambda>c. c \<noteq> CHR ''-'') (show_uuid u) = hex_text 32 u"
proof -
  let ?d = "hex_text 32 u"
  have plain: "filter (\<lambda>c. c \<noteq> CHR ''-'') s = s" if "set s \<subseteq> set ?d" for s
    using that by (intro filter_True) (auto dest: hex_text_plain)
  have "filter (\<lambda>c. c \<noteq> CHR ''-'') (show_uuid u) =
      take 8 ?d @ take 4 (drop 8 ?d) @ take 4 (drop 12 ?d) @ take 4 (drop 16 ?d) @ drop 20 ?d"
    unfolding show_uuid_hex
    by (simp add: plain set_take_subset set_drop_subset order_trans [OF set_take_subset set_drop_subset])
  also have "\<dots> = ?d"
    using take_drop_step [of 8 ?d] take_drop_step [of 12 ?d] take_drop_step [of 16 ?d] by simp
  finally show ?thesis .
qed

lemma show_uuid_plain: "c \<in> set (show_uuid u) \<Longrightarrow> escape_char c = [c]"
proof -
  assume c: "c \<in> set (show_uuid u)"
  show ?thesis
  proof (cases "c = CHR ''-''")
    case False
    with c have "c \<in> set (filter (\<lambda>c. c \<noteq> CHR ''-'') (show_uuid u))" by simp
    then show ?thesis unfolding show_uuid_digits using hex_text_plain by blast
  qed (simp add: escape_char_def Let_def)
qed

lemma plain_dump: "(\<And>c. c \<in> set s \<Longrightarrow> escape_char c = [c]) \<Longrightarrow> dump_string s = CHR 0x22 # s @ [CHR 0x22]"
proof -
  assume "\<And>c. c \<in> set s \<Longrightarrow> escape_char c = [c]"
  then have "concat (map escape_char s) = s" by (induction s) auto
  then show ?thesis by (simp add: dump_string_def)
qed

definition example_isoformat :: "int \<Rightarrow> string" where
  "example_isoformat t = hex_text 16 (nat (t - MIN_DATETIME))"

definition example_cursors :: cursor_externals where
  "example_cursors =
     \<lparr>cx_loads = (\<lambda>s. Some (JDict [(''o'', JStr (take 16 (drop 7 s))), (''t'', JStr (take 36 (drop 32 s)))])),
      cx_isoformat = example_isoformat, cx_fromisoformat = (\<lambda>s. Some (MIN_DATETIME + int (read_hex s))),
      cx_uuid = (\<lambda>s. Some (read_hex s))\<rparr>"

lemma cursor_text:
  "cursor_json (example_isoformat t) (show_uuid u) =
     CHR ''{'' # CHR 0x22 # CHR ''o'' # CHR 0x22 # CHR '':'' # CHR '' '' # CHR 0x22 # example_isoformat t @
     CHR 0x22 # CHR '','' # CHR '' '' # CHR 0x22 # CHR ''t'' # CHR 0x22 # CHR '':'' # CHR '' '' # CHR 0x22 # show_uuid u @
     [CHR 0x22, CHR ''}'']"
proof -
  have "dump_string (example_isoformat t) = CHR 0x22 # example_isoformat t @ [CHR 0x22]"
    unfolding example_isoformat_def by (rule plain_dump) (auto dest: hex_text_plain)
  moreover have "dump_string (show_uuid u) = CHR 0x22 # show_uuid u @ [CHR 0x22]"
    by (rule plain_dump) (rule show_uuid_plain)
  moreover have "dump_string ''o'' = [CHR 0x22, CHR ''o'', CHR 0x22]" "dump_string ''t'' = [CHR 0x22, CHR ''t'', CHR 0x22]"
    by code_simp+
  ultimately show ?thesis by (simp add: cursor_json_def)
qed

lemma example_lengths: "length (example_isoformat t) = 16" "length (show_uuid u) = 36"
proof -
  have "length (hex_text n u) = n" for n u by (simp add: hex_text_def)
  then show "length (example_isoformat t) = 16" "length (show_uuid u) = 36"
    by (simp_all add: example_isoformat_def show_uuid_hex)
qed

lemma length_b64encode: "length (b64encode s) \<le> 4 * ((length s + 2) div 3)"
proof (induction s rule: b64encode.induct)
  case (4 a b c s)
  have "(length (a # b # c # s) + 2) div 3 = Suc ((length s + 2) div 3)" by simp
  then show ?case using 4 by simp
qed simp_all

lemma example_tokens_ok: "tokens_ok example_cursors"
proof -
  have "cursor_externals_ok example_cursors"
    unfolding cursor_externals_ok_def
  proof (intro allI impI conjI)
    fix c assume c: "cursor_ok c"
    then have t: "nat (fst c - MIN_DATETIME) < 16 ^ 16"
      by (auto simp: cursor_ok_def datetime_ok_def MIN_DATETIME_def MAX_DATETIME_def)
    show "cx_loads example_cursors (cursor_json (cx_isoformat example_cursors (fst c)) (show_uuid (snd c))) =
        Some (JDict [(''o'', JStr (cx_isoformat example_cursors (fst c))), (''t'', JStr (show_uuid (snd c)))])"
      by (simp add: example_cursors_def cursor_text example_lengths)
    have "read_hex (example_isoformat (fst c)) = nat (fst c - MIN_DATETIME)"
      by (rule read_hex_text [OF _ t]) (auto simp: example_isoformat_def dest: hex_text_plain intro!: filter_True)
    then show "cx_fromisoformat example_cursors (cx_isoformat example_cursors (fst c)) = Some (fst c)"
      using c by (simp add: example_cursors_def cursor_ok_def datetime_ok_def)
    have "snd c < 16 ^ 32" using c by (simp add: cursor_ok_def)
    then show "cx_uuid example_cursors (show_uuid (snd c)) = Some (snd c)"
      by (simp add: example_cursors_def read_hex_text [OF show_uuid_digits])
  qed
  moreover have "encode_cursor example_cursors k \<noteq> []" for k
    using b64_char_ascii(1) [of "of_char CHR ''{'' div 4"]
    by (simp add: encode_cursor_def example_cursors_def cursor_text)
  moreover have "length (encode_cursor example_cursors k) \<le> 256" for k
  proof -
    have "length (encode_cursor example_cursors k) \<le>
        length (b64encode (cursor_json (example_isoformat (fst k)) (show_uuid (snd k))))"
      unfolding encode_cursor_def length_rev
      by (rule order_trans [OF length_dropWhile_le]) (simp add: example_cursors_def)
    also have "\<dots> \<le> 4 * ((70 + 2) div 3)"
      using length_b64encode [of "cursor_json (example_isoformat (fst k)) (show_uuid (snd k))"]
      by (simp add: cursor_text example_lengths)
    finally show ?thesis by simp
  qed
  ultimately show ?thesis by (simp add: tokens_ok_def)
qed

section \<open>An API process\<close>

definition example_claims :: claims where
  "example_claims = [(''sub'', JStr ''analyst''), (''scope'', JStr ''fraud:transactions:read  fraud:rules:read'')]"

definition example_library :: "nat jwt_library" where
  "example_library =
     \<lparr>unverified_kid = (\<lambda>t. Inr (Some ''key'')),
      jwt_decode = (\<lambda>k opts now t. if k = 1 \<and> t = ''token'' then Inr example_claims else Inl (InvalidToken '''')),
      str_of = (\<lambda>j. '''')\<rparr>"

definition example_jwt :: jwt_settings where
  "example_jwt =
     \<lparr>jwt_algorithms = [''RS256''], jwt_audience = ''fraud-api'', jwt_issuer = ''https://idp'', jwt_leeway_seconds = 30,
      jwt_jwks_url = ''https://idp/jwks'', jwt_jwks_min_refresh_interval_seconds = 60, jwt_public_key_path = ''''\<rparr>"

definition api_px :: event_externals where
  "api_px = example_px\<lparr>to_finite_decimal := (\<lambda>v. if v = JStr ''15000.50'' then Some (Dec 1500050 (- 2)) else None)\<rparr>"

definition api_externals :: externals where
  "api_externals = example_externals\<lparr>sha256 := (\<lambda>s. ''00'')\<rparr>"

definition example_env :: "nat api_env" where
  "example_env =
     \<lparr>ae_lib = example_library, ae_ext = api_externals, ae_px = api_px, ae_conv = example_conversions,
      ae_cx = example_cursors, ae_problem_text = (\<lambda>p. ''invalid''), ae_dry_run_text = (\<lambda>r. ''not a number''),
      ae_jwt = example_jwt, ae_limits = Some \<lparr>max_requests = 100, window_seconds = 60\<rparr>,
      ae_scope_transactions_read = ''fraud:transactions:read'', ae_scope_rules_read = ''fraud:rules:read'',
      ae_scope_rules_write = ''fraud:rules:write'', ae_redis_ttl = 60\<rparr>"

definition calm_api :: api_conditions where
  "calm_api =
     \<lparr>ac_now = 5, ac_redis_now = 5, ac_redis_up = True, ac_outage = None, ac_velocity_outage = None,
      ac_commit_outage = None, ac_correlation = Some ''c-1''\<rparr>"

definition example_call :: "nat call" where
  "example_call =
     \<lparr>cl_credentials = Some (''Bearer'', '' token''),
      cl_lookup = \<lparr>lt_checked = 0, lt_fetched = 1, lt_reply = KeySet [(Some ''key'', 1)]\<rparr>,
      cl_now = 1, cl_redis_now = 1, cl_round_trip = Answered\<rparr>"

definition example_guard :: "nat guard_state" where
  "example_guard = \<lparr>gs_verifier = JwksVerifier new_jwks, gs_limiter = new_limiter\<rparr>"

definition default_record :: rule_set_version_record where
  "default_record =
     \<lparr>rv_rule_set_key = ''fraud-default'', rv_version = 1, rv_definition = model_dump default_definition,
      rv_content_hash = ''00'', rv_description = ''Initial'', rv_created_by = ''migration'', rv_created_at = 0\<rparr>"

definition api_stores :: stores where
  "api_stores = \<lparr>st_tables = example_tables, st_versions = [default_record], st_cache = (\<lambda>k. None)\<rparr>"

section \<open>Serving requests\<close>

lemma example_served:
  "snd (serve example_env calm_api example_call (GetTransaction 17) (example_guard, api_stores)) =
     \<lparr>re_status = 200, re_headers = [], re_body = Answer (TransactionAnswer example_row)\<rparr>"
  by code_simp


text \<open>The example token lacks the scope for publishing.\<close>

lemma example_refused:
  "re_status (snd (serve example_env calm_api example_call (CreateVersion ''fraud-default'' (JsonBody JNull))
     (example_guard, api_stores))) = 403"
  by code_simp


section \<open>The dry run\<close>

definition example_body :: json where
  "example_body =
     JDict [(''user_id'', JStr ''4''), (''amount'', JStr ''15000.50''), (''currency'', JStr ''zar''),
            (''category'', JStr ''crypto''), (''occurred_at'', JStr ''1000''), (''channel'', JStr ''online''),
            (''enrichment'', JDict [(''minutes_since_last_tx'', JInt 45), (''is_new_merchant_for_user'', JBool True)]),
            (''transaction_id'', JStr ''17'')]"

lemma example_request:
  obtains ev where "parse_transaction_event example_px (Some ''{}'') = Inr ev"
    "check_evaluate_request api_px 5 example_body = Inr (request_of ev)"
proof -
  have "case parse_transaction_event example_px (Some ''{}'') of
      Inr ev \<Rightarrow> (case check_evaluate_request api_px 5 example_body of Inr rq \<Rightarrow> rq = request_of ev | Inl _ \<Rightarrow> False)
    | Inl _ \<Rightarrow> False"
    by code_simp
  then show ?thesis using that by (auto split: sum.splits)
qed

lemma example_active: "get_latest_rule_set api_externals [default_record] ''fraud-default'' = Inr cached_rule_set"
proof -
  have "json_plain (model_dump default_definition)" by code_simp
  then have "definition_json_hash (sha256 api_externals) (repr_float api_externals) (model_dump default_definition) = Some ''00''"
    using canonical_total [of "model_dump default_definition" "repr_float api_externals"]
    by (auto simp: definition_json_hash_def api_externals_def)
  moreover have "model_validate (coerce_int api_externals) (model_dump default_definition) = Inr default_definition"
    using model_validate_dump [OF default_valid json_int_JInt] by (simp add: api_externals_def example_externals_def)
  ultimately have "rule_set_from_record api_externals default_record = Inr cached_rule_set"
    using default_dry_run
    by (simp add: rule_set_from_record_Inr load_accepts default_record_def cached_rule_set_def)
  then show ?thesis by (simp add: get_latest_rule_set_def versions_of_def default_record_def)
qed

theorem dry_run_predicts_witness:
  "\<exists>src db res a. example_run calm ''{}'' no_rows = ((src, db), Inr res) \<and>
     evaluate_rules example_env calm_api ''fraud-default'' (JsonBody example_body) (api_stores\<lparr>st_tables := db\<rparr>) =
       Inr (200, [], EvaluateAnswer a) \<and> er_risk_score a = td_risk_score (rr_decision res)"
proof -
  obtain src db res where run: "example_run calm ''{}'' no_rows = ((src, db), Inr res)"
    and res: "rr_outcome res = EVALUATED" by (rule example_first)
  obtain ev where ev: "parse_transaction_event example_px (Some ''{}'') = Inr ev"
    "check_evaluate_request api_px 5 example_body = Inr (request_of ev)" by (rule example_request)
  have active: "snd (provider_active example_externals example_conversions (example_provider, [example_world])) =
      Inr cached_rule_set"
    by (simp add: provider_active.simps get_active_def example_provider_def new_provider_def example_world_def)
  have check: "check_evaluate_request (ae_px example_env) (ac_now calm_api) example_body = Inr (request_of ev)"
    using ev(2) by (simp add: example_env_def calm_api_def)
  have latest: "get_latest_rule_set (ae_ext example_env) (st_versions (api_stores\<lparr>st_tables := db\<rparr>)) ''fraud-default'' =
      Inr cached_rule_set"
    using example_active by (simp add: example_env_def api_stores_def)
  have key: "key_pattern ''fraud-default''" by code_simp
  from dry_run_predicts [OF run [unfolded example_run_def] res ev(1) active latest key check] run show ?thesis
    by (fastforce simp: calm_api_def)
qed

text \<open>One page of one decision.\<close>

definition example_query :: list_query_params where
  "example_query =
     \<lparr>lq_user_id = None, lq_category = Some ''groceries'', lq_is_fraud = None, lq_verdict = None,
      lq_occurred_from = None, lq_occurred_to = None, lq_limit = 1, lq_cursor = None\<rparr>"

theorem api_paging_complete_witness:
  "let rows = concat (fetch_pages (api_page example_cursors calm_api example_query api_stores)
       (Suc (length (transactions (st_tables api_stores)))) None)
   in rows = newest_first (filter (matches (filters_of example_query (Some ''GROCERIES''))) (transactions (st_tables api_stores))) \<and>
      distinct (map (\<lambda>r. td_transaction_id (tr_decision r)) rows)"
proof (rule api_paging_complete [where n = 1])
  show "tables_ok (st_tables api_stores)" by (simp add: api_stores_def example_tables_ok)
  show "category_filter example_query (Some ''GROCERIES'')" by code_simp
  have "transactions (st_tables api_stores) = [example_row]" by code_simp
  then show "cursor_ok (page_key r)" if "r \<in> set (transactions (st_tables api_stores))" for r
    using that by (simp add: example_row_def example_decision_def page_key_def cursor_ok_def datetime_ok_def
        MIN_DATETIME_def MAX_DATETIME_def)
qed (simp_all add: example_tokens_ok calm_api_def example_query_def MAX_PAGE_SIZE_def)

end
