(* ===== verification/Smoke_Api.thy ===== *)
theory Smoke_Api
  imports Smoke Rule_Updates Api_Examples Worker_Services
begin

text \<open>
  The scenarios of \<open>scripts/smoke_test.py\<close> that go through the API and the dead-letter topic, run on the
  model: who may do what, duplicates, paging, a poison message, and the update of a rule with its
  restoration. What the script waits for (decisions, acknowledgements) is polled; the polls are inputs.
\<close>

section \<open>Waiting and reporting\<close>

text \<open>\<open>decision\<close>: each poll has the clock before the request and the decision, if there is one.\<close>

fun await_decision :: "rat \<Rightarrow> (rat \<times> 'a option) list \<Rightarrow> 'a option" where
  "await_decision deadline [] = None"
| "await_decision deadline ((now, answer) # polls) =
     (if now < deadline then (case answer of Some d \<Rightarrow> Some d | None \<Rightarrow> await_decision deadline polls) else None)"

text \<open>\<open>dead_lettered\<close>: the first record that carries the marker; a poll may return nothing.\<close>

fun dead_lettered :: "string \<Rightarrow> rat \<Rightarrow> (rat \<times> kafka_record option) list \<Rightarrow> bool" where
  "dead_lettered marker deadline [] = False"
| "dead_lettered marker deadline ((now, polled) # polls) =
     (if \<not> now < deadline then False
      else (case polled of
              None \<Rightarrow> dead_lettered marker deadline polls
            | Some r \<Rightarrow>
                if is_infix marker (case kr_value r of None \<Rightarrow> [] | Some v \<Rightarrow> v)
                then header r ''dlq.error.class'' = Some ''permanent''
                else dead_lettered marker deadline polls))"

type_synonym check = "string \<times> bool \<times> string"

definition report_line :: "nat \<Rightarrow> check \<Rightarrow> string" where
  "report_line width c =
     (case c of (name, passed, detail) \<Rightarrow>
        (if passed then ''PASS'' else ''FAIL'') @ ''  '' @ name @ replicate (width - length name) (CHR '' '') @
        (if \<not> passed \<and> detail \<noteq> [] then ''  ('' @ detail @ '')'' else []))"

definition report_lines :: "check list \<Rightarrow> string list" where
  "report_lines results = map (report_line (Max (set (map (\<lambda>(name, _). length name) results)))) results"

definition report_total :: "check list \<Rightarrow> nat \<times> nat" where
  "report_total results =
     (length results - length (filter (\<lambda>(_, passed, _). \<not> passed) results), length results)"

definition smoke_exit :: "check list \<Rightarrow> int" where
  "smoke_exit results = (if list_all (\<lambda>(_, passed, _). passed) results then 0 else 1)"

lemma exit_counts_all: "smoke_exit results = 0 \<longleftrightarrow> fst (report_total results) = snd (report_total results)"
proof -
  let ?failed = "filter (\<lambda>(_, passed, _). \<not> passed) results"
  have "length ?failed \<le> length results" by (rule length_filter_le)
  then have "length results - length ?failed = length results \<longleftrightarrow> length ?failed = 0" by linarith
  moreover have "list_all (\<lambda>(_, passed, _). passed) results \<longleftrightarrow> ?failed = []"
    by (induction results) auto
  ultimately show ?thesis by (simp add: smoke_exit_def report_total_def)
qed

section \<open>Updating a rule\<close>

definition status_of :: "route_result \<Rightarrow> int" where
  "status_of r = re_status (respond (\<lambda>_. []) None r)"

definition set_key :: "string \<Rightarrow> (json \<Rightarrow> json) \<Rightarrow> json \<Rightarrow> json" where
  "set_key k f j = (case j of JDict kvs \<Rightarrow> JDict (map (\<lambda>(k', v). (k', if k' = k then f v else v)) kvs) | _ \<Rightarrow> j)"

definition set_first :: "(json \<Rightarrow> json) \<Rightarrow> json \<Rightarrow> json" where
  "set_first f j = (case j of JList (x # xs) \<Rightarrow> JList (f x # xs) | _ \<Rightarrow> j)"

definition lowered_condition :: json where
  "lowered_condition = JDict [(''>='', JList [JDict [(''var'', JStr ''amount'')], JInt 8000])]"

definition lowered :: "json \<Rightarrow> json" where
  "lowered = set_key ''rules'' (set_first (set_key ''condition'' (\<lambda>_. lowered_condition)))"

definition version_body :: "string \<Rightarrow> json \<Rightarrow> int \<Rightarrow> json" where
  "version_body description definition expected =
     JDict [(''description'', JStr description), (''definition'', definition), (''expected_current_version'', JInt expected)]"

definition dry_run_body :: json where
  "dry_run_body =
     JDict [(''user_id'', JStr ''9''), (''amount'', JStr ''8000.00''), (''currency'', JStr ''ZAR''), (''category'', JStr ''GROCERIES'')]"

text \<open>The worker's decision about an event once its caches have expired: triggered rules and version.\<close>

definition decided_now :: "externals \<Rightarrow> string \<Rightarrow> transaction_created \<Rightarrow> stores \<Rightarrow> (string list \<times> string) option" where
  "decided_now ext key ev s =
     (case get_latest_rule_set ext (st_versions s) key of
        Inl _ \<Rightarrow> None
      | Inr rs \<Rightarrow>
          (case score_transaction None (st_tables s) rs (request_of ev) of
             Inl _ \<Rightarrow> None
           | Inr sc \<Rightarrow> (let d = decision_of ev rs (sc_assessment sc) in Some (td_triggered_rules d, td_rules_version d))))"

definition triggers_of :: "route_result \<Rightarrow> string list option" where
  "triggers_of r = (case r of Inr (_, _, EvaluateAnswer a) \<Rightarrow> Some (er_triggered_rules a) | _ \<Rightarrow> None)"

definition version_of_answer :: "route_result \<Rightarrow> version_response option" where
  "version_of_answer r = (case r of Inr (_, _, VersionAnswer v) \<Rightarrow> Some v | _ \<Rightarrow> None)"

definition rule_update_scenario :: "'k api_env \<Rightarrow> api_conditions \<Rightarrow> principal \<Rightarrow> stores \<Rightarrow> bool list" where
  "rule_update_scenario env c admin s =
     (let key = ''fraud-default''
      in case version_of_answer (get_active_version (ae_ext env) c key s) of
           None \<Rightarrow> [False]
         | Some active \<Rightarrow>
             (let publish = (\<lambda>description definition expected. create_version env c admin key
                              (JsonBody (version_body description definition expected)));
                  (s1, created) = publish ''smoke test: lower high-value threshold to 8,000''
                                    (lowered (vr_definition active)) (vr_version active) s;
                  (s2, stale) = publish ''stale writer'' (lowered (vr_definition active)) (vr_version active) s1;
                  dry_run' = evaluate_rules env c key (JsonBody dry_run_body) s2;
                  flagged = decided_now (ae_ext env) key (smoke_event 30 30 800000 ''GROCERIES'' ''ZAR'' 0) s2
              in case version_of_answer created of
                   None \<Rightarrow> [False]
                 | Some v \<Rightarrow>
                     (let (s3, restored) = publish ''smoke test: restore previous rules'' (vr_definition active) (vr_version v) s2
                      in [status_of created = 201, status_of stale = 409,
                          triggers_of dry_run' = Some [''HIGH_VALUE_THRESHOLD''],
                          flagged = Some ([''HIGH_VALUE_THRESHOLD''], vr_label v), status_of restored = 201])))"

section \<open>It passes\<close>

definition smoke_px :: event_externals where
  "smoke_px = example_px\<lparr>to_finite_decimal := (\<lambda>v. if v = JStr ''8000.00'' then Some (Dec 800000 (- 2)) else None)\<rparr>"

definition smoke_env :: "nat api_env" where
  "smoke_env = example_env\<lparr>ae_px := smoke_px\<rparr>"

definition smoke_admin :: principal where
  "smoke_admin = \<lparr>pr_subject = ''fraud-rules-admin'', pr_scopes = {''fraud:rules:write''}, pr_claims = []\<rparr>"

definition smoke_stores :: stores where
  "smoke_stores = \<lparr>st_tables = no_rows, st_versions = [default_record], st_cache = (\<lambda>k. None)\<rparr>"

definition lowered_definition :: rule_set_definition where
  "lowered_definition =
     (case parse_rule_set_definition json_int (lowered (model_dump default_definition)) of
        Inr d \<Rightarrow> d | Inl _ \<Rightarrow> default_definition)"

lemma lowered_parses: "parse_rule_set_definition json_int (lowered (model_dump default_definition)) = Inr lowered_definition"
proof -
  have "case parse_rule_set_definition json_int (lowered (model_dump default_definition)) of Inr d \<Rightarrow> True | Inl _ \<Rightarrow> False"
    by code_simp
  then show ?thesis by (auto simp: lowered_definition_def split: sum.splits)
qed

lemma default_dump_parses: "parse_rule_set_definition json_int (model_dump default_definition) = Inr default_definition"
  using model_validate_dump [OF default_valid json_int_JInt] default_dry_run by (simp add: parse_accepts)

lemma dumps_plain:
  "json_plain (model_dump lowered_definition)" "float_free (model_dump lowered_definition)"
  "json_plain (model_dump default_definition)" "float_free (model_dump default_definition)"
  by code_simp+

lemma dumps_dict: "\<exists>kvs. model_dump d = JDict kvs" "\<exists>kvs. lowered (model_dump d) = JDict kvs"
  by (simp_all add: model_dump_def lowered_def set_key_def)

lemma smoke_env_simps [simp]:
  "ae_ext smoke_env = api_externals" "coerce_int api_externals = json_int" "sha256 api_externals = (\<lambda>s. ''00'')"
  by (simp_all add: smoke_env_def example_env_def api_externals_def example_externals_def)

abbreviation version_request :: "string \<Rightarrow> json \<Rightarrow> int \<Rightarrow> create_request" where
  "version_request description raw n \<equiv>
     \<lparr>cr_description = description, cr_definition = raw, cr_expected_current_version = Some n\<rparr>"

lemma smoke_request:
  assumes "\<exists>kvs. raw = JDict kvs" "0 \<le> n" "description \<noteq> []" "length description \<le> 500"
  shows "check_create_request api_externals (version_body description raw n) = Inr (version_request description raw n)"
proof -
  have "check_description (JStr description) = Inr description" using assms(3,4) by (cases description) simp_all
  with assms(1,2) show ?thesis
    by (auto simp: version_body_def model_field_def optional_field_def forbid_extra_def check_int_def)
qed

lemma smoke_hash: "json_plain (model_dump d) \<Longrightarrow> content_hash (\<lambda>s. ''00'') (repr_float api_externals) d = Some ''00''"
  using canonical_total [of "model_dump d" "repr_float api_externals"]
  by (auto simp: content_hash_def definition_json_hash_def)

lemma smoke_key: "key_pattern ''fraud-default''"
  by code_simp

lemma smoke_keeps: "keeps_documents (jsonb api_externals)"
  using example_keeps by (simp add: api_externals_def)

lemma smoke_publication:
  assumes "contiguous (st_versions s)" "parse_rule_set_definition json_int raw = Inr d" "\<exists>kvs. raw = JDict kvs"
    and "json_plain (model_dump d)" "float_free (model_dump d)" "description \<noteq> []" "length description \<le> 500"
    and "current_version (st_versions s) ''fraud-default'' = n" "0 \<le> n" "n < 2 ^ 31 - 1"
  shows "\<exists>s' hs rs. create_version smoke_env calm_api smoke_admin ''fraud-default'' (JsonBody (version_body description raw n)) s =
      (s', Inr (201, hs, VersionAnswer (from_rule_set rs))) \<and>
    rs_definition rs = d \<and> rs_key rs = ''fraud-default'' \<and> rs_version rs = n + 1 \<and>
    contiguous (st_versions s') \<and> st_tables s' = st_tables s \<and>
    current_version (st_versions s') ''fraud-default'' = rs_version rs \<and>
    get_latest_rule_set api_externals (st_versions s') ''fraud-default'' = Inr rs"
proof -
  show ?thesis
    using publication_made [of s "''fraud-default''" smoke_env "version_body description raw n"
        "version_request description raw n" d "''00''" smoke_admin calm_api]
      assms smoke_key smoke_request [OF assms(3,9,6,7)] smoke_hash [OF assms(4)] smoke_keeps
    by (simp add: smoke_admin_def calm_api_def)
qed

lemma same_definition_scores:
  assumes "rs_definition rs = rs_definition rs'"
  shows "score_transaction e db rs rq = score_transaction e db rs' rq"
  by (simp only: score_transaction_def velocity_context_def window_start_def assms)

section \<open>The scenario\<close>

definition lowered_rule_set :: rule_set where
  "lowered_rule_set = cached_rule_set\<lparr>rs_definition := lowered_definition\<rparr>"

lemma dry_run_lowered:
  "case check_evaluate_request smoke_px 5 dry_run_body of
     Inl _ \<Rightarrow> False
   | Inr rq \<Rightarrow> (case score_transaction None no_rows lowered_rule_set rq of
                Inl _ \<Rightarrow> False | Inr sc \<Rightarrow> triggered_rules (sc_assessment sc) = [''HIGH_VALUE_THRESHOLD''])"
  by code_simp

lemma worker_lowered:
  "case score_transaction None no_rows lowered_rule_set (request_of (smoke_event 30 30 800000 ''GROCERIES'' ''ZAR'' 0)) of
     Inl _ \<Rightarrow> False | Inr sc \<Rightarrow> triggered_rules (sc_assessment sc) = [''HIGH_VALUE_THRESHOLD'']"
  by code_simp

lemma smoke_start:
  "get_latest_rule_set api_externals (st_versions smoke_stores) ''fraud-default'' = Inr cached_rule_set"
  "contiguous (st_versions smoke_stores)" "current_version (st_versions smoke_stores) ''fraud-default'' = 1"
  "st_tables smoke_stores = no_rows"
proof -
  have one: "rv_rule_set_key default_record = ''fraud-default''" "rv_version default_record = 1"
    by (simp_all add: default_record_def)
  have versions: "versions [r] key = (if rv_rule_set_key r = key then {rv_version r} else {})" for r key
    by (auto simp: versions_def)
  have current: "current_version [r] key = (if rv_rule_set_key r = key then max 0 (rv_version r) else 0)" for r key
    by (simp add: current_version_def Collect_conv_if)
  have "rv_version r = 1 \<Longrightarrow> contiguous [r]" for r by (simp add: contiguous_def versions current)
  with one show "contiguous (st_versions smoke_stores)" "current_version (st_versions smoke_stores) ''fraud-default'' = 1"
    by (simp_all add: smoke_stores_def current)
qed (simp_all add: smoke_stores_def example_active)

lemma stale_smoke:
  assumes "n \<noteq> current" "0 \<le> n"
  shows "stale_request smoke_env calm_api ''fraud-default''
    (JsonBody (version_body ''stale writer'' (lowered (model_dump default_definition)) n)) current"
proof -
  let ?raw = "lowered (model_dump default_definition)"
  have "check_create_request api_externals (version_body ''stale writer'' ?raw n) =
      Inr (version_request ''stale writer'' ?raw n)"
    by (rule smoke_request [OF dumps_dict(2) assms(2)]) simp_all
  with smoke_hash [OF dumps_plain(1)] show ?thesis
    using assms(1) lowered_parses smoke_key
    by (simp add: stale_request_def calm_api_def check_key_def check_body_def located_def checked_input_def)
qed

lemma decided_scores:
  assumes "get_latest_rule_set ext (st_versions s) key = Inr rs" "rs_definition rs = lowered_definition" "st_tables s = no_rows"
  shows "decided_now ext key (smoke_event 30 30 800000 ''GROCERIES'' ''ZAR'' 0) s =
    Some ([''HIGH_VALUE_THRESHOLD''], rule_set_label rs)"
proof -
  have "score_transaction None (st_tables s) rs (request_of ev) = score_transaction None no_rows lowered_rule_set (request_of ev)"
    for ev unfolding assms(3) by (rule same_definition_scores) (simp add: assms(2) lowered_rule_set_def)
  then show ?thesis
    using worker_lowered assms(1) by (auto simp: decided_now_def Let_def decision_of_def split: sum.splits)
qed

lemma dry_run_scores:
  assumes "get_latest_rule_set api_externals (st_versions s) ''fraud-default'' = Inr rs"
    and "rs_definition rs = lowered_definition" "st_tables s = no_rows"
  shows "triggers_of (evaluate_rules smoke_env calm_api ''fraud-default'' (JsonBody dry_run_body) s) = Some [''HIGH_VALUE_THRESHOLD'']"
proof -
  have px: "ae_px smoke_env = smoke_px" "ac_now calm_api = 5" "ac_outage calm_api = None" "ac_velocity_outage calm_api = None"
    by (simp_all add: smoke_env_def calm_api_def)
  have "score_transaction None (st_tables s) rs rq = score_transaction None no_rows lowered_rule_set rq"
    for rq unfolding assms(3) by (rule same_definition_scores) (simp add: assms(2) lowered_rule_set_def)
  then show ?thesis
    using dry_run_lowered assms(1) smoke_key
    by (auto simp: triggers_of_def evaluate_rules_def px check_key_def check_body_def located_def checked_input_def
        query_def stored_def evaluate_answer_def split: sum.splits)
qed

text \<open>
  The update of a rule and its restoration: every check of the scenario holds of the model, with the
  default rule set in force at the start.
\<close>

theorem smoke_rule_update_passes: "list_all id (rule_update_scenario smoke_env calm_api smoke_admin smoke_stores)"
proof -
  let ?key = "''fraud-default''" and ?raw = "lowered (model_dump default_definition)"
  have start: "version_of_answer (get_active_version api_externals calm_api ?key smoke_stores) =
      Some (from_rule_set cached_rule_set)"
    using smoke_start(1) smoke_key
    by (simp add: version_of_answer_def get_active_version_def calm_api_def query_def stored_def check_key_def checked_input_def)
  have active: "vr_definition (from_rule_set cached_rule_set) = model_dump default_definition"
    "vr_version (from_rule_set cached_rule_set) = 1"
    by (simp_all add: from_rule_set_def cached_rule_set_def)
  have "\<exists>s' hs rs. create_version smoke_env calm_api smoke_admin ?key
      (JsonBody (version_body ''smoke test: lower high-value threshold to 8,000'' ?raw 1)) smoke_stores =
      (s', Inr (201, hs, VersionAnswer (from_rule_set rs))) \<and>
    rs_definition rs = lowered_definition \<and> rs_key rs = ?key \<and> rs_version rs = 1 + 1 \<and>
    contiguous (st_versions s') \<and> st_tables s' = st_tables smoke_stores \<and>
    current_version (st_versions s') ?key = rs_version rs \<and> get_latest_rule_set api_externals (st_versions s') ?key = Inr rs"
    by (rule smoke_publication [OF smoke_start(2) lowered_parses dumps_dict(2) dumps_plain(1,2)])
      (simp_all add: smoke_start(3))
  then obtain s1 hs rs where created: "create_version smoke_env calm_api smoke_admin ?key
      (JsonBody (version_body ''smoke test: lower high-value threshold to 8,000'' ?raw 1)) smoke_stores =
      (s1, Inr (201, hs, VersionAnswer (from_rule_set rs)))"
    and rs: "rs_definition rs = lowered_definition" "rs_version rs = 1 + 1"
    and s1: "contiguous (st_versions s1)" "st_tables s1 = st_tables smoke_stores"
      "current_version (st_versions s1) ?key = rs_version rs" "get_latest_rule_set api_externals (st_versions s1) ?key = Inr rs"
    by (elim exE conjE) (rule that)
  have two: "rs_version rs = 2" "current_version (st_versions s1) ?key = 2" "st_tables s1 = no_rows"
    using rs(2) s1(2,3) smoke_start(4) by simp_all
  have "stale_request smoke_env calm_api ?key (JsonBody (version_body ''stale writer'' ?raw 1)) (current_version (st_versions s1) ?key)"
    by (rule stale_smoke) (simp_all add: two(2))
  from stale_refused [OF this, of smoke_admin "\<lambda>_. []" None]
  obtain r where stale: "create_version smoke_env calm_api smoke_admin ?key (JsonBody (version_body ''stale writer'' ?raw 1)) s1 =
      (s1, r)" and refused: "re_status (respond (\<lambda>_. []) None r) = 409"
    by (elim exE conjE) (rule that)
  have conflict: "status_of r = 409" unfolding status_of_def by (rule refused)
  have "\<exists>s' hs rs. create_version smoke_env calm_api smoke_admin ?key
      (JsonBody (version_body ''smoke test: restore previous rules'' (model_dump default_definition) 2)) s1 =
      (s', Inr (201, hs, VersionAnswer (from_rule_set rs))) \<and>
    rs_definition rs = default_definition \<and> rs_key rs = ?key \<and> rs_version rs = 2 + 1 \<and>
    contiguous (st_versions s') \<and> st_tables s' = st_tables s1 \<and>
    current_version (st_versions s') ?key = rs_version rs \<and> get_latest_rule_set api_externals (st_versions s') ?key = Inr rs"
    by (rule smoke_publication [OF s1(1) default_dump_parses dumps_dict(1) dumps_plain(3,4)]) (simp_all add: two(2))
  then obtain s3 hs' rs' where restored: "create_version smoke_env calm_api smoke_admin ?key
      (JsonBody (version_body ''smoke test: restore previous rules'' (model_dump default_definition) 2)) s1 =
      (s3, Inr (201, hs', VersionAnswer (from_rule_set rs')))"
    by (elim exE conjE) (rule that)
  have label: "vr_label (from_rule_set rs) = rule_set_label rs" "vr_version (from_rule_set rs) = 2"
    by (simp_all add: from_rule_set_def two(1))
  have status: "status_of (Inr (st, hs, a)) = st" for st hs a by (simp add: status_of_def respond_def)
  have answer: "version_of_answer (Inr (st, hs, VersionAnswer v)) = Some v" for st hs v by (simp add: version_of_answer_def)
  have "rule_update_scenario smoke_env calm_api smoke_admin smoke_stores = [True, True, True, True, True]"
    unfolding rule_update_scenario_def Let_def smoke_env_simps start option.case active created prod.case answer
      stale restored label
    by (simp only: status conflict label dry_run_scores [OF s1(4) rs(1) two(3)] decided_scores [OF s1(4) rs(1) two(3)] simp_thms)
  then show ?thesis by simp
qed

section \<open>Access, pages, duplicates and a poison message\<close>

definition of_user :: "uuid \<Rightarrow> int \<Rightarrow> list_query_params" where
  "of_user user limit =
     \<lparr>lq_user_id = Some user, lq_category = None, lq_is_fraud = None, lq_verdict = None, lq_occurred_from = None,
      lq_occurred_to = None, lq_limit = limit, lq_cursor = None\<rparr>"

text \<open>Without a token 401 with the error schema; the analyst must not publish rules.\<close>

definition access_scenario :: "'k api_env \<Rightarrow> api_conditions \<Rightarrow> 'k call \<Rightarrow> 'k guard_state \<times> stores \<Rightarrow> bool list" where
  "access_scenario env c reader x =
     (let unauthenticated = snd (serve env c (reader\<lparr>cl_credentials := None\<rparr>) (ListTransactions (of_user 1 20)) x);
          forbidden = snd (serve env c reader (CreateVersion ''fraud-default''
            (JsonBody (JDict [(''description'', JStr ''x''), (''definition'', JDict [])]))) x)
      in [re_status unauthenticated = 401 \<and> eb_code (re_body unauthenticated) = ''unauthorized'',
          re_status forbidden = 403])"

lemma smoke_access: "access_scenario example_env calm_api example_call (example_guard, api_stores) = [True, True]"
  by code_simp

text \<open>The tables after some events were decided.\<close>

definition decided_tables :: "rule_set \<Rightarrow> transaction_created list \<Rightarrow> tx_tables \<Rightarrow> tx_tables" where
  "decided_tables rs evs db = foldl (\<lambda>db ev.
     case score_transaction None db rs (request_of ev) of
       Inl _ \<Rightarrow> db
     | Inr sc \<Rightarrow> fst (record_decision 0 db (decision_of ev rs (sc_assessment sc))
         \<lparr>mp_topic = ''transactions'', mp_partition = 0, mp_offset = int (ev_transaction_id ev), mp_timestamp_ms = None\<rparr>)) db evs"

text \<open>Two pages of four rows at most hold every decision of the user once.\<close>

definition paging_scenario :: "cursor_externals \<Rightarrow> api_conditions \<Rightarrow> uuid \<Rightarrow> uuid list \<Rightarrow> stores \<Rightarrow> bool" where
  "paging_scenario cx c user ids s =
     (let (page, next_cursor) = api_page cx c (of_user user 4) s None;
          (rest, last_cursor) = api_page cx c (of_user user 4) s next_cursor
      in sort (map (td_transaction_id \<circ> tr_decision) (page @ rest)) = sort ids \<and> last_cursor = None)"

definition velocity_stores :: stores where
  "velocity_stores = smoke_stores\<lparr>st_tables := decided_tables cached_rule_set smoke_velocity no_rows\<rparr>"

lemma velocity_pages:
  "snd (page_of (st_tables velocity_stores, filters_of (of_user 7 4) None) 4 None) = Some (2000000, 12)"
  "snd (page_of (st_tables velocity_stores, filters_of (of_user 7 4) None) 4 (Some (2000000, 12))) = None"
  "sort (map (td_transaction_id \<circ> tr_decision)
     (fst (page_of (st_tables velocity_stores, filters_of (of_user 7 4) None) 4 None) @
      fst (page_of (st_tables velocity_stores, filters_of (of_user 7 4) None) 4 (Some (2000000, 12))))) =
   sort (map ev_transaction_id smoke_velocity)"
  by code_simp+

lemma smoke_paging:
  assumes "tokens_ok cx"
  shows "paging_scenario cx calm_api 7 (map ev_transaction_id smoke_velocity) velocity_stores"
proof -
  have page: "api_page cx calm_api (of_user 7 4) velocity_stores (map_option (encode_cursor cx) cursor) =
      (let (rows, k) = page_of (st_tables velocity_stores, filters_of (of_user 7 4) None) 4 cursor
       in (rows, map_option (encode_cursor cx) k))" if "\<And>k. cursor = Some k \<Longrightarrow> cursor_ok k" for cursor
    using that by (intro api_page_page_of [OF assms])
      (simp_all add: calm_api_def category_filter_def of_user_def MAX_PAGE_SIZE_def)
  have "cursor_ok (2000000, 12)" by (simp add: cursor_ok_def datetime_ok_def MIN_DATETIME_def MAX_DATETIME_def)
  with page [of None] page [of "Some (2000000, 12)"] velocity_pages show ?thesis
    by (simp add: paging_scenario_def case_prod_beta Let_def)
qed

text \<open>The event that is published twice has one decision.\<close>

definition duplicate_scenario :: "cursor_externals \<Rightarrow> api_conditions \<Rightarrow> uuid \<Rightarrow> stores \<Rightarrow> bool" where
  "duplicate_scenario cx c user s = (length (fst (api_page cx c (of_user user 20) s None)) = 1)"

definition duplicate_stores :: stores where
  "duplicate_stores =
     (let ev = smoke_event 9 40 4200 ''GROCERIES'' ''ZAR'' 0
      in smoke_stores\<lparr>st_tables := decided_tables cached_rule_set [ev, ev] no_rows\<rparr>)"

lemma smoke_duplicate: "duplicate_scenario example_cursors calm_api 9 duplicate_stores"
  by code_simp

text \<open>The poison message: a JSON document that lacks the fields of an event.\<close>

definition poison_px :: event_externals where
  "poison_px = example_px\<lparr>json_loads := (\<lambda>s. Some (Some (JDict
     [(''schema_version'', JInt 1), (''event_type'', JStr ''TransactionCreated''), (''poison'', JStr ''marker'')])))\<rparr>"

definition poison_message :: kafka_message where
  "poison_message =
     example_message\<lparr>km_key := Some ''smoke-poison'', km_value := Some ''{poison: marker}''\<rparr>"

definition poison_operations :: "world operations" where
  "poison_operations = worker_operations poison_px example_externals example_conversions ''transactions.dlq''"

definition seen_poisoned :: "world \<Rightarrow> bool" where
  "seen_poisoned w = dead_lettered ''marker'' 30 (map (\<lambda>r. (0, Some r)) (wd_dlq w))"

lemma poison_attempts:
  "case handle_attempt poison_operations example_retry poison_message first_attempt example_worker_world of
     (w1, Inl r) \<Rightarrow> False
   | (w1, Inr h) \<Rightarrow> \<not> op_stopping poison_operations w1 \<and>
       (case handle_attempt poison_operations example_retry poison_message h w1 of
          (w2, Inl (DeadLettered l)) \<Rightarrow> seen_poisoned w2
        | _ \<Rightarrow> False)"
  by code_simp

lemma smoke_poison:
  "\<exists>w l. handle poison_operations example_retry poison_message example_worker_world = Some (w, DeadLettered l) \<and> seen_poisoned w"
proof -
  have go: "\<not> op_stopping poison_operations example_worker_world"
    by (simp add: poison_operations_def worker_operations_def example_worker_world_def next_of_def)
  obtain w1 r1 where first: "handle_attempt poison_operations example_retry poison_message first_attempt example_worker_world =
      (w1, r1)" by (rule prod.exhaust)
  from poison_attempts [unfolded first] obtain h where h: "r1 = Inr h" by (cases r1) simp_all
  obtain w2 r2 where second: "handle_attempt poison_operations example_retry poison_message h w1 = (w2, r2)"
    by (rule prod.exhaust)
  from poison_attempts [unfolded first h] have "\<not> op_stopping poison_operations w1"
    "\<exists>l. r2 = Inl (DeadLettered l) \<and> seen_poisoned w2"
    by (simp_all add: second split: sum.splits handle_result.splits)
  with first h second go show ?thesis by (subst handle_def, subst loop_step, subst loop_step) auto
qed

section \<open>Witnesses of the theorems about publishing\<close>


theorem rule_update_effective_witness:
  "\<exists>s' hs v. create_version smoke_env calm_api smoke_admin ''fraud-default''
      (JsonBody (version_body ''v2'' (lowered (model_dump default_definition)) 1)) smoke_stores =
      (s', Inr (201, hs, VersionAnswer v)) \<and> vr_version v = 2 \<and>
    get_active_version api_externals calm_api ''fraud-default'' s' = Inr (200, [], VersionAnswer v)"
proof -
  have "\<exists>s' hs rs. create_version smoke_env calm_api smoke_admin ''fraud-default''
      (JsonBody (version_body ''v2'' (lowered (model_dump default_definition)) 1)) smoke_stores =
      (s', Inr (201, hs, VersionAnswer (from_rule_set rs))) \<and>
    rs_definition rs = lowered_definition \<and> rs_key rs = ''fraud-default'' \<and> rs_version rs = 1 + 1 \<and>
    contiguous (st_versions s') \<and> st_tables s' = st_tables smoke_stores \<and>
    current_version (st_versions s') ''fraud-default'' = rs_version rs \<and>
    get_latest_rule_set api_externals (st_versions s') ''fraud-default'' = Inr rs"
    by (rule smoke_publication [OF smoke_start(2) lowered_parses dumps_dict(2) dumps_plain(1,2)])
      (simp_all add: smoke_start(3))
  then obtain s' hs rs where made: "create_version smoke_env calm_api smoke_admin ''fraud-default''
      (JsonBody (version_body ''v2'' (lowered (model_dump default_definition)) 1)) smoke_stores =
      (s', Inr (201, hs, VersionAnswer (from_rule_set rs)))" by (elim exE conjE) (rule that)
  have calm: "ac_outage calm_api = None" by (simp add: calm_api_def)
  from rule_update_effective [OF smoke_start(2) made] obtain v where v: "VersionAnswer (from_rule_set rs) = VersionAnswer v"
    "vr_version v = current_version (st_versions smoke_stores) ''fraud-default'' + 1"
    "\<forall>c'. ac_outage c' = None \<longrightarrow> get_active_version (ae_ext smoke_env) c' ''fraud-default'' s' = Inr (200, [], VersionAnswer v)"
    by (elim exE conjE) (rule that)
  from v(2) have "vr_version v = 2" by (simp add: smoke_start(3))
  moreover from v(3) calm have "get_active_version api_externals calm_api ''fraud-default'' s' = Inr (200, [], VersionAnswer v)"
    by simp
  ultimately show ?thesis using made v(1) by blast
qed

end
