(* ===== verification/Spec2Isabelle.thy ===== *)
theory Spec2Isabelle
  imports Default_Rules Stored_Documents Ledger Schema Worker_Services Worker_Facts Rate_Limit_Facts
    Worker_Run Telemetry Load_Tests Lifecycle Smoke_Api
begin

text \<open>
  \<^bold>\<open>The program.\<close> Producers publish \<open>TransactionCreated\<close> events to Kafka, keyed by user. A worker
  (\<open>app/worker.py\<close>) polls its partitions, parses every event (\<open>app/events.py\<close>), scores it with the active
  rule set (\<open>app/processing.py\<close>, \<open>app/rules.py\<close>, \<open>app/cache.py\<close>) and records the first decision about each
  transaction in PostgreSQL (\<open>app/database.py\<close>); what cannot be processed goes to a dead-letter topic
  (\<open>app/dlq.py\<close>), from which a script replays it. An HTTP API (\<open>app/api.py\<close>) reads decisions, publishes
  versions of the rule sets and scores hypothetical transactions, for callers with scoped bearer tokens
  (\<open>app/security.py\<close>) inside a rate limit (\<open>app/rate_limit.py\<close>). A daily job sums up the decisions
  (\<open>app/batch_worker.py\<close>). Every process reads its configuration from the environment
  (\<open>app/settings.py\<close>, \<open>app/kafka_config.py\<close>).

  \<^bold>\<open>Conventions.\<close> A raised exception is \<open>Inl\<close>, a returned value \<open>Inr\<close>; a stateful operation returns its
  new state as well. Decimals are coefficient and exponent; times are microseconds since the epoch, or
  rational seconds where the code uses float clocks; UUIDs are their 128-bit numbers; database integers
  are integers with the range of their column. What the repository does not define is an argument:
  SHA-256, float texts, pydantic's conversions, \<open>JSONB\<close>, Redis, the Kafka broker, PyJWT, the key-set
  download, clocks, and the exceptions a call to a service may raise. Theorems state what they need of
  it as hypotheses, and an example shows that these can be met.

  \<^bold>\<open>Rules\<close> (\<open>app/rules.py\<close>).
  \<^item> \<open>Prelude\<close>: the error monad and facts on lists and number texts; \<open>Decimals\<close>: \<open>decimal.Decimal\<close> with the
    default context; \<open>Py_Values\<close>: JSON documents and evaluated values.
  \<^item> \<open>Expressions\<close>: the variables, operators, evaluator and static checker of the condition language.
    \<open>Expression_Safety\<close>: an accepted condition has the type that was inferred. \<open>Expression_Bounds\<close>: its
    numbers stay small enough that no overflow is possible. \<open>Expression_Semantics\<close>: comparisons and sums
    against rational arithmetic.
  \<^item> \<open>Rule_Sets\<close>: the models, validation, hashing, loading and scoring of rule sets. \<open>Scoring\<close>: what the
    checks promise, what scoring computes, the order of verdicts. \<open>Default_Rules\<close>: the exact decisions of
    the seeded rule set.

  \<^bold>\<open>Storage\<close> (\<open>app/database.py\<close>, \<open>app/cache.py\<close>, \<open>alembic/versions\<close>).
  \<^item> \<open>Transactions\<close>: the two transaction tables and their statements. \<open>Transaction_Facts\<close>: their invariant,
    idempotent recording, velocity. \<open>Ledger\<close>: the abstract ledger of first decisions that
    \<open>record_decision\<close> refines. \<open>Paging\<close>: keyset paging as a locale, interpreted for decisions and for
    versions.
  \<^item> \<open>Rule_Store\<close>, \<open>Rule_Store_Facts\<close>: rule-set versions, with concurrent publishers as a step relation.
    \<open>Stored_Documents\<close>: publishing through \<open>JSONB\<close>, and the float literals that it breaks.
  \<^item> \<open>Rule_Cache\<close>, \<open>Rule_Cache_Facts\<close>: the provider with its caches in time; the locale of a source of
    checked rule sets, interpreted for the provider and for the database.
  \<^item> \<open>Schema\<close>: the migrations as functions of a schema, that they agree with the statements above, and
    the seeded version.

  \<^bold>\<open>The worker\<close> (\<open>app/worker.py\<close>, \<open>app/processing.py\<close>, \<open>app/events.py\<close>, \<open>app/errors.py\<close>, \<open>app/dlq.py\<close>).
  \<^item> \<open>Errors\<close>: exceptions by their classes, and \<open>classify_failure\<close>. \<open>Events\<close>, \<open>Event_Facts\<close>: parsing;
    \<open>Publishing\<close>: the events of the scripts that publish them, which it accepts.
  \<^item> \<open>Processing\<close>, \<open>Processing_Facts\<close>: one message from payload to stored decision, its failures and its
    redelivery. \<open>Dead_Letters\<close>: records of failed messages, and their replay.
  \<^item> \<open>Message_Handling\<close>, \<open>Handling_Facts\<close>: the retry loop over any handler and sink (a locale), its backoff
    and its ends. \<open>Worker_Services\<close> interprets it on the processor and the publisher: no message is lost.
    \<open>Handling_Metrics\<close>: the same loop with the metrics it feeds, which account for the messages and, on the
    real services, for the decisions in the store (a locale again).
  \<^item> \<open>Worker\<close>, \<open>Worker_Facts\<close>: polling, partition tasks, rebalances and offsets as a step relation.
    \<open>Worker_Run\<close>: the poll loop with its exits and heartbeat, and the shutdown.

  \<^bold>\<open>The API\<close> (\<open>app/api.py\<close>, \<open>app/schemas.py\<close>, \<open>app/security.py\<close>, \<open>app/rate_limit.py\<close>).
  \<^item> \<open>Rate_Limit\<close>, \<open>Rate_Limit_Facts\<close>: Redis counters against plain counting. \<open>Security\<close>, \<open>Security_Facts\<close>:
    signing keys, tokens, scopes. \<open>Page_Cursor\<close>: the text of a cursor.
  \<^item> \<open>Http_Api\<close>, \<open>Http_Api_Facts\<close>: every route, the error handlers, and a request from the token to the
    response. \<open>Dry_Run\<close>: the dry run predicts the worker. \<open>Rule_Updates\<close>: publishing works, and a published
    version is in force at once for every caller.

  \<^bold>\<open>Around them.\<close>
  \<^item> \<open>Settings\<close>, \<open>Kafka_Config\<close>, \<open>Settings_Facts\<close>: the configuration and its bounds. \<open>Lifecycle\<close>: the cached
    settings, what the processes open and close, the middleware and routes of the API application, the
    options of the scripts' clients, the database address of the migrations.
  \<^item> \<open>Observability\<close>, \<open>Metrics\<close>, \<open>Logging\<close>: ids, redaction and request context, the metric wrappers, the
    chain of processors of a log record. \<open>Telemetry\<close>: every recorded series was declared, the backlog gauge
    follows the queue, and a request leaves the log record that its response refers to.
  \<^item> \<open>Batch\<close>: the daily summary and the container probe. \<open>Load_Tests\<close>: the measurements of the load tests.
  \<^item> \<open>Smoke\<close>, \<open>Smoke_Api\<close>: the scenarios of \<open>scripts/smoke_test.py\<close>, run on the model with the results that the
    script expects of a deployed system. \<open>Processing_Examples\<close> and \<open>Api_Examples\<close> hold the larger examples.

  \<^bold>\<open>Bounds and fuel.\<close> A condition has at most 400 nodes, so with numbers up to \<open>10 ^ 2499\<close> its value stays
  below the overflow at \<open>10 ^ 999999\<close>. The retry loop may not end and is a partial function whose value
  is \<open>None\<close> then; that it ends is proved for permanent, repeated unexpected and up to 1024 transient
  failures (a later attempt overflows a float in \<open>retry_delay\<close>). A client that pages has as much fuel as
  there are rows, plus one, which is enough because every page but the last is not empty.

  \<^bold>\<open>Not modelled.\<close> Of structlog, OpenTelemetry, the Prometheus client, FastAPI and Starlette only what the
  code relies on is modelled; OpenAPI texts, the buckets of histograms and the headers of CORS are not.
  The broker is modelled as far as the worker sees it: logs, offsets, assignments and acknowledgements;
  threads and the event loop appear as interleavings of steps. What the log lines of the worker say is
  left out; they have no effect on it. Of the scripts, argument parsing, printing, and the calls of
  Docker, k6, Keycloak and HTTP are left out, and of \<open>alembic/env.py\<close> the runs of Alembic.
\<close>

end
